(* ===== verification/Prelude.thy ===== *)
theory Prelude
  imports Main "HOL-Library.AList" "HOL-Library.Sublist"
begin

text \<open>
  Shared vocabulary of the py2droid development.  Python \<open>bytes\<close> objects are lists of
  Isabelle \<open>char\<close>s (an Isabelle \<open>char\<close> is exactly one byte, values 0 to 255); Python
  \<open>str\<close> values are \<open>string\<close>s whose characters stand for code points below 256.
  File-system paths relative to an install prefix are lists of name components.
  Exceptions the scripts raise or let escape are constructors of \<open>py_error\<close>, and a
  fallible operation returns \<open>py_error + 'a\<close> (\<open>Inl\<close> the exception).
  The collection \<open>model_eval\<close> gathers the equations that evaluate the model on
  concrete inputs; witnesses use \<open>simp add: model_eval\<close>.
\<close>

named_theorems model_eval "equations that evaluate the model on concrete inputs"

type_synonym byte = char
type_synonym bytes = "char list"
type_synonym name = string
type_synonym path = "name list"

datatype py_error =
    KeyError string
  | FileNotFoundError path
  | NotADirectoryError path
  | ValueError string
  | CalledProcessError int "string list"
  | BuilderError string
  | IsADirectoryError path
  | IndexError string
  | ReleaseError string
  | ReadError string
  | TypeError string
  | SystemExit int string
  | FileExistsError path
  | AttributeError string

definition byte_val :: "byte \<Rightarrow> nat" where
  "byte_val b = of_char b"

abbreviation NL :: char where
  "NL \<equiv> CHR 0x0A"

fun split_on :: "char \<Rightarrow> string \<Rightarrow> string list" where
  "split_on c [] = [[]]"
| "split_on c (x # xs) =
     (let ws = split_on c xs in if x = c then [] # ws else (x # hd ws) # tl ws)"

fun join :: "string \<Rightarrow> string list \<Rightarrow> string" where
  "join sep [] = []"
| "join sep [w] = w"
| "join sep (w # v # ws) = w @ sep @ join sep (v # ws)"

lemma byte_val_less [simp]: "byte_val b < 256"
  by (simp add: byte_val_def)

lemma byte_val_inject [simp]: "byte_val a = byte_val b \<longleftrightarrow> a = b"
  by (simp add: byte_val_def)

text \<open>Association lists: filtering by key, as a deletion in a directory listing does.\<close>

lemma map_of_filter_key [simp]:
  "map_of (filter (\<lambda>(k, v). P k) xs) k = (if P k then map_of xs k else None)"
  by (induction xs) auto

lemma distinct_map_fst_filter [intro]:
  "distinct (map fst xs) \<Longrightarrow> distinct (map fst (filter P xs))"
  by (induction xs) (auto simp: image_iff)

lemma filter_map_of_eq:
  assumes "distinct (map fst xs)" and "map_of (filter P xs) = map_of xs"
  shows "filter P xs = xs"
proof -
  have "P x" if x: "x \<in> set xs" for x
  proof -
    obtain k v where kv: "x = (k, v)" by fastforce
    with assms(1) x have "map_of xs k = Some v" by simp
    with assms(2) have "(k, v) \<in> set (filter P xs)" by (metis map_of_SomeD)
    with kv show "P x" by simp
  qed
  then show ?thesis by simp
qed

text \<open>A loop whose every step keeps a sublist of its input keeps a sublist.\<close>

lemma fold_filter:
  assumes "\<And>x ys. \<exists>Q. f x ys = filter Q ys"
  shows "\<exists>P. fold f xs ys = filter P ys"
proof (induction xs arbitrary: ys)
  case Nil
  show ?case by (rule exI [of _ "\<lambda>_. True"]) simp
next
  case (Cons x xs)
  obtain Q where "f x ys = filter Q ys" using assms by blast
  moreover obtain P where "fold f xs (filter Q ys) = filter P (filter Q ys)"
    using Cons.IH by blast
  ultimately show ?case by auto
qed

lemma takeWhile_neq_append [simp]: "x \<notin> set l \<Longrightarrow> takeWhile (\<lambda>c. c \<noteq> x) (l @ x # r) = l"
  by (induction l) auto

lemma dropWhile_neq_append [simp]: "x \<notin> set l \<Longrightarrow> dropWhile (\<lambda>c. c \<noteq> x) (l @ x # r) = x # r"
  by (induction l) auto

lemma dropWhile_all [simp]: "\<forall>x \<in> set s. P x \<Longrightarrow> dropWhile P s = []"
  by (induction s) auto

subsection \<open>\<open>str.split\<close> and \<open>str.join\<close> on one separator\<close>

lemma join_Cons: "ws \<noteq> [] \<Longrightarrow> join sep (w # ws) = w @ sep @ join sep ws"
  by (cases ws) simp_all

lemma join_Cons_hd [simp]: "join sep ((x # w) # ws) = x # join sep (w # ws)"
  by (cases ws) simp_all

lemma split_on_not_Nil [simp]: "split_on c s \<noteq> []"
  by (cases s) (simp_all add: Let_def)

lemma join_split_on [simp]: "join [c] (split_on c s) = s"
proof (induction s)
  case (Cons x xs)
  then show ?case
    by (cases "split_on c xs") (auto simp: Let_def join_Cons neq_Nil_conv)
qed simp

lemma split_on_append_sep:
  "c \<notin> set w \<Longrightarrow> split_on c (w @ c # s) = w # split_on c s"
  by (induction w) (auto simp: Let_def)

lemma split_on_no_sep: "c \<notin> set w \<Longrightarrow> split_on c w = [w]"
  by (induction w) (auto simp: Let_def)

lemma split_on_join:
  "ws \<noteq> [] \<Longrightarrow> \<forall>w \<in> set ws. c \<notin> set w \<Longrightarrow> split_on c (join [c] ws) = ws"
proof (induction ws)
  case (Cons w ws)
  then show ?case
    by (cases ws) (simp_all add: split_on_no_sep split_on_append_sep join_Cons)
qed simp

lemma join_snoc: "vs \<noteq> [] \<Longrightarrow> join sep (vs @ [p]) = join sep vs @ sep @ p"
proof (induction vs)
  case (Cons v vs)
  then show ?case by (cases vs) simp_all
qed simp

lemma split_on_join_sep:
  "vs \<noteq> [] \<Longrightarrow> \<forall>w \<in> set vs. c \<notin> set w \<Longrightarrow>
     split_on c (join [c] vs @ c # s) = vs @ split_on c s"
proof (induction vs)
  case (Cons v vs)
  then show ?case by (cases vs) (simp_all add: split_on_append_sep)
qed simp

lemma map_fst_update: "map fst (AList.update k v al) =
  (if k \<in> fst ` set al then map fst al else map fst al @ [k])"
  by (induction al) auto


lemma butlast_last_eq: "q \<noteq> [] \<Longrightarrow> butlast q = d \<Longrightarrow> q = d @ [last q]"
  by (metis append_butlast_last_id)

lemma butlast_strict_prefix: "c \<noteq> [] \<Longrightarrow> butlast c = p \<Longrightarrow> strict_prefix p c \<and> length c = Suc (length p)"
proof -
  assume "c \<noteq> []" "butlast c = p"
  then have "c = p @ [last c]" by (rule butlast_last_eq)
  then show ?thesis by (metis length_append_singleton strict_prefixI')
qed


lemma those_map_None: "those (map f xs) = None \<longleftrightarrow> (\<exists>x\<in>set xs. f x = None)"
  by (induction xs) (auto split: option.splits)

lemma ex_Some_of_None: "(a = None \<longleftrightarrow> \<not> P) \<Longrightarrow> (\<exists>y. a = Some y) \<longleftrightarrow> P"
  by (cases a) simp_all

lemma bind_None_iff: "(Option.bind a f = None) \<longleftrightarrow> a = None \<or> (\<exists>x. a = Some x \<and> f x = None)"
  by (cases a) simp_all

lemma prefix_same_length: "prefix a b \<Longrightarrow> length a = length b \<Longrightarrow> a = b"
  by (auto simp: prefix_def)

end
