(* ===== verification/Regex.thy ===== *)
theory Regex
  imports Prelude
begin

text \<open>
  The fragment of Python's \<open>re\<close> module that \<open>build.py\<close> uses: byte patterns built
  from literals, character classes, concatenation, alternation and the repetition
  operators \<open>*\<close>, \<open>+\<close> and \<open>?\<close>, applied with \<open>Pattern.match\<close>, which succeeds
  when some prefix of the subject is in the pattern's language.
  \<open>pm r s\<close> is a backtracking matcher: the list of every remainder of \<open>s\<close> left after
  \<open>r\<close> has consumed a prefix, in the order in which the engine of \<open>re\<close> tries them
  (alternatives from the left, repetitions greedily), so that its head is the match
  \<open>re\<close> reports.  A repetition never takes an empty iteration (the guard
  on the length), the way the engine of \<open>re\<close> cuts empty loops.  \<open>in_lang\<close> is the
  declarative language of a pattern; \<open>pm_correct\<close> shows that the matcher finds
  exactly the prefixes in the language, and \<open>re_match_iff\<close> states what
  \<open>Pattern.match\<close> returns in those terms.
\<close>

datatype rx =
    Eps
  | Lit char
  | Cls "char list"
  | Seq rx rx
  | Alt rx rx
  | Star rx

abbreviation Opt :: "rx \<Rightarrow> rx" where
  "Opt r \<equiv> Alt r Eps"

abbreviation Plus :: "rx \<Rightarrow> rx" where
  "Plus r \<equiv> Seq r (Star r)"

fun Str :: "char list \<Rightarrow> rx" where
  "Str [] = Eps"
| "Str (c # cs) = Seq (Lit c) (Str cs)"

text \<open>\<open>Cat\<close> writes a pattern as the sequence of its parts, in source order.\<close>

fun Cat :: "rx list \<Rightarrow> rx" where
  "Cat [] = Eps"
| "Cat (r # rs) = Seq r (Cat rs)"

fun pm :: "rx \<Rightarrow> bytes \<Rightarrow> bytes list" where
  "pm Eps s = [s]"
| "pm (Lit c) s = (case s of [] \<Rightarrow> [] | d # s' \<Rightarrow> if d = c then [s'] else [])"
| "pm (Cls cs) s = (case s of [] \<Rightarrow> [] | d # s' \<Rightarrow> if d \<in> set cs then [s'] else [])"
| "pm (Seq a b) s = concat (map (pm b) (pm a s))"
| "pm (Alt a b) s = pm a s @ pm b s"
| "pm (Star r) s =
     concat (map (\<lambda>s'. if length s' < length s then pm (Star r) s' else []) (pm r s)) @ [s]"

definition re_match :: "rx \<Rightarrow> bytes \<Rightarrow> bool" where
  "re_match r s \<longleftrightarrow> pm r s \<noteq> []"

inductive in_lang :: "rx \<Rightarrow> bytes \<Rightarrow> bool" where
  eps: "in_lang Eps []"
| lit: "in_lang (Lit c) [c]"
| cls: "c \<in> set cs \<Longrightarrow> in_lang (Cls cs) [c]"
| seq: "in_lang a u \<Longrightarrow> in_lang b v \<Longrightarrow> in_lang (Seq a b) (u @ v)"
| alt1: "in_lang a u \<Longrightarrow> in_lang (Alt a b) u"
| alt2: "in_lang b u \<Longrightarrow> in_lang (Alt a b) u"
| star0: "in_lang (Star r) []"
| star: "in_lang r u \<Longrightarrow> in_lang (Star r) v \<Longrightarrow> in_lang (Star r) (u @ v)"

declare pm.simps(6) [simp del]
lemmas pm_Star_eval [model_eval] = pm.simps(6)
declare re_match_def [model_eval]

lemma pm_Star_mem:
  "s' \<in> set (pm (Star r) s) \<longleftrightarrow>
     s' = s \<or> (\<exists>s1 \<in> set (pm r s). length s1 < length s \<and> s' \<in> set (pm (Star r) s1))"
  by (subst pm.simps(6)) auto

inductive_simps in_lang_Eps [simp]: "in_lang Eps u"
inductive_simps in_lang_Lit [simp]: "in_lang (Lit c) u"
inductive_simps in_lang_Cls [simp]: "in_lang (Cls cs) u"
inductive_simps in_lang_Seq [simp]: "in_lang (Seq a b) u"
inductive_simps in_lang_Alt [simp]: "in_lang (Alt a b) u"

subsection \<open>The matcher returns suffixes\<close>

lemma pm_suffix: "s' \<in> set (pm r s) \<Longrightarrow> suffix s' s"
proof (induction r s arbitrary: s' rule: pm.induct)
  case (4 a b s)
  then obtain s1 where s1: "s1 \<in> set (pm a s)" and s': "s' \<in> set (pm b s1)" by auto
  have "suffix s1 s" by (rule "4.IH"(1) [OF s1])
  moreover have "suffix s' s1" by (rule "4.IH"(2) [OF s1 s'])
  ultimately show ?case by (metis suffix_order.trans)
next
  case (6 r s)
  show ?case
  proof (cases "s' = s")
    case False
    with "6.prems" obtain s1 where s1: "s1 \<in> set (pm r s)" and len: "length s1 < length s"
      and s': "s' \<in> set (pm (Star r) s1)"
      by (auto simp: pm_Star_mem [of s' r s])
    have "suffix s1 s" by (rule "6.IH"(1) [OF s1])
    moreover have "suffix s' s1" by (rule "6.IH"(2) [OF s1 len s'])
    ultimately show ?thesis by (metis suffix_order.trans)
  qed simp
next
  case (2 c s)
  then show ?case by (cases s) (auto split: if_splits intro: suffix_ConsI)
next
  case (3 cs s)
  then show ?case by (cases s) (auto split: if_splits intro: suffix_ConsI)
next
  case (5 a b s)
  then show ?case by auto
qed simp

subsection \<open>Soundness and completeness against the language\<close>

lemma pm_sound: "s' \<in> set (pm r s) \<Longrightarrow> \<exists>u. s = u @ s' \<and> in_lang r u"
proof (induction r s arbitrary: s' rule: pm.induct)
  case (4 a b s)
  then obtain s1 where s1: "s1 \<in> set (pm a s)" and s': "s' \<in> set (pm b s1)"
    by auto
  from "4.IH"(1) [OF s1] obtain u where u: "s = u @ s1" "in_lang a u" by blast
  from "4.IH"(2) [OF s1 s'] obtain v where v: "s1 = v @ s'" "in_lang b v" by blast
  from u(2) v(2) have "in_lang (Seq a b) (u @ v)" by (rule in_lang.seq)
  with u(1) v(1) show ?case by (intro exI [of _ "u @ v"]) simp
next
  case (6 r s)
  show ?case
  proof (cases "s' = s")
    case True
    then show ?thesis by (intro exI [of _ "[]"]) (simp add: in_lang.star0)
  next
    case False
    with "6.prems" obtain s1 where s1: "s1 \<in> set (pm r s)" and len: "length s1 < length s"
      and s': "s' \<in> set (pm (Star r) s1)"
      by (auto simp: pm_Star_mem [of s' r s])
    from "6.IH"(1) [OF s1] obtain u where u: "s = u @ s1" "in_lang r u" by blast
    from "6.IH"(2) [OF s1 len s'] obtain v where v: "s1 = v @ s'" "in_lang (Star r) v"
      by blast
    from u(2) v(2) have "in_lang (Star r) (u @ v)" by (rule in_lang.star)
    with u(1) v(1) show ?thesis by (intro exI [of _ "u @ v"]) simp
  qed
next
  case (5 a b s)
  then show ?case by auto
qed (auto split: list.splits if_splits)

lemma pm_complete: "in_lang r u \<Longrightarrow> s' \<in> set (pm r (u @ s'))"
proof (induction r u arbitrary: s' rule: in_lang.induct)
  case (seq a u b v)
  have "v @ s' \<in> set (pm a (u @ v @ s'))" by (rule seq.IH(1))
  moreover have "s' \<in> set (pm b (v @ s'))" by (rule seq.IH(2))
  ultimately show ?case by auto
next
  case (star r u v)
  show ?case
  proof (cases "u = []")
    case True
    with star.IH(2) show ?thesis by simp
  next
    case False
    have "v @ s' \<in> set (pm r (u @ v @ s'))" by (rule star.IH(1))
    moreover have "length (v @ s') < length (u @ v @ s')" using False by simp
    moreover have "s' \<in> set (pm (Star r) (v @ s'))" by (rule star.IH(2))
    ultimately have "\<exists>s1 \<in> set (pm r (u @ v @ s')).
        length s1 < length (u @ v @ s') \<and> s' \<in> set (pm (Star r) s1)"
      by blast
    then show ?thesis by (simp add: pm_Star_mem [of s' r "u @ v @ s'"])
  qed
next
  case (star0 r)
  show ?case by (simp add: pm_Star_mem [of s' r s'])
qed simp_all

theorem pm_correct: "s' \<in> set (pm r s) \<longleftrightarrow> (\<exists>u. s = u @ s' \<and> in_lang r u)"
  using pm_sound pm_complete by blast

theorem re_match_iff: "re_match r s \<longleftrightarrow> (\<exists>u v. s = u @ v \<and> in_lang r u)"
proof
  assume "re_match r s"
  then obtain s' where "s' \<in> set (pm r s)"
    unfolding re_match_def by (metis list.set_intros(1) neq_Nil_conv)
  from pm_sound [OF this] obtain u where "s = u @ s'" "in_lang r u" by blast
  then show "\<exists>u v. s = u @ v \<and> in_lang r u" by blast
next
  assume "\<exists>u v. s = u @ v \<and> in_lang r u"
  then obtain u v where "s = u @ v" "in_lang r u" by blast
  with pm_complete [of r u v] have "v \<in> set (pm r s)" by simp
  then show "re_match r s" unfolding re_match_def by (metis empty_iff empty_set)
qed

text \<open>
  A language given as the image of a parameter space turns into a statement about
  \<open>Pattern.match\<close>: the subject is one of its words followed by anything.
\<close>

lemma re_match_lang:
  assumes "\<And>u. in_lang r u \<longleftrightarrow> (\<exists>a. u = f a \<and> P a)"
  shows "re_match r s \<longleftrightarrow> (\<exists>a t. s = f a @ t \<and> P a)"
  using assms unfolding re_match_iff by blast

lemma re_match_lang_tail:
  assumes "\<And>u. in_lang r u \<longleftrightarrow> (\<exists>a d. u = f a @ d \<and> P a \<and> Q d)" and "Q []"
  shows "re_match r s \<longleftrightarrow> (\<exists>a t. s = f a @ t \<and> P a)"
proof
  assume "re_match r s"
  then obtain a d t where "s = f a @ d @ t" "P a" using assms(1) unfolding re_match_iff by auto
  then show "\<exists>a t. s = f a @ t \<and> P a" by blast
next
  assume "\<exists>a t. s = f a @ t \<and> P a"
  then obtain a t where "s = (f a @ []) @ t" "P a" by auto
  with assms show "re_match r s" unfolding re_match_iff by blast
qed

subsection \<open>Languages of the derived operators\<close>

lemma in_lang_Str [simp]: "in_lang (Str w) u \<longleftrightarrow> u = w"
  by (induction w arbitrary: u) auto

lemma in_lang_Star_Cls [simp]: "in_lang (Star (Cls cs)) u \<longleftrightarrow> set u \<subseteq> set cs"
proof
  assume "in_lang (Star (Cls cs)) u"
  then show "set u \<subseteq> set cs"
    by (induction "Star (Cls cs)" u rule: in_lang.induct) auto
next
  assume "set u \<subseteq> set cs"
  then show "in_lang (Star (Cls cs)) u"
  proof (induction u)
    case Nil
    show ?case by (rule in_lang.star0)
  next
    case (Cons c u)
    then have "in_lang (Cls cs) [c]" "in_lang (Star (Cls cs)) u" by auto
    then show ?case using in_lang.star by fastforce
  qed
qed

lemma in_lang_Plus_Cls: "in_lang (Plus (Cls cs)) u \<longleftrightarrow> u \<noteq> [] \<and> set u \<subseteq> set cs"
proof
  assume "in_lang (Plus (Cls cs)) u"
  then show "u \<noteq> [] \<and> set u \<subseteq> set cs" by auto
next
  assume u: "u \<noteq> [] \<and> set u \<subseteq> set cs"
  then obtain c v where u: "u = [c] @ v" and c: "c \<in> set cs" and v: "set v \<subseteq> set cs"
    by (cases u) auto
  from c have "in_lang (Cls cs) [c]" by simp
  moreover from v have "in_lang (Star (Cls cs)) v" by simp
  ultimately have "in_lang (Plus (Cls cs)) ([c] @ v)" by (rule in_lang.seq)
  with u show "in_lang (Plus (Cls cs)) u" by simp
qed

lemma Cons_Star_Cls_iff [simp]:
  "(\<exists>u v. w = u @ v \<and> (\<exists>c. u = [c] \<and> c \<in> set cs) \<and> set v \<subseteq> set cs) \<longleftrightarrow>
     w \<noteq> [] \<and> set w \<subseteq> set cs"
proof (cases w)
  case (Cons c v)
  show ?thesis
  proof
    assume "w \<noteq> [] \<and> set w \<subseteq> set cs"
    with Cons have "w = [c] @ v \<and> (\<exists>c'. [c] = [c'] \<and> c' \<in> set cs) \<and> set v \<subseteq> set cs"
      by simp
    then show "\<exists>u v. w = u @ v \<and> (\<exists>c. u = [c] \<and> c \<in> set cs) \<and> set v \<subseteq> set cs"
      by blast
  qed auto
qed simp

text \<open>
  A pattern followed by a part that accepts the empty string matches the same
  subjects under \<open>Pattern.match\<close>: the optional tail of a pattern never decides
  whether \<open>match\<close> succeeds.
\<close>

lemma re_match_Seq_nullable:
  assumes "in_lang t []"
  shows "re_match (Seq r t) s \<longleftrightarrow> re_match r s"
proof
  assume "re_match (Seq r t) s"
  then obtain u v where "s = u @ v" "in_lang (Seq r t) u" by (auto simp: re_match_iff)
  then obtain x y where "s = x @ y @ v" "in_lang r x" by auto
  then show "re_match r s" by (auto simp: re_match_iff)
next
  assume "re_match r s"
  then obtain u v where "s = u @ v" "in_lang r u" by (auto simp: re_match_iff)
  with assms have "in_lang (Seq r t) (u @ [])" by (simp only: in_lang.seq)
  with \<open>s = u @ v\<close> show "re_match (Seq r t) s" by (auto simp: re_match_iff)
qed

end
