(* ===== verification/Shebang.thy ===== *)
theory Shebang
  imports Regex
begin

text \<open>
  Interpreter-directive rewriting of one file (\<open>build.py\<close>,
  \<open>ModuleBuilder._fix_shebangs\<close>, lines 439--457, with \<open>is_binary\<close> and
  \<open>TEXT_CHARS\<close>, lines 52 and 558--560, and the two patterns of lines 310--317).
  \<open>readline\<close> is \<open>BufferedReader.readline(1024)\<close>; \<open>fix_shebang\<close> takes a
  file's bytes and returns \<open>Some\<close> of the bytes written back, or \<open>None\<close> when the loop
  \<open>continue\<close>s and leaves the file alone.
\<close>

subsection \<open>Binary detection\<close>

definition text_chars :: "nat list" where
  "text_chars = [7, 8, 9, 10, 12, 13, 27] @ removeAll 127 [32..<256]"

definition translate_delete :: "bytes \<Rightarrow> nat list \<Rightarrow> bytes" where
  "translate_delete data delete = filter (\<lambda>b. byte_val b \<notin> set delete) data"

definition is_binary :: "bytes \<Rightarrow> bool" where
  "is_binary data \<longleftrightarrow> translate_delete data text_chars \<noteq> []"

subsection \<open>Reading the first line\<close>

fun readline :: "nat \<Rightarrow> bytes \<Rightarrow> bytes" where
  "readline 0 s = []"
| "readline (Suc n) [] = []"
| "readline (Suc n) (c # s) = (if c = NL then [c] else c # readline n s)"

subsection \<open>The interpreter patterns\<close>

definition ws_class :: "char list" where
  "ws_class = [CHR '' '', CHR 0x09, CHR 0x0A, CHR 0x0B, CHR 0x0C, CHR 0x0D]"

definition digit_class :: "char list" where
  "digit_class = ''0123456789''"

text \<open>\<^verbatim>\<open>^#!\s*/(?:usr/(?:local/)?|)(?:bin|sbin)/(?:env\s+)?python[0-9]*(?:\.[0-9]+)*\<close>\<close>

definition python_shebang_re :: rx where
  "python_shebang_re = Cat
     [Str ''#!'', Star (Cls ws_class), Lit CHR ''/'',
      Alt (Cat [Str ''usr/'', Opt (Str ''local/'')]) Eps,
      Alt (Str ''bin'') (Str ''sbin''), Lit CHR ''/'',
      Opt (Cat [Str ''env'', Plus (Cls ws_class)]),
      Str ''python'', Star (Cls digit_class),
      Star (Cat [Lit CHR ''.'', Plus (Cls digit_class)])]"

text \<open>\<^verbatim>\<open>^#!\s*/(?:usr/(?:local/)?|)(?:bin|sbin)/(?:env\s+)?(?:sh|bash|dash)\<close>\<close>

definition shell_shebang_re :: rx where
  "shell_shebang_re = Cat
     [Str ''#!'', Star (Cls ws_class), Lit CHR ''/'',
      Alt (Cat [Str ''usr/'', Opt (Str ''local/'')]) Eps,
      Alt (Str ''bin'') (Str ''sbin''), Lit CHR ''/'',
      Opt (Cat [Str ''env'', Plus (Cls ws_class)]),
      Alt (Str ''sh'') (Alt (Str ''bash'') (Str ''dash''))]"

definition python_shebang :: bytes where
  "python_shebang = ''#!/system/bin/python3'' @ [NL]"

definition shell_shebang :: bytes where
  "shell_shebang = ''#!/system/bin/sh'' @ [NL]"

definition env_prefix :: "bytes \<Rightarrow> bool" where
  "env_prefix e \<longleftrightarrow> e = [] \<or> (\<exists>w. e = ''env'' @ w \<and> w \<noteq> [] \<and> set w \<subseteq> set ws_class)"

subsection \<open>Rewriting one file\<close>

definition fix_shebang :: "bytes \<Rightarrow> bytes option" where
  "fix_shebang content =
     (let line = readline 1024 content; rest = drop (length line) content in
      if is_binary line then None
      else if re_match shell_shebang_re line then Some (shell_shebang @ rest)
      else if re_match python_shebang_re line then Some (python_shebang @ rest)
      else None)"

lemma text_chars_iff:
  "byte_val b \<in> set text_chars \<longleftrightarrow>
     byte_val b \<in> {7, 8, 9, 10, 12, 13, 27} \<or> (32 \<le> byte_val b \<and> byte_val b \<noteq> 127)"
proof -
  have "set text_chars = {7, 8, 9, 10, 12, 13, 27} \<union> ({32..<256} - {127})"
    by (simp del: upt_rec_numeral add: text_chars_def)
  then show ?thesis using byte_val_less [of b] by auto
qed

lemma is_binary_iff:
  "is_binary data \<longleftrightarrow>
     (\<exists>b \<in> set data. byte_val b \<notin> {7, 8, 9, 10, 12, 13, 27} \<and> (byte_val b < 32 \<or> byte_val b = 127))"
  by (auto simp: is_binary_def translate_delete_def filter_empty_conv text_chars_iff not_le)

lemmas shebang_defs [model_eval] = byte_val_def is_binary_iff ws_class_def digit_class_def python_shebang_re_def shell_shebang_re_def
  python_shebang_def shell_shebang_def

lemma readline_numeral [model_eval]:
  "readline (numeral k) (c # s) = (if c = NL then [c] else c # readline (pred_numeral k) s)"
  by (simp add: numeral_eq_Suc)

lemma readline_numeral_Nil [model_eval]: "readline (numeral k) [] = []"
  by (simp add: numeral_eq_Suc)

subsection \<open>The line reader\<close>

lemma readline_prefix: "prefix (readline n s) s"
  by (induction n s rule: readline.induct) auto

lemma readline_split: "s = readline n s @ drop (length (readline n s)) s"
proof -
  from readline_prefix [of n s] obtain zs where "s = readline n s @ zs"
    by (auto simp: prefix_def)
  then show ?thesis by (metis append_eq_conv_conj)
qed

lemma readline_length: "length (readline n s) \<le> n"
  by (induction n s rule: readline.induct) auto

lemma readline_line:
  "NL \<notin> set u \<Longrightarrow> length u < n \<Longrightarrow> readline n (u @ NL # v) = u @ [NL]"
proof (induction n u rule: readline.induct)
  case (3 n c s)
  then show ?case by (cases n) auto
qed auto

subsection \<open>The patterns as languages\<close>

lemma in_lang_dir_prefix:
  "in_lang (Alt (Cat [Str ''usr/'', Opt (Str ''local/'')]) Eps) u \<longleftrightarrow> u \<in> {[], ''usr/'', ''usr/local/''}"
  by auto

lemma in_lang_env:
  "in_lang (Opt (Cat [Str ''env'', Plus (Cls ws_class)])) u \<longleftrightarrow> env_prefix u"
  by (auto simp: env_prefix_def)

lemma in_lang_shell:
  "in_lang shell_shebang_re u \<longleftrightarrow>
     (\<exists>w p b e x. u = ''#!'' @ w @ ''/'' @ p @ b @ ''/'' @ e @ x \<and> set w \<subseteq> set ws_class \<and>
        in_lang (Alt (Cat [Str ''usr/'', Opt (Str ''local/'')]) Eps) p \<and>
        in_lang (Alt (Str ''bin'') (Str ''sbin'')) b \<and>
        in_lang (Opt (Cat [Str ''env'', Plus (Cls ws_class)])) e \<and>
        in_lang (Alt (Str ''sh'') (Alt (Str ''bash'') (Str ''dash''))) x)"
  unfolding shell_shebang_re_def
  by (simp only: Cat.simps in_lang_Seq in_lang_Str in_lang_Lit in_lang_Eps in_lang_Star_Cls
      append_Nil2)
    (fastforce simp del: in_lang_Alt in_lang_Seq in_lang_Str)

text \<open>
  C6: the shell pattern matches exactly the lines that start with \<open>#!\<close>, optional
  whitespace, \<open>/\<close>, an optional \<open>usr/\<close> or \<open>usr/local/\<close>, \<open>bin\<close> or \<open>sbin\<close>,
  \<open>/\<close>, an optional \<open>env\<close> followed by whitespace, and \<open>sh\<close>, \<open>bash\<close> or \<open>dash\<close>,
  followed by anything.
\<close>

theorem shell_shebang_re_match:
  "re_match shell_shebang_re s \<longleftrightarrow>
     (\<exists>w p b e x t. s = ''#!'' @ w @ ''/'' @ p @ b @ ''/'' @ e @ x @ t \<and>
        set w \<subseteq> set ws_class \<and> p \<in> {[], ''usr/'', ''usr/local/''} \<and> b \<in> {''bin'', ''sbin''} \<and>
        env_prefix e \<and> x \<in> {''sh'', ''bash'', ''dash''})"
proof -
  have "re_match shell_shebang_re s \<longleftrightarrow>
     (\<exists>a t. s = (\<lambda>(w, p, b, e, x). ''#!'' @ w @ ''/'' @ p @ b @ ''/'' @ e @ x) a @ t \<and>
        (\<lambda>(w, p, b, e, x). set w \<subseteq> set ws_class \<and>
        in_lang (Alt (Cat [Str ''usr/'', Opt (Str ''local/'')]) Eps) p \<and>
        in_lang (Alt (Str ''bin'') (Str ''sbin'')) b \<and>
        in_lang (Opt (Cat [Str ''env'', Plus (Cls ws_class)])) e \<and>
        in_lang (Alt (Str ''sh'') (Alt (Str ''bash'') (Str ''dash''))) x) a)"
    by (rule re_match_lang) (simp only: in_lang_shell split_paired_Ex prod.case)
  then show ?thesis
    by (simp only: split_paired_Ex prod.case append_assoc in_lang_dir_prefix in_lang_env) simp
qed

lemma in_lang_python:
  "in_lang python_shebang_re u \<longleftrightarrow>
     (\<exists>w p b e d. u = ''#!'' @ w @ ''/'' @ p @ b @ ''/'' @ e @ ''python'' @ d \<and>
        set w \<subseteq> set ws_class \<and>
        in_lang (Alt (Cat [Str ''usr/'', Opt (Str ''local/'')]) Eps) p \<and>
        in_lang (Alt (Str ''bin'') (Str ''sbin'')) b \<and>
        in_lang (Opt (Cat [Str ''env'', Plus (Cls ws_class)])) e \<and>
        in_lang (Cat [Star (Cls digit_class), Star (Cat [Lit CHR ''.'', Plus (Cls digit_class)])]) d)"
  unfolding python_shebang_re_def
  by (simp only: Cat.simps in_lang_Seq in_lang_Str in_lang_Lit in_lang_Eps in_lang_Star_Cls
      append_Nil2)
    (fastforce simp del: in_lang_Alt in_lang_Seq in_lang_Str)

text \<open>
  C7: the Python pattern matches exactly the lines with the same directory prefix
  followed by \<open>python\<close> and anything: its version suffix never decides a match.
\<close>

theorem python_shebang_re_match:
  "re_match python_shebang_re s \<longleftrightarrow>
     (\<exists>w p b e t. s = ''#!'' @ w @ ''/'' @ p @ b @ ''/'' @ e @ ''python'' @ t \<and>
        set w \<subseteq> set ws_class \<and> p \<in> {[], ''usr/'', ''usr/local/''} \<and> b \<in> {''bin'', ''sbin''} \<and>
        env_prefix e)"
proof -
  have "re_match python_shebang_re s \<longleftrightarrow>
     (\<exists>a t. s = (\<lambda>(w, p, b, e). ''#!'' @ w @ ''/'' @ p @ b @ ''/'' @ e @ ''python'') a @ t \<and>
        (\<lambda>(w, p, b, e). set w \<subseteq> set ws_class \<and>
        in_lang (Alt (Cat [Str ''usr/'', Opt (Str ''local/'')]) Eps) p \<and>
        in_lang (Alt (Str ''bin'') (Str ''sbin'')) b \<and>
        in_lang (Opt (Cat [Str ''env'', Plus (Cls ws_class)])) e) a)"
  proof (rule re_match_lang_tail)
    show "in_lang (Cat [Star (Cls digit_class), Star (Cat [Lit CHR ''.'', Plus (Cls digit_class)])]) []"
      by (simp add: in_lang.star0)
  qed (simp only: in_lang_python split_paired_Ex prod.case append_assoc conj_assoc)
  then show ?thesis
    by (simp only: split_paired_Ex prod.case append_assoc in_lang_dir_prefix in_lang_env) simp
qed

subsection \<open>Rewriting one file: correctness\<close>

lemma readline_target [simp]:
  "readline 1024 (shell_shebang @ rest) = shell_shebang"
  "readline 1024 (python_shebang @ rest) = python_shebang"
  by (simp_all add: shell_shebang_def python_shebang_def readline_numeral)

lemma fix_shebang_first_line:
  assumes "readline 1024 c \<in> {shell_shebang, python_shebang}"
  shows "fix_shebang c = None"
proof -
  have s: "\<not> is_binary shell_shebang \<and> \<not> re_match shell_shebang_re shell_shebang \<and>
      \<not> re_match python_shebang_re shell_shebang"
    by (simp add: model_eval)
  have p: "\<not> is_binary python_shebang \<and> \<not> re_match shell_shebang_re python_shebang \<and>
      \<not> re_match python_shebang_re python_shebang"
    by (simp add: model_eval)
  from assms s p show ?thesis by (auto simp: fix_shebang_def Let_def)
qed

text \<open>
  A script that already starts with one of the two target directives is left
  untouched: the patterns require \<open>bin\<close> or \<open>sbin\<close> right below the root or below
  \<open>/usr\<close> or \<open>/usr/local\<close>, and \<open>/system/bin\<close> is neither.
\<close>

theorem fix_shebang_target:
  "fix_shebang (shell_shebang @ rest) = None \<and> fix_shebang (python_shebang @ rest) = None"
  unfolding fix_shebang_def by (simp add: model_eval)

lemma fix_shebang_Some:
  "fix_shebang c = Some c' \<Longrightarrow>
     c' \<in> {shell_shebang @ drop (length (readline 1024 c)) c,
            python_shebang @ drop (length (readline 1024 c)) c}"
  by (auto simp: fix_shebang_def Let_def split: if_splits)

text \<open>
  C1: when a script is rewritten, everything after its first line (as \<open>readline(1024)\<close>
  reads it) is kept byte for byte, and the first line is replaced by one of the two
  target directives.
\<close>

theorem fix_shebang_preserves_rest:
  assumes "fix_shebang c = Some c'"
  shows "\<exists>rest. c = readline 1024 c @ rest \<and> c' \<in> {shell_shebang @ rest, python_shebang @ rest}"
  using fix_shebang_Some [OF assms] readline_split [of c 1024] by blast

text \<open>
  C2: rewriting is idempotent: a script that was rewritten is left alone by a second
  run of the stage.
\<close>

theorem fix_shebang_idempotent:
  assumes "fix_shebang c = Some c'"
  shows "fix_shebang c' = None"
proof -
  have "fix_shebang (shell_shebang @ r) = None \<and> fix_shebang (python_shebang @ r) = None" for r
    unfolding fix_shebang_def by (simp add: model_eval)
  with fix_shebang_Some [OF assms] show ?thesis by auto
qed

text \<open>
  C4: binary detection gates the rewrite: a file whose first line contains a NUL byte
  (outside \<open>TEXT_CHARS\<close>) is never rewritten.
\<close>

theorem fix_shebang_nul_first_line:
  assumes "CHR 0x00 \<in> set (readline 1024 c)"
  shows "fix_shebang c = None"
proof -
  have "byte_val (CHR 0x00) = 0" by (simp add: byte_val_def)
  with assms have "is_binary (readline 1024 c)"
    unfolding is_binary_iff by force
  then show ?thesis by (simp add: fix_shebang_def)
qed

text \<open>
  C5: the binary check reads only the first line, not the first 1024 bytes: a file whose
  first line is a shell directive without control bytes is rewritten whatever follows,
  even when a NUL byte among its first 1024 bytes makes those bytes binary by the test
  the spec describes.
\<close>

theorem fix_shebang_binary_after_first_line:
  assumes "NL \<notin> set u" and "length u < 1024" and "re_match shell_shebang_re (u @ [NL])"
    and "\<not> is_binary (u @ [NL])"
  shows "fix_shebang (u @ NL # v) = Some (shell_shebang @ v) \<and>
         (CHR 0x00 \<in> set (take (1023 - length u) v) \<longrightarrow> is_binary (take 1024 (u @ NL # v)))"
proof
  have l: "readline 1024 (u @ NL # v) = u @ [NL]" using assms(1,2) by (rule readline_line)
  then show "fix_shebang (u @ NL # v) = Some (shell_shebang @ v)"
    using assms(3,4) by (simp add: fix_shebang_def Let_def)
  have "1024 - length u = Suc (1023 - length u)" using assms(2) by arith
  then have "take 1024 (u @ NL # v) = u @ NL # take (1023 - length u) v"
    using assms(2) by (simp only: take_append take_all less_imp_le take_Suc_Cons diff_zero)
  moreover have "byte_val (CHR 0x00) = 0" by (simp add: byte_val_def)
  ultimately show "CHR 0x00 \<in> set (take (1023 - length u) v) \<longrightarrow> is_binary (take 1024 (u @ NL # v))"
    unfolding is_binary_iff by force
qed

subsection \<open>Witnesses\<close>

theorem fix_shebang_preserves_rest_witness:
  "fix_shebang (''#!/usr/bin/env python3'' @ NL # ''x'') = Some (python_shebang @ ''x'') \<and>
   (\<exists>rest. ''#!/usr/bin/env python3'' @ NL # ''x'' =
       readline 1024 (''#!/usr/bin/env python3'' @ NL # ''x'') @ rest \<and>
     python_shebang @ ''x'' \<in> {shell_shebang @ rest, python_shebang @ rest})"
proof -
  have h: "fix_shebang (''#!/usr/bin/env python3'' @ NL # ''x'') = Some (python_shebang @ ''x'')"
    by (simp add: fix_shebang_def model_eval)
  show ?thesis using h fix_shebang_preserves_rest [OF h] by simp
qed

theorem fix_shebang_idempotent_witness:
  "fix_shebang (''#!/bin/bash'' @ NL # ''x'') = Some (shell_shebang @ ''x'') \<and>
   fix_shebang (shell_shebang @ ''x'') = None"
proof -
  have h: "fix_shebang (''#!/bin/bash'' @ NL # ''x'') = Some (shell_shebang @ ''x'')"
    by (simp add: fix_shebang_def model_eval)
  show ?thesis using h fix_shebang_idempotent [OF h] by simp
qed

theorem fix_shebang_nul_first_line_witness:
  "CHR 0x00 \<in> set (readline 1024 (''#!/bin/sh'' @ [CHR 0x00, NL])) \<and>
   fix_shebang (''#!/bin/sh'' @ [CHR 0x00, NL]) = None"
proof -
  have h: "CHR 0x00 \<in> set (readline 1024 (''#!/bin/sh'' @ [CHR 0x00, NL]))"
    by (simp add: model_eval)
  show ?thesis using h fix_shebang_nul_first_line [OF h] by simp
qed


theorem fix_shebang_binary_after_first_line_witness:
  "fix_shebang (''#!/bin/sh'' @ NL # [CHR 0x00]) = Some (shell_shebang @ [CHR 0x00]) \<and>
   is_binary (take 1024 (''#!/bin/sh'' @ NL # [CHR 0x00]))"
proof -
  have h: "NL \<notin> set ''#!/bin/sh''" "length ''#!/bin/sh'' < 1024"
    "re_match shell_shebang_re (''#!/bin/sh'' @ [NL])" "\<not> is_binary (''#!/bin/sh'' @ [NL])"
    by (simp_all add: model_eval)
  from fix_shebang_binary_after_first_line [OF h, of "[CHR 0x00]"] show ?thesis by simp
qed

end
