(* ===== verification/Prefix_FS.thy ===== *)
theory Prefix_FS
  imports Prelude
begin

text \<open>
  The install prefix of one host as the packaging stage sees it through
  \<open>pathlib\<close>: a list of entries, each a path relative to the prefix and what is there
  (a regular file with its bytes, a directory, or a symbolic link, of which only the kind
  of its target matters to \<open>is_file\<close> and \<open>is_dir\<close>).  The order of the list is the
  order in which a directory walk meets the entries.  \<open>Path.is_dir\<close> and
  \<open>Path.is_file\<close> follow links, \<open>Path.is_symlink\<close> does not.  \<open>shutil.rmtree\<close>
  removes an entry and everything below it, \<open>Path.unlink\<close> the entry alone.
  \<open>glob_loop\<close> is the shape every \<open>for path in prefix.glob(...)\<close> loop of
  \<open>build.py\<close> has: a walk over the entries present when the loop starts that yields the
  selected entries still present when the walk reaches them (a directory removed by the
  loop body is not descended into) and runs the body on each.
  \<open>wf_fs\<close> is the shape of a real tree: no path twice, no empty path, and every proper
  ancestor of an entry is a directory.  \<open>remove_sel\<close> is the abstract specification of a
  deleting loop: an entry disappears exactly when it or one of its ancestors is selected
  for deletion.
\<close>

datatype link_target = ToFile | ToDir | Dangling

datatype entry = File bytes | Dir | Symlink link_target

type_synonym fs = "(path \<times> entry) list"

fun is_dir :: "entry \<Rightarrow> bool" where
  "is_dir Dir = True"
| "is_dir (Symlink ToDir) = True"
| "is_dir _ = False"

fun is_file :: "entry \<Rightarrow> bool" where
  "is_file (File _) = True"
| "is_file (Symlink ToFile) = True"
| "is_file _ = False"

fun is_symlink :: "entry \<Rightarrow> bool" where
  "is_symlink (Symlink _) = True"
| "is_symlink _ = False"

definition rmtree :: "path \<Rightarrow> fs \<Rightarrow> fs" where
  "rmtree p fs = filter (\<lambda>(q, _). \<not> prefix p q) fs"

definition unlink :: "path \<Rightarrow> fs \<Rightarrow> fs" where
  "unlink p fs = filter (\<lambda>(q, _). q \<noteq> p) fs"

definition glob_loop :: "(path \<Rightarrow> bool) \<Rightarrow> (path \<Rightarrow> entry \<Rightarrow> fs \<Rightarrow> fs) \<Rightarrow> fs \<Rightarrow> fs" where
  "glob_loop sel body fs =
     fold (\<lambda>p fs. case map_of fs p of
                    None \<Rightarrow> fs
                  | Some e \<Rightarrow> if sel p then body p e fs else fs)
       (map fst fs) fs"

definition wf_fs :: "fs \<Rightarrow> bool" where
  "wf_fs fs \<longleftrightarrow> distinct (map fst fs) \<and>
     (\<forall>q \<in> set (map fst fs). q \<noteq> [] \<and>
        (\<forall>a \<in> set (prefixes q). a \<noteq> [] \<and> a \<noteq> q \<longrightarrow> map_of fs a = Some Dir))"

definition remove_sel :: "(path \<Rightarrow> entry \<Rightarrow> bool) \<Rightarrow> (path \<rightharpoonup> entry) \<Rightarrow> (path \<rightharpoonup> entry)" where
  "remove_sel P M q = (if \<exists>a e. prefix a q \<and> M a = Some e \<and> P a e then None else M q)"

text \<open>A body that deletes the entries of kind \<open>del\<close>, a directory with its subtree.\<close>

definition delete_if :: "(entry \<Rightarrow> bool) \<Rightarrow> path \<Rightarrow> entry \<Rightarrow> fs \<Rightarrow> fs" where
  "delete_if del p e fs = (if del e then (if e = Dir then rmtree p fs else unlink p fs) else fs)"

subsection \<open>Deletion on the map view\<close>

lemma map_of_rmtree [simp]: "map_of (rmtree p fs) q = (if prefix p q then None else map_of fs q)"
  by (simp add: rmtree_def)

lemma map_of_unlink [simp]: "map_of (unlink p fs) q = (if q = p then None else map_of fs q)"
  by (simp add: unlink_def)

lemma wf_fs_no_root: "wf_fs fs \<Longrightarrow> map_of fs [] = None"
  by (auto simp: wf_fs_def map_of_eq_None_iff image_iff)

lemma wf_fs_ancestor_Dir:
  assumes "wf_fs fs" and "map_of fs q = Some e" and "strict_prefix a q" and "map_of fs a \<noteq> None"
  shows "map_of fs a = Some Dir"
proof -
  from map_of_SomeD [OF assms(2)] have "q \<in> set (map fst fs)" by force
  moreover from assms(1,4) have "a \<noteq> []" by (auto simp: wf_fs_no_root)
  ultimately show ?thesis using assms(1,3) by (auto simp: wf_fs_def strict_prefix_def)
qed

text \<open>
  One step of the walk.  Before it, the entries removed are those below a visited,
  selected and deletable entry; after it, the visited list has grown by one path.
\<close>

lemma glob_step:
  assumes wf: "wf_fs fs0"
    and cur: "map_of fs = remove_sel (\<lambda>a e. a \<in> set V \<and> sel a \<and> del e) (map_of fs0)"
  shows "map_of (case map_of fs p of None \<Rightarrow> fs
                   | Some e \<Rightarrow> if sel p then delete_if del p e fs else fs) =
         remove_sel (\<lambda>a e. a \<in> set (V @ [p]) \<and> sel a \<and> del e) (map_of fs0)"
    (is "map_of ?step = remove_sel ?P' _")
proof (rule ext)
  fix q
  let ?P = "\<lambda>a e. a \<in> set V \<and> sel a \<and> del e"
  show "map_of ?step q = remove_sel ?P' (map_of fs0) q"
  proof (cases "map_of fs p")
    case None
    have "remove_sel ?P (map_of fs0) q = remove_sel ?P' (map_of fs0) q"
    proof (cases "\<exists>e. prefix p q \<and> map_of fs0 p = Some e \<and> sel p \<and> del e")
      case True
      then obtain e where pq: "prefix p q" and p0: "map_of fs0 p = Some e" by blast
      from None cur have "remove_sel ?P (map_of fs0) p = None" by simp
      with p0 obtain a e' where "prefix a p" "map_of fs0 a = Some e'" "?P a e'"
        by (auto simp: remove_sel_def split: if_splits)
      moreover from this(1) pq have "prefix a q" by (rule prefix_order.trans)
      ultimately show ?thesis by (auto simp: remove_sel_def)
    next
      case False
      then show ?thesis by (auto simp: remove_sel_def)
    qed
    with None cur show ?thesis by simp
  next
    case (Some e)
    with cur have p0: "map_of fs0 p = Some e" and
      notV: "\<not> (\<exists>a e'. prefix a p \<and> map_of fs0 a = Some e' \<and> ?P a e')"
      by (auto simp: remove_sel_def split: if_splits)
    show ?thesis
    proof (cases "sel p \<and> del e")
      case False
      with Some cur p0 show ?thesis by (auto simp: remove_sel_def delete_if_def)
    next
      case True
      have below: "map_of fs0 q = None" if "prefix p q" "q \<noteq> p" "e \<noteq> Dir"
      proof (rule ccontr)
        assume "map_of fs0 q \<noteq> None"
        then obtain e' where q0: "map_of fs0 q = Some e'" by blast
        from that(1,2) have "strict_prefix p q" by (simp add: strict_prefix_def)
        from wf_fs_ancestor_Dir [OF wf q0 this] p0 have "map_of fs0 p = Some Dir" by simp
        with p0 that(3) show False by simp
      qed
      from True Some cur p0 below show ?thesis
        by (cases "e = Dir") (auto simp: remove_sel_def delete_if_def)
    qed
  qed
qed

lemma glob_fold:
  assumes wf: "wf_fs fs0"
    and "map_of fs = remove_sel (\<lambda>a e. a \<in> set V \<and> sel a \<and> del e) (map_of fs0)"
  shows "map_of (fold (\<lambda>p fs. case map_of fs p of None \<Rightarrow> fs
                   | Some e \<Rightarrow> if sel p then delete_if del p e fs else fs) L fs) =
         remove_sel (\<lambda>a e. a \<in> set (V @ L) \<and> sel a \<and> del e) (map_of fs0)"
  using assms(2)
proof (induction L arbitrary: V fs)
  case (Cons p L)
  from Cons.IH [OF glob_step [OF wf Cons.prems]] show ?case by simp
qed simp

text \<open>The walk refines its specification: it deletes exactly the selected subtrees.\<close>

theorem glob_loop_delete:
  assumes "wf_fs fs"
  shows "map_of (glob_loop sel (delete_if del) fs) = remove_sel (\<lambda>a e. sel a \<and> del e) (map_of fs)"
proof -
  have start: "map_of fs = remove_sel (\<lambda>a e. a \<in> set [] \<and> sel a \<and> del e) (map_of fs)"
    by (simp add: remove_sel_def fun_eq_iff)
  have "remove_sel (\<lambda>a e. a \<in> set (map fst fs) \<and> sel a \<and> del e) (map_of fs) =
        remove_sel (\<lambda>a e. sel a \<and> del e) (map_of fs)"
    by (force simp: remove_sel_def fun_eq_iff dest: map_of_SomeD)
  with glob_fold [OF assms start, of "map fst fs"] show ?thesis
    by (simp add: glob_loop_def)
qed

lemma glob_loop_filter: "\<exists>P. glob_loop sel (delete_if del) fs = filter P fs"
  unfolding glob_loop_def
proof (rule fold_filter)
  fix p and fs' :: fs
  show "\<exists>Q. (case map_of fs' p of None \<Rightarrow> fs'
              | Some e \<Rightarrow> if sel p then delete_if del p e fs' else fs') = filter Q fs'"
    by (auto simp: delete_if_def rmtree_def unlink_def split: option.splits
        intro: exI [of _ "\<lambda>_. True"])
qed

lemma remove_sel_cong:
  "(\<And>a e. M a = Some e \<Longrightarrow> P a e = Q a e) \<Longrightarrow> M = M' \<Longrightarrow> remove_sel P M = remove_sel Q M'"
  by (auto simp: remove_sel_def fun_eq_iff)

lemma remove_sel_remove_sel:
  "remove_sel Q (remove_sel P M) = remove_sel (\<lambda>a e. P a e \<or> Q a e) M"
proof (rule ext)
  fix q
  show "remove_sel Q (remove_sel P M) q = remove_sel (\<lambda>a e. P a e \<or> Q a e) M q"
  proof (cases "\<exists>a e. prefix a q \<and> M a = Some e \<and> P a e")
    case True
    then show ?thesis by (auto simp: remove_sel_def)
  next
    case notP: False
    have "remove_sel P M a = M a" if "prefix a q" for a
      using notP that by (auto simp: remove_sel_def intro: prefix_order.trans)
    with notP show ?thesis by (auto simp: remove_sel_def)
  qed
qed

lemma wf_fs_remove_sel:
  assumes wf: "wf_fs fs" and dist: "distinct (map fst fs')" and sub: "set fs' \<subseteq> set fs"
    and eq: "map_of fs' = remove_sel S (map_of fs)"
  shows "wf_fs fs'"
  unfolding wf_fs_def
proof (intro conjI ballI impI)
  show "distinct (map fst fs')" by (rule dist)
next
  fix q assume q: "q \<in> set (map fst fs')"
  with sub wf show "q \<noteq> []" by (auto simp: wf_fs_def)
  fix a assume a: "a \<in> set (prefixes q)" "a \<noteq> [] \<and> a \<noteq> q"
  from q obtain e where "map_of fs' q = Some e" by (auto dest: weak_map_of_SomeI)
  with eq have qe: "map_of fs q = Some e" and
    keep: "\<not> (\<exists>a e. prefix a q \<and> map_of fs a = Some e \<and> S a e)"
    by (auto simp: remove_sel_def split: if_splits)
  from qe have "q \<in> set (map fst fs)" by (force dest: map_of_SomeD)
  with wf a have aD: "map_of fs a = Some Dir" by (auto simp: wf_fs_def)
  from a(1) keep have "\<not> (\<exists>a' e. prefix a' a \<and> map_of fs a' = Some e \<and> S a' e)"
    by (auto intro: prefix_order.trans)
  with eq aD show "map_of fs' a = Some Dir" by (simp add: remove_sel_def)
qed

lemma wf_fs_glob_loop: "wf_fs fs \<Longrightarrow> wf_fs (glob_loop sel (delete_if del) fs)"
proof -
  assume wf: "wf_fs fs"
  obtain P where P: "glob_loop sel (delete_if del) fs = filter P fs"
    using glob_loop_filter by blast
  from wf have "distinct (map fst (filter P fs))" by (auto simp: wf_fs_def)
  moreover have "set (filter P fs) \<subseteq> set fs" by auto
  ultimately show ?thesis
    using wf_fs_remove_sel [OF wf _ _ glob_loop_delete [OF wf]] P by metis
qed

text \<open>Deleting loops run one after another delete what their selections together select.\<close>

lemma fold_remove_sel:
  assumes step: "\<And>x fs. wf_fs fs \<Longrightarrow> map_of (F x fs) = remove_sel (R x) (map_of fs) \<and> wf_fs (F x fs)"
    and "wf_fs fs"
  shows "map_of (fold F xs fs) = remove_sel (\<lambda>a e. \<exists>x \<in> set xs. R x a e) (map_of fs) \<and>
         wf_fs (fold F xs fs)"
  using assms(2)
proof (induction xs arbitrary: fs)
  case Nil
  then show ?case by (simp add: remove_sel_def fun_eq_iff)
next
  case (Cons x xs)
  from step [OF Cons.prems] have "map_of (F x fs) = remove_sel (R x) (map_of fs)" and "wf_fs (F x fs)"
    by auto
  with Cons.IH [OF this(2)] show ?case
    by (auto simp: remove_sel_remove_sel intro!: arg_cong2 [where f = remove_sel])
qed

lemma glob_loops_delete:
  assumes "wf_fs fs"
  shows "map_of (fold (\<lambda>x. glob_loop (S x) (delete_if (D x))) xs fs) =
           remove_sel (\<lambda>a e. \<exists>x \<in> set xs. S x a \<and> D x e) (map_of fs) \<and>
         wf_fs (fold (\<lambda>x. glob_loop (S x) (delete_if (D x))) xs fs)"
  by (rule fold_remove_sel [OF _ assms]) (simp add: glob_loop_delete wf_fs_glob_loop)

lemma glob_loops_filter:
  "\<exists>P. fold (\<lambda>x. glob_loop (S x) (delete_if (D x))) xs fs = filter P fs"
  by (rule fold_filter) (rule glob_loop_filter)

end
