(* ===== verification/Debloat.thy ===== *)
theory Debloat
  imports Prefix_FS
begin

text \<open>
  \<open>ModuleBuilder._debloat\<close> (\<open>build.py\<close>, lines 388--427).  A rule of
  \<open>debloat_patterns\<close> is a bare glob pattern or a table with a pattern and the list
  \<open>rm_if\<close> of the kinds (\<open>file\<close>, \<open>dir\<close>, \<open>symlink\<close>) it may delete.  The bare
  patterns go to one \<open>prefix.glob(patterns)\<close> call; each conditional rule gets its own
  \<open>prefix.glob(pattern)\<close> call.
  wcmatch is a library: its matching of one pattern against a path is the parameter
  \<open>m :: matcher\<close> (so every lemma holds for any matcher), and its treatment of a list of
  patterns under \<open>NEGATE\<close> (the patterns starting with \<open>!\<close> exclude what they match
  from the results of the others, which are walked one after another) is
  \<open>glob_delete\<close>, modelled from its documentation.
\<close>

datatype debloat_rule = Pattern string | Conditional string "string list"

type_synonym matcher = "string \<Rightarrow> path \<Rightarrow> bool"

record rm_flags =
  rm_file :: bool
  rm_dir :: bool
  rm_symlink :: bool

text \<open>With \<open>NEGATE\<close> a pattern starting with \<open>!\<close> excludes what the rest matches,
  except that with \<open>EXTGLOB\<close>, which \<open>debloat_flags\<close> sets, a pattern starting with
  \<open>!(\<close> is an extended glob, not a negation.  (The strip stage's flags lack \<open>EXTGLOB\<close>;
  its fixed patterns start with neither.)\<close>

definition is_negated :: "string \<Rightarrow> bool" where
  "is_negated pat \<longleftrightarrow> take 1 pat = ''!'' \<and> take 2 pat \<noteq> ''!(''"

definition glob_selects :: "matcher \<Rightarrow> string list \<Rightarrow> string \<Rightarrow> path \<Rightarrow> bool" where
  "glob_selects m pats pat p \<longleftrightarrow> m pat p \<and> \<not> (\<exists>n \<in> set pats. is_negated n \<and> m (drop 1 n) p)"

definition glob_delete :: "matcher \<Rightarrow> string list \<Rightarrow> (path \<Rightarrow> entry \<Rightarrow> fs \<Rightarrow> fs) \<Rightarrow> fs \<Rightarrow> fs" where
  "glob_delete m pats body fs =
     fold (\<lambda>pat. glob_loop (glob_selects m pats pat) body) (filter (\<lambda>p. \<not> is_negated p) pats) fs"

fun split_rules :: "debloat_rule list \<Rightarrow> string list \<times> (string \<times> string list) list" where
  "split_rules [] = ([], [])"
| "split_rules (Pattern p # rs) = (case split_rules rs of (ps, cs) \<Rightarrow> (p # ps, cs))"
| "split_rules (Conditional p r # rs) = (case split_rules rs of (ps, cs) \<Rightarrow> (ps, (p, r) # cs))"

definition rm_entry :: "path \<Rightarrow> entry \<Rightarrow> fs \<Rightarrow> fs" where
  "rm_entry p e fs = (if is_dir e \<and> \<not> is_symlink e then rmtree p fs else unlink p fs)"

definition lower_char :: "char \<Rightarrow> char" where
  "lower_char c = (let n = (of_char c :: nat) in if 65 \<le> n \<and> n \<le> 90 then char_of (n + 32) else c)"

definition rm_flags_of :: "string list \<Rightarrow> rm_flags" where
  "rm_flags_of rm_if =
     (let rm_if = set (map (map lower_char) rm_if) in
      \<lparr>rm_file = ''file'' \<in> rm_if, rm_dir = ''dir'' \<in> rm_if, rm_symlink = ''symlink'' \<in> rm_if\<rparr>)"

definition cond_rm :: "rm_flags \<Rightarrow> path \<Rightarrow> entry \<Rightarrow> fs \<Rightarrow> fs" where
  "cond_rm f p e fs =
     (if (is_dir e \<and> \<not> is_symlink e) \<and> rm_dir f then rmtree p fs
      else if (is_symlink e \<and> rm_symlink f) \<or> (is_file e \<and> rm_file f) then unlink p fs
      else fs)"

definition debloat :: "matcher \<Rightarrow> debloat_rule list \<Rightarrow> fs \<Rightarrow> fs" where
  "debloat m rules fs =
     (case split_rules rules of (patterns, conditional_patterns) \<Rightarrow>
        fold (\<lambda>(pat, rm_if). glob_delete m [pat] (cond_rm (rm_flags_of rm_if)))
          conditional_patterns (glob_delete m patterns rm_entry fs))"

text \<open>
  What a conditional rule may delete, by the kind of the matched entry: a directory
  (not a link) when \<open>dir\<close> is listed, a link when \<open>symlink\<close> is listed, and anything
  \<open>Path.is_file\<close> holds for (a regular file, or a link to one) when \<open>file\<close> is listed.
\<close>

definition kind_ok :: "rm_flags \<Rightarrow> entry \<Rightarrow> bool" where
  "kind_ok f e \<longleftrightarrow> (e = Dir \<and> rm_dir f) \<or> (is_symlink e \<and> rm_symlink f) \<or> (is_file e \<and> rm_file f)"

text \<open>The entries the whole stage selects for deletion, as one predicate.\<close>

definition debloat_sel :: "matcher \<Rightarrow> debloat_rule list \<Rightarrow> path \<Rightarrow> entry \<Rightarrow> bool" where
  "debloat_sel m rules a e \<longleftrightarrow>
     (case split_rules rules of (patterns, conditional_patterns) \<Rightarrow>
        (\<exists>pat \<in> set patterns. \<not> is_negated pat \<and> glob_selects m patterns pat a) \<or>
        (\<exists>(pat, rm_if) \<in> set conditional_patterns.
            \<not> is_negated pat \<and> m pat a \<and> kind_ok (rm_flags_of rm_if) e))"

lemmas debloat_eval [model_eval] = debloat_def glob_delete_def glob_loop_def glob_selects_def
  is_negated_def cond_rm_def rm_entry_def rm_flags_of_def lower_char_def delete_if_def
  rmtree_def unlink_def

subsection \<open>The loop bodies delete by kind\<close>

lemma dir_not_symlink_iff: "is_dir e \<and> \<not> is_symlink e \<longleftrightarrow> e = Dir"
  by (cases e rule: is_dir.cases) auto

lemma rm_entry_delete_if: "rm_entry = delete_if (\<lambda>_. True)"
  by (simp add: fun_eq_iff rm_entry_def delete_if_def dir_not_symlink_iff)

lemma cond_rm_delete_if: "cond_rm f = delete_if (kind_ok f)"
  by (auto simp: fun_eq_iff cond_rm_def delete_if_def kind_ok_def dir_not_symlink_iff)

lemma glob_delete_spec:
  assumes "wf_fs fs"
  shows "map_of (glob_delete m pats (delete_if D) fs) =
           remove_sel (\<lambda>a e. (\<exists>pat \<in> set pats. \<not> is_negated pat \<and> glob_selects m pats pat a) \<and> D e)
             (map_of fs) \<and>
         wf_fs (glob_delete m pats (delete_if D) fs)"
proof -
  have "map_of (glob_delete m pats (delete_if D) fs) =
          remove_sel (\<lambda>a e. \<exists>pat \<in> set (filter (\<lambda>p. \<not> is_negated p) pats).
             glob_selects m pats pat a \<and> D e) (map_of fs) \<and>
        wf_fs (glob_delete m pats (delete_if D) fs)"
    unfolding glob_delete_def by (rule glob_loops_delete [OF assms])
  moreover have "(\<lambda>a e. \<exists>pat \<in> set (filter (\<lambda>p. \<not> is_negated p) pats). glob_selects m pats pat a \<and> D e) =
      (\<lambda>a e. (\<exists>pat \<in> set pats. \<not> is_negated pat \<and> glob_selects m pats pat a) \<and> D e)"
    by auto
  ultimately show ?thesis by simp
qed

subsection \<open>The stage refines its specification\<close>

lemma debloat_spec:
  assumes wf: "wf_fs fs"
  shows "map_of (debloat m rules fs) = remove_sel (debloat_sel m rules) (map_of fs) \<and>
         wf_fs (debloat m rules fs)"
proof -
  obtain patterns conds where sr: "split_rules rules = (patterns, conds)" by fastforce
  let ?S = "\<lambda>a e. (\<exists>pat \<in> set patterns. \<not> is_negated pat \<and> glob_selects m patterns pat a) \<and> True"
  let ?fs1 = "glob_delete m patterns (delete_if (\<lambda>_. True)) fs"
  let ?F = "\<lambda>(pat, rm_if). glob_delete m [pat] (cond_rm (rm_flags_of rm_if))"
  let ?R = "\<lambda>(pat, rm_if) a e. (\<exists>p \<in> set [pat]. \<not> is_negated p \<and> glob_selects m [pat] p a) \<and>
             kind_ok (rm_flags_of rm_if) e"
  from glob_delete_spec [OF wf] have 1: "map_of ?fs1 = remove_sel ?S (map_of fs)"
    and wf1: "wf_fs ?fs1" by blast+
  have 2: "map_of (fold ?F conds ?fs1) = remove_sel (\<lambda>a e. \<exists>x \<in> set conds. ?R x a e) (map_of ?fs1) \<and>
      wf_fs (fold ?F conds ?fs1)"
    by (rule fold_remove_sel [OF _ wf1])
      (auto simp: cond_rm_delete_if glob_delete_spec split: prod.splits)
  have 3: "debloat m rules fs = fold ?F conds ?fs1"
    by (simp add: debloat_def sr rm_entry_delete_if)
  have 4: "(\<lambda>a e. ?S a e \<or> (\<exists>x \<in> set conds. ?R x a e)) = debloat_sel m rules"
    by (auto simp: debloat_sel_def sr glob_selects_def fun_eq_iff)
  from 1 2 3 4 show ?thesis by (simp add: remove_sel_remove_sel)
qed

text \<open>
  C8: debloating refines its specification: on a well-formed prefix, an entry is gone
  afterwards exactly when it or one of its ancestors is selected by a rule (by a bare
  pattern not excluded by a negated one, or by a conditional pattern whose kinds admit
  the entry).  The walk order and the deletion of directories during the walk do not
  change the outcome.
\<close>

theorem debloat_refines:
  assumes "wf_fs fs"
  shows "map_of (debloat m rules fs) = remove_sel (debloat_sel m rules) (map_of fs)"
  using debloat_spec [OF assms] by blast

text \<open>C9: debloating keeps the prefix a well-formed tree.\<close>

theorem debloat_preserves_wf:
  assumes "wf_fs fs"
  shows "wf_fs (debloat m rules fs)"
  using debloat_spec [OF assms] by blast

lemma glob_delete_filter: "\<exists>P. glob_delete m pats (delete_if D) fs = filter P fs"
  unfolding glob_delete_def by (rule glob_loops_filter)

lemma debloat_filter: "\<exists>P. debloat m rules fs = filter P fs"
proof -
  obtain patterns conds where sr: "split_rules rules = (patterns, conds)" by fastforce
  obtain Q where Q: "glob_delete m patterns rm_entry fs = filter Q fs"
    using glob_delete_filter [of m patterns "\<lambda>_. True"] by (auto simp: rm_entry_delete_if)
  have "\<exists>P. fold (\<lambda>(pat, rm_if). glob_delete m [pat] (cond_rm (rm_flags_of rm_if))) conds ys =
      filter P ys" for ys
    by (rule fold_filter) (auto simp: cond_rm_delete_if glob_delete_filter split: prod.splits)
  then obtain P where "fold (\<lambda>(pat, rm_if). glob_delete m [pat] (cond_rm (rm_flags_of rm_if))) conds
      (filter Q fs) = filter P (filter Q fs)" by blast
  with Q show ?thesis by (auto simp: debloat_def sr)
qed

text \<open>
  C10: debloating is idempotent: running the stage again with the same rules on its
  result changes nothing.
\<close>

theorem debloat_idempotent:
  assumes "wf_fs fs"
  shows "debloat m rules (debloat m rules fs) = debloat m rules fs"
proof -
  let ?fs1 = "debloat m rules fs"
  from debloat_spec [OF assms] have 1: "map_of ?fs1 = remove_sel (debloat_sel m rules) (map_of fs)"
    and wf1: "wf_fs ?fs1" by blast+
  from debloat_spec [OF wf1] 1 have "map_of (debloat m rules ?fs1) = map_of ?fs1"
    by (simp add: remove_sel_remove_sel)
  moreover obtain P where "debloat m rules ?fs1 = filter P ?fs1" using debloat_filter by blast
  moreover from wf1 have "distinct (map fst ?fs1)" by (simp add: wf_fs_def)
  ultimately show ?thesis using filter_map_of_eq by metis
qed

text \<open>
  C11: a conditional rule deletes a matched entry only if its kind is admitted
  (\<open>kind_ok\<close>); any other entry it removes lies below a matched directory that the rule
  may delete as a directory.
\<close>

theorem debloat_conditional_kinds:
  assumes wf: "wf_fs fs" and q: "map_of fs q = Some e"
    and gone: "map_of (debloat m [Conditional pat rm_if] fs) q = None"
  shows "\<not> is_negated pat \<and>
         (m pat q \<and> kind_ok (rm_flags_of rm_if) e \<or>
          (\<exists>a. strict_prefix a q \<and> m pat a \<and> map_of fs a = Some Dir \<and> rm_dir (rm_flags_of rm_if)))"
proof -
  from debloat_spec [OF wf] gone q obtain a e' where
    a: "prefix a q" "map_of fs a = Some e'" and sel: "debloat_sel m [Conditional pat rm_if] a e'"
    by (auto simp: remove_sel_def split: if_splits)
  from sel have sel': "\<not> is_negated pat \<and> m pat a \<and> kind_ok (rm_flags_of rm_if) e'"
    by (simp add: debloat_sel_def)
  show ?thesis
  proof (cases "a = q")
    case True
    with a q sel' show ?thesis by simp
  next
    case False
    with a have sp: "strict_prefix a q" by (simp add: strict_prefix_def)
    from wf_fs_ancestor_Dir [OF wf q sp] a have "e' = Dir" by simp
    with sel' sp a show ?thesis by (auto simp: kind_ok_def)
  qed
qed

text \<open>
  A conditional rule listing only \<open>file\<close> deletes a symbolic link to a regular file,
  because \<open>Path.is_file\<close> follows links: the spec's guarantee that a conditional rule
  never deletes an entry whose kind (here: symlink) is absent from its set does not hold.
\<close>

theorem debloat_file_rule_deletes_symlink:
  "debloat (\<lambda>pat p. p = [''lib'', ''libfoo.so'']) [Conditional ''lib/*.so'' [''file'']]
     [([''lib''], Dir), ([''lib'', ''libfoo.so''], Symlink ToFile)] = [([''lib''], Dir)]"
  by (simp add: model_eval)

subsection \<open>Witnesses\<close>

text \<open>
  The spec's example prefix: \<open>share/\<close> with a manual page, a static and a shared
  library in \<open>lib/\<close>; rules \<open>share/**\<close> and \<open>{pattern = "lib/*.a", rm_if = ["file"]}\<close>.
\<close>

theorem debloat_refines_witness:
  "wf_fs [([''share''], Dir), ([''share'', ''man''], Dir), ([''share'', ''man'', ''python.1''], File []), ([''lib''], Dir), ([''lib'', ''libpython.a''], File []), ([''lib'', ''libpython.so''], File [])] \<and>
   map_of (debloat (\<lambda>pat p. pat = ''share/**'' \<and> take 1 p = [''share''] \<or> pat = ''lib/*.a'' \<and> p = [''lib'', ''libpython.a'']) [Pattern ''share/**'', Conditional ''lib/*.a'' [''file'']] [([''share''], Dir), ([''share'', ''man''], Dir), ([''share'', ''man'', ''python.1''], File []), ([''lib''], Dir), ([''lib'', ''libpython.a''], File []), ([''lib'', ''libpython.so''], File [])]) =
     remove_sel (debloat_sel (\<lambda>pat p. pat = ''share/**'' \<and> take 1 p = [''share''] \<or> pat = ''lib/*.a'' \<and> p = [''lib'', ''libpython.a'']) [Pattern ''share/**'', Conditional ''lib/*.a'' [''file'']]) (map_of [([''share''], Dir), ([''share'', ''man''], Dir), ([''share'', ''man'', ''python.1''], File []), ([''lib''], Dir), ([''lib'', ''libpython.a''], File []), ([''lib'', ''libpython.so''], File [])])"
proof -
  have h: "wf_fs [([''share''], Dir), ([''share'', ''man''], Dir), ([''share'', ''man'', ''python.1''], File []), ([''lib''], Dir), ([''lib'', ''libpython.a''], File []), ([''lib'', ''libpython.so''], File [])]" by (simp add: wf_fs_def)
  show ?thesis by (rule conjI [OF h debloat_refines [OF h]])
qed

theorem debloat_preserves_wf_witness:
  "wf_fs [([''share''], Dir), ([''share'', ''man''], Dir), ([''share'', ''man'', ''python.1''], File []), ([''lib''], Dir), ([''lib'', ''libpython.a''], File []), ([''lib'', ''libpython.so''], File [])] \<and> wf_fs (debloat (\<lambda>pat p. pat = ''share/**'' \<and> take 1 p = [''share''] \<or> pat = ''lib/*.a'' \<and> p = [''lib'', ''libpython.a'']) [Pattern ''share/**'', Conditional ''lib/*.a'' [''file'']] [([''share''], Dir), ([''share'', ''man''], Dir), ([''share'', ''man'', ''python.1''], File []), ([''lib''], Dir), ([''lib'', ''libpython.a''], File []), ([''lib'', ''libpython.so''], File [])])"
proof -
  have h: "wf_fs [([''share''], Dir), ([''share'', ''man''], Dir), ([''share'', ''man'', ''python.1''], File []), ([''lib''], Dir), ([''lib'', ''libpython.a''], File []), ([''lib'', ''libpython.so''], File [])]" by (simp add: wf_fs_def)
  show ?thesis by (rule conjI [OF h debloat_preserves_wf [OF h]])
qed

theorem debloat_idempotent_witness:
  "wf_fs [([''share''], Dir), ([''share'', ''man''], Dir), ([''share'', ''man'', ''python.1''], File []), ([''lib''], Dir), ([''lib'', ''libpython.a''], File []), ([''lib'', ''libpython.so''], File [])] \<and>
   debloat (\<lambda>pat p. pat = ''share/**'' \<and> take 1 p = [''share''] \<or> pat = ''lib/*.a'' \<and> p = [''lib'', ''libpython.a'']) [Pattern ''share/**'', Conditional ''lib/*.a'' [''file'']] (debloat (\<lambda>pat p. pat = ''share/**'' \<and> take 1 p = [''share''] \<or> pat = ''lib/*.a'' \<and> p = [''lib'', ''libpython.a'']) [Pattern ''share/**'', Conditional ''lib/*.a'' [''file'']] [([''share''], Dir), ([''share'', ''man''], Dir), ([''share'', ''man'', ''python.1''], File []), ([''lib''], Dir), ([''lib'', ''libpython.a''], File []), ([''lib'', ''libpython.so''], File [])]) = debloat (\<lambda>pat p. pat = ''share/**'' \<and> take 1 p = [''share''] \<or> pat = ''lib/*.a'' \<and> p = [''lib'', ''libpython.a'']) [Pattern ''share/**'', Conditional ''lib/*.a'' [''file'']] [([''share''], Dir), ([''share'', ''man''], Dir), ([''share'', ''man'', ''python.1''], File []), ([''lib''], Dir), ([''lib'', ''libpython.a''], File []), ([''lib'', ''libpython.so''], File [])]"
proof -
  have h: "wf_fs [([''share''], Dir), ([''share'', ''man''], Dir), ([''share'', ''man'', ''python.1''], File []), ([''lib''], Dir), ([''lib'', ''libpython.a''], File []), ([''lib'', ''libpython.so''], File [])]" by (simp add: wf_fs_def)
  show ?thesis by (rule conjI [OF h debloat_idempotent [OF h]])
qed

theorem debloat_conditional_kinds_witness:
  "wf_fs [([''share''], Dir), ([''share'', ''man''], Dir), ([''share'', ''man'', ''python.1''], File []), ([''lib''], Dir), ([''lib'', ''libpython.a''], File []), ([''lib'', ''libpython.so''], File [])] \<and> map_of [([''share''], Dir), ([''share'', ''man''], Dir), ([''share'', ''man'', ''python.1''], File []), ([''lib''], Dir), ([''lib'', ''libpython.a''], File []), ([''lib'', ''libpython.so''], File [])] [''lib'', ''libpython.a''] = Some (File []) \<and>
   map_of (debloat (\<lambda>pat p. pat = ''share/**'' \<and> take 1 p = [''share''] \<or> pat = ''lib/*.a'' \<and> p = [''lib'', ''libpython.a'']) [Conditional ''lib/*.a'' [''file'']] [([''share''], Dir), ([''share'', ''man''], Dir), ([''share'', ''man'', ''python.1''], File []), ([''lib''], Dir), ([''lib'', ''libpython.a''], File []), ([''lib'', ''libpython.so''], File [])]) [''lib'', ''libpython.a''] = None \<and>
   \<not> is_negated ''lib/*.a'' \<and> ((\<lambda>pat p. pat = ''share/**'' \<and> take 1 p = [''share''] \<or> pat = ''lib/*.a'' \<and> p = [''lib'', ''libpython.a'']) ''lib/*.a'' [''lib'', ''libpython.a''] \<and> kind_ok (rm_flags_of [''file'']) (File []) \<or>
     (\<exists>a. strict_prefix a [''lib'', ''libpython.a''] \<and> (\<lambda>pat p. pat = ''share/**'' \<and> take 1 p = [''share''] \<or> pat = ''lib/*.a'' \<and> p = [''lib'', ''libpython.a'']) ''lib/*.a'' a \<and> map_of [([''share''], Dir), ([''share'', ''man''], Dir), ([''share'', ''man'', ''python.1''], File []), ([''lib''], Dir), ([''lib'', ''libpython.a''], File []), ([''lib'', ''libpython.so''], File [])] a = Some Dir \<and>
          rm_dir (rm_flags_of [''file''])))"
proof -
  have h1: "wf_fs [([''share''], Dir), ([''share'', ''man''], Dir), ([''share'', ''man'', ''python.1''], File []), ([''lib''], Dir), ([''lib'', ''libpython.a''], File []), ([''lib'', ''libpython.so''], File [])]" by (simp add: wf_fs_def)
  have h2: "map_of [([''share''], Dir), ([''share'', ''man''], Dir), ([''share'', ''man'', ''python.1''], File []), ([''lib''], Dir), ([''lib'', ''libpython.a''], File []), ([''lib'', ''libpython.so''], File [])] [''lib'', ''libpython.a''] = Some (File [])" by simp
  have h3: "map_of (debloat (\<lambda>pat p. pat = ''share/**'' \<and> take 1 p = [''share''] \<or> pat = ''lib/*.a'' \<and> p = [''lib'', ''libpython.a'']) [Conditional ''lib/*.a'' [''file'']] [([''share''], Dir), ([''share'', ''man''], Dir), ([''share'', ''man'', ''python.1''], File []), ([''lib''], Dir), ([''lib'', ''libpython.a''], File []), ([''lib'', ''libpython.so''], File [])]) [''lib'', ''libpython.a''] = None"
    by (simp add: model_eval)
  show ?thesis using h1 h2 h3 debloat_conditional_kinds [OF h1 h2 h3] by blast
qed

end
