(* ===== verification/ModuleProp.thy ===== *)
theory ModuleProp
  imports Prelude
begin

text \<open>
  \<open>module.prop\<close> handling (\<open>build.py\<close>: \<open>parse_module_prop\<close>, lines 563--577, and
  \<open>format_module_prop\<close>, lines 580--587).  The file is read in text mode: universal
  newlines turn \<open>\r\n\<close> and \<open>\r\<close> into \<open>\n\<close>, and iterating the file yields the lines
  with their terminator (\<open>text_lines\<close>).  Each line is \<open>str.strip\<close>ped, comment lines
  are skipped, and \<open>str.partition("=")\<close> splits key and value.  The dictionary keeps
  insertion order and an assignment to a present key keeps its position: it is an
  association list updated by \<open>AList.update\<close>.  Characters stand for code points
  below 256; \<open>py_isspace\<close> is \<open>str.isspace\<close> on them.
\<close>

type_synonym props = "(string \<times> string) list"

abbreviation CR :: char where
  "CR \<equiv> CHR 0x0D"

fun translate_newlines :: "string \<Rightarrow> string" where
  "translate_newlines [] = []"
| "translate_newlines [c] = [if c = CR then NL else c]"
| "translate_newlines (c # d # s) =
     (if c = CR \<and> d = NL then NL # translate_newlines s
      else (if c = CR then NL else c) # translate_newlines (d # s))"

function text_lines :: "string \<Rightarrow> string list" where
  "text_lines s =
     (if s = [] then []
      else (let l = takeWhile (\<lambda>c. c \<noteq> NL) s; r = dropWhile (\<lambda>c. c \<noteq> NL) s in
            if r = [] then [l] else (l @ [NL]) # text_lines (tl r)))"
  by pat_completeness auto
termination
proof (relation "measure length")
  fix s l r
  assume "s \<noteq> []" and "l = takeWhile (\<lambda>c. c \<noteq> NL) s" and r: "r = dropWhile (\<lambda>c. c \<noteq> NL) s"
    and "r \<noteq> []"
  have "length r \<le> length s" using r by (simp add: length_dropWhile_le)
  with \<open>r \<noteq> []\<close> show "(tl r, s) \<in> measure length" by (cases r) auto
qed simp

definition py_isspace :: "char \<Rightarrow> bool" where
  "py_isspace c \<longleftrightarrow> (let n = (of_char c :: nat) in (9 \<le> n \<and> n \<le> 13) \<or> (28 \<le> n \<and> n \<le> 32) \<or> n = 133 \<or> n = 160)"

definition py_strip :: "string \<Rightarrow> string" where
  "py_strip s = rev (dropWhile py_isspace (rev (dropWhile py_isspace s)))"

definition startswith :: "string \<Rightarrow> string \<Rightarrow> bool" where
  "startswith s p \<longleftrightarrow> take (length p) s = p"

definition partition :: "string \<Rightarrow> char \<Rightarrow> string \<times> string \<times> string" where
  "partition s sep =
     (let k = takeWhile (\<lambda>c. c \<noteq> sep) s in
      if sep \<in> set s then (k, [sep], drop (Suc (length k)) s) else (s, [], []))"

definition parse_module_prop :: "string \<Rightarrow> props" where
  "parse_module_prop text =
     fold (\<lambda>line props.
             let new_line = py_strip line in
             if startswith new_line ''#'' then props
             else (case partition new_line (CHR ''='') of (k, _, v) \<Rightarrow> AList.update k v props))
       (text_lines (translate_newlines text)) []"

definition format_module_prop :: "props \<Rightarrow> string" where
  "format_module_prop props = concat (map (\<lambda>(k, v). k @ ''='' @ v @ [NL]) props)"

text \<open>
  A key and value that \<open>format_module_prop\<close> writes as a line that
  \<open>parse_module_prop\<close> reads back as the same pair: no line break or carriage return,
  no \<open>=\<close> in the key, no whitespace that \<open>strip\<close> would remove, no leading \<open>#\<close>.
\<close>

definition prop_ok :: "string \<times> string \<Rightarrow> bool" where
  "prop_ok kv \<longleftrightarrow> (case kv of (k, v) \<Rightarrow>
     NL \<notin> set k \<and> NL \<notin> set v \<and> CR \<notin> set k \<and> CR \<notin> set v \<and> CHR ''='' \<notin> set k \<and>
     py_strip (k @ ''='' @ v) = k @ ''='' @ v \<and> \<not> startswith k ''#'')"

declare text_lines.simps [simp del]

lemmas module_prop_eval [model_eval] = text_lines.simps py_strip_def py_isspace_def startswith_def
  partition_def parse_module_prop_def format_module_prop_def

subsection \<open>Reading back what was written\<close>

lemma translate_newlines_id: "CR \<notin> set s \<Longrightarrow> translate_newlines s = s"
  by (induction s rule: translate_newlines.induct) auto

lemma text_lines_line:
  "NL \<notin> set l \<Longrightarrow> text_lines (l @ NL # rest) = (l @ [NL]) # text_lines rest"
proof -
  assume l: "NL \<notin> set l"
  then have "takeWhile (\<lambda>c. c \<noteq> NL) (l @ NL # rest) = l"
    and "dropWhile (\<lambda>c. c \<noteq> NL) (l @ NL # rest) = NL # rest"
    by simp_all
  then show ?thesis by (subst text_lines.simps) simp
qed

lemma py_strip_snoc_space: "py_isspace c \<Longrightarrow> py_strip (s @ [c]) = py_strip s"
proof (cases "\<forall>x \<in> set s. py_isspace x")
  case True
  assume "py_isspace c"
  with True have "dropWhile py_isspace (s @ [c]) = []" and "dropWhile py_isspace s = []"
    by simp_all
  then show ?thesis by (simp add: py_strip_def)
next
  case False
  assume c: "py_isspace c"
  from False have "dropWhile py_isspace (s @ [c]) = dropWhile py_isspace s @ [c]"
    by (simp add: dropWhile_append)
  with c show ?thesis by (simp add: py_strip_def)
qed

lemma partition_eq:
  "CHR ''='' \<notin> set k \<Longrightarrow> partition (k @ CHR ''='' # v) (CHR ''='') = (k, ''='', v)"
  by (simp add: partition_def)

lemma update_new_key: "k \<notin> fst ` set al \<Longrightarrow> AList.update k v al = al @ [(k, v)]"
  by (induction al) auto

lemma py_isspace_NL [simp]: "py_isspace NL"
  by (simp add: py_isspace_def)

lemma text_lines_format:
  assumes "\<forall>(k, v) \<in> set props. NL \<notin> set k \<and> NL \<notin> set v"
  shows "text_lines (format_module_prop props) = map (\<lambda>(k, v). k @ ''='' @ v @ [NL]) props"
  using assms
proof (induction props)
  case Nil
  then show ?case by (simp add: format_module_prop_def text_lines.simps)
next
  case (Cons kv props)
  obtain k v where kv: "kv = (k, v)" by fastforce
  with Cons.prems have "NL \<notin> set (k @ ''='' @ v)" by auto
  then have "text_lines ((k @ ''='' @ v) @ NL # format_module_prop props) =
      ((k @ ''='' @ v) @ [NL]) # text_lines (format_module_prop props)"
    by (rule text_lines_line)
  with Cons kv show ?case by (simp add: format_module_prop_def)
qed

lemma parse_lines:
  assumes "\<forall>kv \<in> set props. prop_ok kv" and "distinct (map fst (acc @ props))"
  shows "fold (\<lambda>line props.
             let new_line = py_strip line in
             if startswith new_line ''#'' then props
             else (case partition new_line (CHR ''='') of (k, _, v) \<Rightarrow> AList.update k v props))
           (map (\<lambda>(k, v). k @ ''='' @ v @ [NL]) props) acc = acc @ props"
  using assms
proof (induction props arbitrary: acc)
  case (Cons kv props)
  obtain k v where kv: "kv = (k, v)" by fastforce
  with Cons.prems(1) have ok: "prop_ok (k, v)" by simp
  then have strip: "py_strip (k @ ''='' @ v @ [NL]) = k @ ''='' @ v"
    using py_strip_snoc_space [of NL "k @ ''='' @ v"] by (simp add: prop_ok_def)
  from ok have "\<not> startswith (k @ ''='' @ v) ''#''"
    by (cases k) (auto simp: prop_ok_def startswith_def)
  moreover from Cons.prems(2) kv have "k \<notin> fst ` set acc" by auto
  ultimately have "(let new_line = py_strip (k @ ''='' @ v @ [NL]) in
             if startswith new_line ''#'' then acc
             else (case partition new_line (CHR ''='') of (k, _, v) \<Rightarrow> AList.update k v acc)) =
        acc @ [(k, v)]"
    using ok strip by (simp add: prop_ok_def partition_eq update_new_key)
  with Cons.IH [of "acc @ [(k, v)]"] Cons.prems kv show ?case by simp
qed simp

lemma parse_format_props:
  assumes "distinct (map fst props)" and "\<forall>kv \<in> set props. prop_ok kv"
  shows "parse_module_prop (format_module_prop props) = props"
proof -
  have nl: "\<forall>(k, v) \<in> set props. NL \<notin> set k \<and> NL \<notin> set v"
    using assms(2) by (auto simp: prop_ok_def)
  have "CR \<notin> set (format_module_prop props)"
    using assms(2) by (auto simp: format_module_prop_def prop_ok_def)
  then have "translate_newlines (format_module_prop props) = format_module_prop props"
    by (rule translate_newlines_id)
  with text_lines_format [OF nl] parse_lines [OF assms(2), of "[]"] assms(1) show ?thesis
    by (simp add: parse_module_prop_def)
qed

lemma parse_module_prop_distinct: "distinct (map fst (parse_module_prop t))"
proof -
  have "distinct (map fst acc) \<Longrightarrow>
      distinct (map fst (fold (\<lambda>line props.
             let new_line = py_strip line in
             if startswith new_line ''#'' then props
             else (case partition new_line (CHR ''='') of (k, _, v) \<Rightarrow> AList.update k v props)) ls acc))"
    for ls acc
    by (induction ls arbitrary: acc) (simp_all add: Let_def distinct_update split: prod.split)
  then show ?thesis by (simp add: parse_module_prop_def)
qed

text \<open>
  C13: \<open>module.prop\<close> round trip: formatting a dictionary whose keys are distinct and
  whose entries survive a line's \<open>strip\<close> and \<open>partition\<close>, then parsing the text,
  gives the same dictionary, in the same order.
\<close>

theorem parse_format_module_prop:
  assumes "distinct (map fst props)" and "\<forall>kv \<in> set props. prop_ok kv"
  shows "parse_module_prop (format_module_prop props) = props"
  using assms by (rule parse_format_props)

text \<open>
  Parsing and re-serialising is not the identity on \<open>module.prop\<close> files, contrary
  to the spec: comment lines are dropped, and a blank line becomes an entry with an empty
  key, written back as a line \<open>=\<close>.
\<close>

theorem format_parse_module_prop_not_identity:
  "format_module_prop (parse_module_prop (''# comment'' @ [NL] @ ''id=py2droid'' @ [NL])) =
     ''id=py2droid'' @ [NL] \<and>
   format_module_prop (parse_module_prop (''a=1'' @ [NL, NL] @ ''b=2'' @ [NL])) =
     ''a=1'' @ [NL] @ ''='' @ [NL] @ ''b=2'' @ [NL]"
  by (simp add: model_eval Let_def)

theorem parse_format_module_prop_witness:
  "distinct (map fst [(''id'', ''py2droid''), (''version'', ''v0.2.0'')]) \<and>
   list_all prop_ok [(''id'', ''py2droid''), (''version'', ''v0.2.0'')] \<and>
   parse_module_prop (format_module_prop [(''id'', ''py2droid''), (''version'', ''v0.2.0'')]) =
     [(''id'', ''py2droid''), (''version'', ''v0.2.0'')]"
proof -
  have h1: "distinct (map fst [(''id'', ''py2droid''), (''version'', ''v0.2.0'')])" by simp
  have h2: "\<forall>kv \<in> set [(''id'', ''py2droid''), (''version'', ''v0.2.0'')]. prop_ok kv"
    by (simp add: prop_ok_def model_eval)
  show ?thesis using h1 h2 parse_format_module_prop [OF h1 h2] by (simp add: list_all_iff)
qed

end
