(* ===== verification/Packaging.thy ===== *)
theory Packaging
  imports Debloat Shebang
begin

text \<open>
  The per-prefix stages of \<open>ModuleBuilder\<close> after debloat (\<open>build.py\<close>):
  \<open>_fix_shebangs\<close> (lines 429--461) over the whole \<open>bin/\<close> directory of a prefix,
  built from the one-file rewrite \<open>fix_shebang\<close> of \<open>Shebang\<close>.  \<open>Path.iterdir\<close> lists
  the children of \<open>bin\<close> when the loop starts; the loop body reads a child that is a
  regular file and not a link, and writes it back when \<open>fix_shebang\<close> rewrites it.  A
  missing \<open>bin\<close> raises \<open>FileNotFoundError\<close>, a \<open>bin\<close> that is not a directory
  \<open>NotADirectoryError\<close>.  \<open>fix_entry\<close> is the reference: the map that rewrites each
  regular file directly below \<open>bin\<close> in place.
\<close>

subsection \<open>Rewriting the directives of \<open>bin/\<close>\<close>

fun is_bin_child :: "path \<Rightarrow> bool" where
  "is_bin_child [d, n] = (d = ''bin'')"
| "is_bin_child _ = False"

definition bin_children :: "fs \<Rightarrow> path list" where
  "bin_children fs = filter is_bin_child (map fst fs)"

definition fix_file :: "path \<Rightarrow> fs \<Rightarrow> fs" where
  "fix_file p fs =
     (case map_of fs p of
        Some (File c) \<Rightarrow> (case fix_shebang c of None \<Rightarrow> fs | Some c' \<Rightarrow> AList.update p (File c') fs)
      | _ \<Rightarrow> fs)"

definition fix_shebangs :: "fs \<Rightarrow> py_error + fs" where
  "fix_shebangs fs =
     (case map_of fs [''bin''] of
        None \<Rightarrow> Inl (FileNotFoundError [''bin''])
      | Some (Symlink Dangling) \<Rightarrow> Inl (FileNotFoundError [''bin''])
      | Some e \<Rightarrow> if is_dir e then Inr (fold fix_file (bin_children fs) fs)
                 else Inl (NotADirectoryError [''bin'']))"

fun fix_entry :: "entry \<Rightarrow> entry" where
  "fix_entry (File c) = File (case fix_shebang c of None \<Rightarrow> c | Some c' \<Rightarrow> c')"
| "fix_entry e = e"

definition fix_all :: "fs \<Rightarrow> fs" where
  "fix_all fs = map (\<lambda>(p, e). (p, if is_bin_child p then fix_entry e else e)) fs"

lemmas packaging_eval [model_eval] = fix_shebangs_def bin_children_def fix_file_def fix_all_def

subsection \<open>The loop is the in-place map\<close>

lemma map_id_on_key:
  "p \<notin> fst ` set fs \<Longrightarrow> map (\<lambda>(q, e). (q, if q = p then f e else e)) fs = fs"
  by (induction fs) auto

lemma map_at_key:
  "distinct (map fst fs) \<Longrightarrow> map_of fs p = Some e \<Longrightarrow>
     map (\<lambda>(q, e'). (q, if q = p then f e' else e')) fs = AList.update p (f e) fs"
proof (induction fs)
  case (Cons qe fs)
  then show ?case by (cases qe) (auto simp: map_id_on_key)
qed simp

lemma fix_file_update:
  "fix_file p fs = (case map_of fs p of None \<Rightarrow> fs | Some e \<Rightarrow> AList.update p (fix_entry e) fs)"
  by (auto simp: fix_file_def update_triv split: option.split entry.split)

lemma fix_file_map:
  assumes "distinct (map fst fs)"
  shows "fix_file p fs = map (\<lambda>(q, e). (q, if q = p then fix_entry e else e)) fs"
proof (cases "map_of fs p")
  case None
  then have "p \<notin> fst ` set fs" by (simp add: map_of_eq_None_iff)
  with None show ?thesis by (simp add: fix_file_update map_id_on_key)
next
  case (Some e)
  with assms show ?thesis by (simp add: fix_file_update map_at_key)
qed


lemma fold_fix_file:
  "distinct ps \<Longrightarrow> distinct (map fst fs) \<Longrightarrow>
     fold fix_file ps fs = map (\<lambda>(q, e). (q, if q \<in> set ps then fix_entry e else e)) fs"
proof (induction ps arbitrary: fs)
  case (Cons p ps)
  have d: "distinct (map fst (fix_file p fs))"
    using Cons.prems by (simp add: fix_file_map case_prod_beta comp_def)
  from Cons show ?case
    by (simp add: fix_file_map [OF Cons.prems(2)] Cons.IH [OF _ d] comp_def case_prod_beta)
qed (simp add: case_prod_beta)

lemma fold_fix_file_bin:
  assumes "distinct (map fst fs)"
  shows "fold fix_file (bin_children fs) fs = fix_all fs"
proof -
  have "distinct (bin_children fs)" using assms by (simp add: bin_children_def)
  then have "fold fix_file (bin_children fs) fs =
      map (\<lambda>(q, e). (q, if q \<in> set (bin_children fs) then fix_entry e else e)) fs"
    using assms by (rule fold_fix_file)
  also have "\<dots> = fix_all fs"
    unfolding fix_all_def by (rule map_cong) (force simp: bin_children_def)+
  finally show ?thesis .
qed

lemma fix_entry_Dir_iff [simp]: "fix_entry e = Dir \<longleftrightarrow> e = Dir"
  by (cases e) auto

lemma fix_entry_kind [simp]: "is_dir (fix_entry e) = is_dir e" "is_symlink (fix_entry e) = is_symlink e"
  by (cases e; simp)+

lemma fix_entry_fix_entry [simp]: "fix_entry (fix_entry e) = fix_entry e"
proof (cases e)
  case (File c)
  show ?thesis
  proof (cases "fix_shebang c")
    case (Some c')
    then have "readline 1024 c' \<in> {shell_shebang, python_shebang}"
      using fix_shebang_Some [OF Some] by auto
    then have "fix_shebang c' = None" by (rule fix_shebang_first_line)
    with File Some show ?thesis by simp
  qed (simp add: File)
qed simp_all

lemma map_fst_fix_all [simp]: "map fst (fix_all fs) = map fst fs"
  by (simp add: fix_all_def case_prod_beta comp_def)

lemma map_of_fix_all [simp]:
  "map_of (fix_all fs) q = map_option (if is_bin_child q then fix_entry else id) (map_of fs q)"
  by (induction fs) (auto simp: fix_all_def)

lemma fix_all_fix_all [simp]: "fix_all (fix_all fs) = fix_all fs"
  by (simp add: fix_all_def case_prod_beta comp_def)

lemma map_of_fix_all_Dir [simp]: "map_of (fix_all fs) q = Some Dir \<longleftrightarrow> map_of fs q = Some Dir"
  by (cases "map_of fs q") auto

lemma fix_shebangs_Inr:
  "fix_shebangs fs = Inr fs' \<Longrightarrow> distinct (map fst fs) \<Longrightarrow>
     fs' = fix_all fs \<and> (\<exists>e. map_of fs [''bin''] = Some e \<and> is_dir e)"
  by (auto simp: fix_shebangs_def fold_fix_file_bin
           split: option.splits entry.splits link_target.splits if_splits)


lemma fix_shebangs_dir:
  "distinct (map fst fs) \<Longrightarrow> map_of fs [''bin''] = Some e \<Longrightarrow> is_dir e \<Longrightarrow>
     fix_shebangs fs = Inr (fix_all fs)"
  by (cases e) (auto simp: fix_shebangs_def fold_fix_file_bin split: link_target.splits)

lemma wf_fs_fix_all: "wf_fs (fix_all fs) = wf_fs fs"
  by (simp add: wf_fs_def)

subsection \<open>Properties of the stage\<close>

text \<open>
  C15: the loop over \<open>bin.iterdir()\<close> succeeds exactly when \<open>bin\<close> is a directory
  (or a link to one), and then it is the in-place rewrite of every regular file directly
  below \<open>bin\<close>: each \<open>fix_shebang\<close> write lands on its own entry and no other.
\<close>

theorem fix_shebangs_refines:
  assumes "distinct (map fst fs)"
  shows "fix_shebangs fs = Inr fs' \<longleftrightarrow>
           (\<exists>e. map_of fs [''bin''] = Some e \<and> is_dir e) \<and> fs' = fix_all fs"
  using fix_shebangs_Inr [OF _ assms] fix_shebangs_dir [OF assms] by blast

text \<open>
  C16: running the stage twice is running it once: every rewritten script already
  carries a target directive, which neither pattern matches.
\<close>

theorem fix_shebangs_idempotent:
  assumes "distinct (map fst fs)" and "fix_shebangs fs = Inr fs'"
  shows "fix_shebangs fs' = Inr fs'"
proof -
  from fix_shebangs_Inr [OF assms(2,1)] obtain e
    where fs': "fs' = fix_all fs" and bin: "map_of fs [''bin''] = Some e" "is_dir e" by blast
  have "distinct (map fst fs')" using assms(1) fs' by simp
  moreover have "map_of fs' [''bin''] = Some e" using fs' bin by simp
  ultimately have "fix_shebangs fs' = Inr (fix_all fs')" using bin(2) by (rule fix_shebangs_dir)
  with fs' show ?thesis by simp
qed

text \<open>
  C17: the stage keeps the tree: the same paths in the same order, every entry of the
  same kind, a well-formed prefix stays well-formed, and nothing outside the regular
  files directly below \<open>bin\<close> changes.
\<close>

theorem fix_shebangs_preserves_tree:
  assumes "wf_fs fs" and "fix_shebangs fs = Inr fs'"
  shows "wf_fs fs' \<and> map fst fs' = map fst fs \<and>
         (\<forall>q. map_option is_dir (map_of fs' q) = map_option is_dir (map_of fs q) \<and>
              map_option is_symlink (map_of fs' q) = map_option is_symlink (map_of fs q)) \<and>
         (\<forall>q e. map_of fs q = Some e \<and> (\<not> is_bin_child q \<or> (\<forall>c. e \<noteq> File c)) \<longrightarrow>
                map_of fs' q = Some e)"
proof -
  have d: "distinct (map fst fs)" using assms(1) by (simp add: wf_fs_def)
  then have fs': "fs' = fix_all fs" using fix_shebangs_Inr [OF assms(2)] by blast
  have "fix_entry e = e" if "\<forall>c. e \<noteq> File c" for e using that by (cases e) auto
  then show ?thesis using assms(1) fs'
    by (auto simp: wf_fs_fix_all option.map_comp comp_def intro!: option.map_cong)
qed

text \<open>
  C18: a prefix without \<open>bin\<close> (for instance after a debloat rule removed it) makes the
  stage raise \<open>FileNotFoundError\<close> from \<open>iterdir\<close>, as does a \<open>bin\<close> that is a
  dangling link.
\<close>

theorem fix_shebangs_no_bin:
  "map_of fs [''bin''] \<in> {None, Some (Symlink Dangling)} \<Longrightarrow>
     fix_shebangs fs = Inl (FileNotFoundError [''bin''])"
  by (auto simp: fix_shebangs_def)


subsection \<open>Witnesses\<close>

theorem fix_shebangs_refines_witness:
  "fix_shebangs [([''bin''], Dir), ([''bin'', ''pip''], File (''#!/usr/bin/python3.12'' @ [NL])),
                 ([''bin'', ''python3''], File [CHR 0x7F, CHR ''E'']), ([''lib''], Dir)] =
     Inr [([''bin''], Dir), ([''bin'', ''pip''], File python_shebang),
          ([''bin'', ''python3''], File [CHR 0x7F, CHR ''E'']), ([''lib''], Dir)]"
proof -
  have d: "distinct (map fst [([''bin''], Dir), ([''bin'', ''pip''], File (''#!/usr/bin/python3.12'' @ [NL])),
                 ([''bin'', ''python3''], File [CHR 0x7F, CHR ''E'']), ([''lib''], Dir)])" by simp
  have f: "fix_all [([''bin''], Dir), ([''bin'', ''pip''], File (''#!/usr/bin/python3.12'' @ [NL])),
                 ([''bin'', ''python3''], File [CHR 0x7F, CHR ''E'']), ([''lib''], Dir)] =
     [([''bin''], Dir), ([''bin'', ''pip''], File python_shebang),
          ([''bin'', ''python3''], File [CHR 0x7F, CHR ''E'']), ([''lib''], Dir)]"
    by (simp add: fix_shebang_def model_eval)
  show ?thesis using fix_shebangs_refines [OF d] f by simp
qed

theorem fix_shebangs_idempotent_witness:
  "fix_shebangs [([''bin''], Dir), ([''bin'', ''sh''], File (''#!/bin/sh'' @ [NL]))] =
     Inr [([''bin''], Dir), ([''bin'', ''sh''], File shell_shebang)] \<and>
   fix_shebangs [([''bin''], Dir), ([''bin'', ''sh''], File shell_shebang)] =
     Inr [([''bin''], Dir), ([''bin'', ''sh''], File shell_shebang)]"
proof -
  have h: "fix_shebangs [([''bin''], Dir), ([''bin'', ''sh''], File (''#!/bin/sh'' @ [NL]))] =
     Inr [([''bin''], Dir), ([''bin'', ''sh''], File shell_shebang)]"
    by (simp add: fix_shebang_def model_eval)
  have d: "distinct (map fst [([''bin''], Dir), ([''bin'', ''sh''], File (''#!/bin/sh'' @ [NL]))])"
    by simp
  show ?thesis using h fix_shebangs_idempotent [OF d h] by simp
qed

theorem fix_shebangs_preserves_tree_witness:
  "wf_fs [([''bin''], Dir), ([''bin'', ''sh''], File (''#!/bin/sh'' @ [NL])), ([''lib''], Dir)] \<and>
   map_of [([''bin''], Dir), ([''bin'', ''sh''], File shell_shebang), ([''lib''], Dir)] [''lib''] =
     Some Dir"
proof -
  have w: "wf_fs [([''bin''], Dir), ([''bin'', ''sh''], File (''#!/bin/sh'' @ [NL])), ([''lib''], Dir)]"
    by (simp add: wf_fs_def)
  have h: "fix_shebangs [([''bin''], Dir), ([''bin'', ''sh''], File (''#!/bin/sh'' @ [NL])), ([''lib''], Dir)] =
     Inr [([''bin''], Dir), ([''bin'', ''sh''], File shell_shebang), ([''lib''], Dir)]"
    by (simp add: fix_shebang_def model_eval)
  have "map_of [([''bin''], Dir), ([''bin'', ''sh''], File shell_shebang), ([''lib''], Dir)] [''lib''] =
     Some Dir"
    using fix_shebangs_preserves_tree [OF w h] by simp
  with w show ?thesis by simp
qed

theorem fix_shebangs_no_bin_witness:
  "fix_shebangs [([''lib''], Dir)] = Inl (FileNotFoundError [''bin''])"
  using fix_shebangs_no_bin [of "[([''lib''], Dir)]"] by simp

end
