(* ===== verification/Exc.thy ===== *)
theory Exc
  imports Prelude
begin

text \<open>
  Statements of the scripts run for their effect on the world and may raise: a
  computation is a function from the state to its outcome (\<open>Inl\<close> the exception,
  \<open>Inr\<close> the value) and the state it leaves, which keeps every effect done before an
  exception.  \<open>ebind\<close> is sequencing, with the exception propagated and the rest of
  the block skipped; \<open>eforeach\<close> is a \<open>for\<close> loop whose body may raise, which aborts
  the remaining iterations; \<open>emap\<close> collects the values of such a loop, as
  \<open>tarballs.append(...)\<close> does.
\<close>

type_synonym ('s, 'a) exc = "'s \<Rightarrow> (py_error + 'a) \<times> 's"

definition ereturn :: "'a \<Rightarrow> ('s, 'a) exc" where
  "ereturn x s = (Inr x, s)"

definition eraise :: "py_error \<Rightarrow> ('s, 'a) exc" where
  "eraise e s = (Inl e, s)"

definition ebind :: "('s, 'a) exc \<Rightarrow> ('a \<Rightarrow> ('s, 'b) exc) \<Rightarrow> ('s, 'b) exc" where
  "ebind m f s = (case m s of (Inl e, s') \<Rightarrow> (Inl e, s') | (Inr x, s') \<Rightarrow> f x s')"

definition emodify :: "('s \<Rightarrow> 's) \<Rightarrow> ('s, unit) exc" where
  "emodify f s = (Inr (), f s)"

definition eget :: "('s \<Rightarrow> 'a) \<Rightarrow> ('s, 'a) exc" where
  "eget f s = (Inr (f s), s)"

fun eforeach :: "('a \<Rightarrow> ('s, unit) exc) \<Rightarrow> 'a list \<Rightarrow> ('s, unit) exc" where
  "eforeach f [] = ereturn ()"
| "eforeach f (x # xs) = ebind (f x) (\<lambda>_. eforeach f xs)"

fun emap :: "('a \<Rightarrow> ('s, 'b) exc) \<Rightarrow> 'a list \<Rightarrow> ('s, 'b list) exc" where
  "emap f [] = ereturn []"
| "emap f (x # xs) = ebind (f x) (\<lambda>y. ebind (emap f xs) (\<lambda>ys. ereturn (y # ys)))"

lemmas exc_defs [model_eval] = ereturn_def eraise_def ebind_def emodify_def eget_def

text \<open>
  \<open>keeps R m\<close>: every run of \<open>m\<close>, raising or not, relates its start and end states by
  \<open>R\<close>.  For a reflexive and transitive \<open>R\<close> this is closed under the combinators, so
  that a whole pipeline keeps \<open>R\<close> when each of its primitive steps does.
\<close>

definition keeps :: "('s \<Rightarrow> 's \<Rightarrow> bool) \<Rightarrow> ('s, 'a) exc \<Rightarrow> bool" where
  "keeps R m \<longleftrightarrow> (\<forall>s r s'. m s = (r, s') \<longrightarrow> R s s')"

definition preorder_rel :: "('s \<Rightarrow> 's \<Rightarrow> bool) \<Rightarrow> bool" where
  "preorder_rel R \<longleftrightarrow> (\<forall>s. R s s) \<and> (\<forall>s t u. R s t \<and> R t u \<longrightarrow> R s u)"

named_theorems keeps_intros "closure rules of keeps"

subsection \<open>Monad laws and loops\<close>

lemma ebind_return [simp]: "ebind (ereturn x) f = f x"
  by (simp add: ebind_def ereturn_def fun_eq_iff)

lemma ebind_return_right [simp]: "ebind m ereturn = m"
  by (auto simp: ebind_def ereturn_def fun_eq_iff split: prod.split sum.split)

lemma ebind_assoc: "ebind (ebind m f) g = ebind m (\<lambda>x. ebind (f x) g)"
  by (auto simp: ebind_def fun_eq_iff split: prod.split sum.split)

lemma ebind_raise [simp]: "ebind (eraise e) f = eraise e"
  by (simp add: ebind_def eraise_def fun_eq_iff)

lemma ebind_apply_Inl [simp]: "m s = (Inl e, s') \<Longrightarrow> ebind m f s = (Inl e, s')"
  by (simp add: ebind_def)

lemma ebind_apply_Inr [simp]: "m s = (Inr x, s') \<Longrightarrow> ebind m f s = f x s'"
  by (simp add: ebind_def)

lemma eforeach_append: "eforeach f (xs @ ys) = ebind (eforeach f xs) (\<lambda>_. eforeach f ys)"
  by (induction xs) (simp_all add: ebind_assoc)

text \<open>A loop whose bodies all succeed leaves the composition of their states.\<close>

lemma eforeach_Inr:
  assumes "\<forall>x \<in> set xs. \<forall>s. f x s = (Inr (), g x s)"
  shows "eforeach f xs s = (Inr (), fold g xs s)"
  using assms by (induction xs arbitrary: s) (simp_all add: ereturn_def)

text \<open>The first body that raises ends the loop with its exception and its state.\<close>

lemma eforeach_abort:
  assumes "\<forall>x \<in> set xs. \<forall>s. f x s = (Inr (), g x s)" and "f y (fold g xs s) = (Inl e, s')"
  shows "eforeach f (xs @ y # zs) s = (Inl e, s')"
  using assms eforeach_Inr [OF assms(1)] by (simp add: eforeach_append)

text \<open>A property every body keeps, whatever its outcome, holds after the loop.\<close>

lemma eforeach_invariant:
  assumes "\<And>x s r s'. x \<in> set xs \<Longrightarrow> P s \<Longrightarrow> f x s = (r, s') \<Longrightarrow> P s'" and "P s"
    and "eforeach f xs s = (r, s')"
  shows "P s'"
  using assms
proof (induction xs arbitrary: s)
  case Nil
  then show ?case by (simp add: ereturn_def)
next
  case (Cons x xs)
  obtain r1 s1 where f: "f x s = (r1, s1)" by fastforce
  have P1: "P s1" using Cons.prems(1) [of x s r1 s1] Cons.prems(2) f by simp
  show ?case
  proof (cases r1)
    case (Inl e)
    then have "eforeach f (x # xs) s = (Inl e, s1)" using f by (simp add: ebind_def)
    with Cons.prems(3) P1 show ?thesis by simp
  next
    case (Inr u)
    then have "eforeach f (x # xs) s = eforeach f xs s1" using f by (simp add: ebind_def)
    with Cons.prems(3) have "eforeach f xs s1 = (r, s')" by simp
    then show ?thesis using Cons.IH [of s1] Cons.prems(1) P1 by (metis list.set_intros(2))
  qed
qed

lemma emap_Inr:
  assumes "\<forall>x \<in> set xs. \<forall>s. f x s = (Inr (h x), g x s)"
  shows "emap f xs s = (Inr (map h xs), fold g xs s)"
  using assms by (induction xs arbitrary: s) (simp_all add: ereturn_def)

subsection \<open>Relations every step keeps\<close>

lemma keeps_D: "keeps R m \<Longrightarrow> m s = (r, s') \<Longrightarrow> R s s'"
  by (simp add: keeps_def)

lemma keeps_return [keeps_intros]: "preorder_rel R \<Longrightarrow> keeps R (ereturn x)"
  by (simp add: keeps_def preorder_rel_def ereturn_def)

lemma keeps_raise [keeps_intros]: "preorder_rel R \<Longrightarrow> keeps R (eraise e)"
  by (simp add: keeps_def preorder_rel_def eraise_def)

lemma keeps_get [keeps_intros]: "preorder_rel R \<Longrightarrow> keeps R (eget f)"
  by (simp add: keeps_def preorder_rel_def eget_def)

lemma keeps_bind [keeps_intros]:
  assumes "preorder_rel R" and "keeps R m" and "\<And>x. keeps R (f x)"
  shows "keeps R (ebind m f)"
  unfolding keeps_def
proof (intro allI impI)
  fix s r s'
  assume b: "ebind m f s = (r, s')"
  obtain r1 s1 where m: "m s = (r1, s1)" by (cases "m s")
  have R1: "R s s1" using keeps_D [OF assms(2) m] .
  show "R s s'"
  proof (cases r1)
    case (Inl e)
    then have "s' = s1" using b m by (simp add: ebind_def)
    with R1 show ?thesis by simp
  next
    case (Inr x)
    then have "f x s1 = (r, s')" using b m by (simp add: ebind_def)
    then have "R s1 s'" by (rule keeps_D [OF assms(3)])
    with R1 assms(1) show ?thesis unfolding preorder_rel_def by blast
  qed
qed
lemma keeps_if [keeps_intros]: "keeps R m \<Longrightarrow> keeps R n \<Longrightarrow> keeps R (if b then m else n)"
  by simp

lemma keeps_foreach [keeps_intros]:
  "preorder_rel R \<Longrightarrow> (\<And>x. keeps R (f x)) \<Longrightarrow> keeps R (eforeach f xs)"
proof (induction xs)
  case (Cons x xs)
  then show ?case by (simp only: eforeach.simps) (rule keeps_bind; simp)
qed (simp add: keeps_return)

lemma keeps_foreach_in:
  "preorder_rel R \<Longrightarrow> \<forall>x \<in> set xs. keeps R (f x) \<Longrightarrow> keeps R (eforeach f xs)"
proof (induction xs)
  case (Cons x xs)
  then show ?case by (simp only: eforeach.simps) (rule keeps_bind; simp)
qed (simp add: keeps_return)

lemma keeps_emap [keeps_intros]:
  "preorder_rel R \<Longrightarrow> (\<And>x. keeps R (f x)) \<Longrightarrow> keeps R (emap f xs)"
proof (induction xs)
  case (Cons x xs)
  then show ?case
    by (simp only: emap.simps) (intro keeps_bind keeps_return; simp)
qed (simp add: keeps_return)

lemma keeps_cond [keeps_intros]:
  "keeps R m \<Longrightarrow> keeps R n \<Longrightarrow> keeps R (\<lambda>s. if P s then m s else n s)"
  by (simp add: keeps_def)


lemma eforeach_no_raise:
  assumes "\<And>x s. fst (f x s) = Inr ()"
  shows "fst (eforeach f xs s) = Inr ()"
proof (induction xs arbitrary: s)
  case (Cons x xs)
  obtain s1 where "f x s = (Inr (), s1)" using assms [of x s] by (cases "f x s") auto
  with Cons show ?case by simp
qed (simp add: ereturn_def)

end
