(* ===== verification/Process.thy ===== *)
theory Process
  imports Prefix_FS Exc
begin

text \<open>
  The world the build script acts on and its process runner (\<open>build.py\<close>: \<open>run\<close>,
  lines 537--545, and \<open>update_env_path\<close>, lines 548--555).  \<open>files\<close> is the file
  system as an association list from paths to entries (the \<open>Prefix_FS\<close> model), a
  path being the \<open>Path.parts\<close> of a \<open>pathlib\<close> path: relative paths start at the
  project directory (the working directory after \<open>_prepare_project_directory\<close>),
  absolute ones with the component \<open>/\<close>.  \<open>cmds\<close> records every external command
  started, in order; \<open>environ\<close> is \<open>os.environ\<close>, which the script copies and never
  changes.  An external program is a parameter \<open>ext\<close>: given the command and the file
  system it returns its exit code, its standard output and the file system it leaves,
  so that a theorem about the script holds for every behaviour of the tools it calls
  unless it says otherwise.  Environments are \<open>dict\<close>s of strings, association lists
  in insertion order updated in place by \<open>AList.update\<close>.
\<close>

type_synonym env = "(string \<times> string) list"

record cmd =
  argv :: "string list"
  cmd_cwd :: path
  cmd_env :: "env option"

record world =
  files :: fs
  cmds :: "cmd list"
  environ :: env

type_synonym ext = "cmd \<Rightarrow> fs \<Rightarrow> (int \<times> string) \<times> fs"

definition path_str :: "path \<Rightarrow> string" where
  "path_str p = (if p = [] then ''.''
                 else if hd p = ''/'' then ''/'' @ join ''/'' (tl p) else join ''/'' p)"

definition path_parts :: "string \<Rightarrow> path" where
  "path_parts s = (if take 1 s = ''/'' then [''/''] else []) @
     filter (\<lambda>w. w \<noteq> [] \<and> w \<noteq> ''.'') (split_on CHR ''/'' s)"

definition path_join :: "path \<Rightarrow> path \<Rightarrow> path" where
  "path_join p q = (if take 1 q = [''/''] then q else p @ q)"

definition exists :: "fs \<Rightarrow> path \<Rightarrow> bool" where
  "exists fs p \<longleftrightarrow> (case map_of fs p of None \<Rightarrow> False | Some e \<Rightarrow> e \<noteq> Symlink Dangling)"

definition children :: "fs \<Rightarrow> path \<Rightarrow> path list" where
  "children fs p = filter (\<lambda>q. q \<noteq> [] \<and> butlast q = p) (map fst fs)"

definition iterdir :: "fs \<Rightarrow> path \<Rightarrow> py_error + path list" where
  "iterdir fs p =
     (case map_of fs p of
        None \<Rightarrow> Inl (FileNotFoundError p)
      | Some (Symlink Dangling) \<Rightarrow> Inl (FileNotFoundError p)
      | Some e \<Rightarrow> if is_dir e then Inr (children fs p) else Inl (NotADirectoryError p))"

text \<open>\<open>run\<close> (\<open>subprocess.run\<close> with \<open>check\<close>): the program always starts and returns
  an exit code and its output.  A program that cannot be started, which makes
  \<open>subprocess.run\<close> raise \<open>FileNotFoundError\<close> or \<open>PermissionError\<close> even with
  \<open>check=False\<close>, is not modelled; no theorem claims that a stage never raises.\<close>

definition run :: "ext \<Rightarrow> bool \<Rightarrow> cmd \<Rightarrow> ('a world_scheme, int \<times> string) exc" where
  "run X check c w =
     (let ((rc, out), fs') = X c (files w);
          w' = w\<lparr>files := fs', cmds := cmds w @ [c]\<rparr>
      in if check \<and> rc \<noteq> 0 then (Inl (CalledProcessError rc (argv c)), w') else (Inr (rc, out), w'))"

definition update_env_path :: "env \<Rightarrow> string \<Rightarrow> string list \<Rightarrow> env" where
  "update_env_path env key values =
     (case map_of env key of
        None \<Rightarrow> AList.update key (join '':'' values) env
      | Some path \<Rightarrow> AList.update key (join '':'' (values @ [path])) env)"

lemmas process_eval [model_eval] = path_str_def path_parts_def path_join_def exists_def children_def iterdir_def
  run_def update_env_path_def

text \<open>\<open>grows\<close>: the script never changes \<open>os.environ\<close>, and the log of started commands
  only grows.\<close>

definition grows :: "'a world_scheme \<Rightarrow> 'a world_scheme \<Rightarrow> bool" where
  "grows w w' \<longleftrightarrow> environ w' = environ w \<and> prefix (cmds w) (cmds w')"

subsection \<open>The runner\<close>

lemma run_effect:
  "run X check c w = (r, w') \<Longrightarrow>
     files w' = snd (X c (files w)) \<and> cmds w' = cmds w @ [c] \<and> environ w' = environ w"
  by (auto simp: run_def Let_def split: prod.splits if_splits)

lemma run_result:
  "fst (run X check c w) =
     (let rc = fst (fst (X c (files w))) in
      if check \<and> rc \<noteq> 0 then Inl (CalledProcessError rc (argv c)) else Inr (fst (X c (files w))))"
  by (simp add: run_def Let_def split: prod.split)

subsection \<open>Prepending to a path list\<close>

lemma map_of_update_env_path:
  "map_of (update_env_path env k vs) q =
     (if q = k then Some (join '':'' (vs @ (case map_of env k of None \<Rightarrow> [] | Some p \<Rightarrow> [p])))
      else map_of env q)"
  by (simp add: update_env_path_def update_conv' split: option.split)

text \<open>
  C21: \<open>update_env_path\<close> prepends: read back with \<open>split(":")\<close>, the new value is
  the given entries followed by the entries the variable had, every other variable is
  unchanged, and the variable keeps its place in the dictionary (or is added last).
\<close>

theorem update_env_path_prepends:
  assumes "vs \<noteq> []" and "\<forall>v \<in> set vs. CHR '':'' \<notin> set v"
  shows "map_option (split_on CHR '':'') (map_of (update_env_path env k vs) k) =
           Some (vs @ (case map_of env k of None \<Rightarrow> [] | Some p \<Rightarrow> split_on CHR '':'' p)) \<and>
         (\<forall>q. q \<noteq> k \<longrightarrow> map_of (update_env_path env k vs) q = map_of env q) \<and>
         map fst (update_env_path env k vs) =
           (if k \<in> fst ` set env then map fst env else map fst env @ [k])"
proof -
  have k: "map_option (split_on CHR '':'') (map_of (update_env_path env k vs) k) =
      Some (vs @ (case map_of env k of None \<Rightarrow> [] | Some p \<Rightarrow> split_on CHR '':'' p))"
    using assms
    by (simp add: map_of_update_env_path split_on_join join_snoc split_on_join_sep
        split: option.split)
  have "map_of env k = None \<longleftrightarrow> k \<notin> fst ` set env" by (simp add: map_of_eq_None_iff)
  then have "map fst (update_env_path env k vs) =
      (if k \<in> fst ` set env then map fst env else map fst env @ [k])"
    by (auto simp: update_env_path_def map_fst_update split: option.split)
  with k show ?thesis by (simp add: map_of_update_env_path)
qed

text \<open>
  An empty variable is not absent: \<open>env.get(key)\<close> returns the empty string,
  not \<open>None\<close>, so prepending to an empty \<open>PATH\<close> leaves a trailing colon, an empty
  entry that the shell and \<open>execvp\<close> read as the current directory.
\<close>

theorem update_env_path_empty_value:
  "update_env_path [(''PATH'', [])] ''PATH'' [''/ndk/bin''] = [(''PATH'', ''/ndk/bin:'')] \<and>
   split_on CHR '':'' ''/ndk/bin:'' = [''/ndk/bin'', []]"
  by (simp add: update_env_path_def)

theorem update_env_path_prepends_witness:
  "map_option (split_on CHR '':'')
     (map_of (update_env_path [(''HOME'', ''/root''), (''PATH'', ''/usr/bin:/bin'')] ''PATH'' [''/ndk/bin''])
       ''PATH'') = Some [''/ndk/bin'', ''/usr/bin'', ''/bin'']"
proof -
  have h1: "[''/ndk/bin''] \<noteq> []" and h2: "\<forall>v \<in> set [''/ndk/bin'']. CHR '':'' \<notin> set v"
    by simp_all
  have "map_option (split_on CHR '':'')
     (map_of (update_env_path [(''HOME'', ''/root''), (''PATH'', ''/usr/bin:/bin'')] ''PATH'' [''/ndk/bin''])
       ''PATH'') = Some ([''/ndk/bin''] @
       (case map_of [(''HOME'', ''/root''), (''PATH'', ''/usr/bin:/bin'')] ''PATH'' of
          None \<Rightarrow> [] | Some p \<Rightarrow> split_on CHR '':'' p))"
    by (rule conjunct1 [OF update_env_path_prepends [OF h1 h2]])
  also have "\<dots> = Some [''/ndk/bin'', ''/usr/bin'', ''/bin'']" by simp
  finally show ?thesis .
qed

subsection \<open>What every step keeps\<close>

lemma preorder_grows [simp]: "preorder_rel grows"
  by (auto simp: preorder_rel_def grows_def intro: prefix_order.trans)

lemma keeps_run [keeps_intros]: "keeps grows (run X check c)"
  by (auto simp: keeps_def grows_def dest: run_effect)

lemma run_ok:
  "fst (fst (X c (files w))) = 0 \<Longrightarrow>
     run X check c w = (Inr (fst (X c (files w))), w\<lparr>files := snd (X c (files w)), cmds := cmds w @ [c]\<rparr>)"
  by (cases "X c (files w)") (auto simp: run_def)

lemma run_fail:
  "fst (fst (X c (files w))) \<noteq> 0 \<Longrightarrow>
     run X True c w = (Inl (CalledProcessError (fst (fst (X c (files w)))) (argv c)),
                       w\<lparr>files := snd (X c (files w)), cmds := cmds w @ [c]\<rparr>)"
  by (cases "X c (files w)") (auto simp: run_def)

end
