(* ===== verification/Template.thy ===== *)
theory Template
  imports Process
begin

text \<open>
  \<open>string.Template.substitute\<close> of the standard library, which \<open>_package_module\<close>
  (\<open>build.py\<close>, line 515) applies to the configured ZIP name with the module's
  properties.  The model follows the library's pattern
  \<^verbatim>\<open>\$(?:(?P<escaped>\$)|(?P<named>ID)|{(?P<braced>ID)}|(?P<invalid>))\<close> with
  \<^verbatim>\<open>ID = (?a:[_a-z][_a-z0-9]*)\<close> under \<open>re.IGNORECASE\<close>, scanned from left to right:
  \<open>$$\<close> is a dollar sign, \<open>$name\<close> and \<open>${name}\<close> are replaced by the mapping's value or
  raise \<open>KeyError\<close>, and any other \<open>$\<close> raises \<open>ValueError\<close>.  \<open>tpl\<close> and
  \<open>expand\<close> are the abstract view: a template as a list of literal texts and fields, and
  what substituting it means.
\<close>

definition is_id_start :: "char \<Rightarrow> bool" where
  "is_id_start c \<longleftrightarrow> c = CHR ''_'' \<or>
     (let n = (of_char c :: nat) in (65 \<le> n \<and> n \<le> 90) \<or> (97 \<le> n \<and> n \<le> 122))"

definition is_id_char :: "char \<Rightarrow> bool" where
  "is_id_char c \<longleftrightarrow> is_id_start c \<or> (let n = (of_char c :: nat) in 48 \<le> n \<and> n \<le> 57)"

abbreviation DOLLAR :: char where
  "DOLLAR \<equiv> CHR ''$''"

function substitute :: "(string \<times> string) list \<Rightarrow> string \<Rightarrow> py_error + string" where
  "substitute m [] = Inr []"
| "substitute m (c # s) =
     (if c \<noteq> DOLLAR then map_sum id (Cons c) (substitute m s)
      else if take 1 s = [DOLLAR] then map_sum id (Cons DOLLAR) (substitute m (drop 1 s))
      else
        (let n = takeWhile is_id_char s in
         if n \<noteq> [] \<and> is_id_start (hd n) then
           (case map_of m n of
              None \<Rightarrow> Inl (KeyError n)
            | Some v \<Rightarrow> map_sum id ((@) v) (substitute m (drop (length n) s)))
         else
           (let b = takeWhile is_id_char (drop 1 s) in
            if take 1 s = ''{'' \<and> b \<noteq> [] \<and> is_id_start (hd b) \<and>
               take 1 (drop (Suc (length b)) s) = ''}'' then
              (case map_of m b of
                 None \<Rightarrow> Inl (KeyError b)
               | Some v \<Rightarrow> map_sum id ((@) v) (substitute m (drop (Suc (Suc (length b))) s)))
            else Inl (ValueError ''Invalid placeholder in string''))))"
  by pat_completeness auto
termination
  by (relation "measure (\<lambda>(m, s). length s)") auto

datatype tpl_part = Text string | Field string

definition valid_id :: "string \<Rightarrow> bool" where
  "valid_id n \<longleftrightarrow> n \<noteq> [] \<and> is_id_start (hd n) \<and> list_all is_id_char n"

text \<open>A template written out: dollar signs of literal text doubled, fields braced.\<close>

fun render :: "tpl_part list \<Rightarrow> string" where
  "render [] = []"
| "render (Text t # ps) = concat (map (\<lambda>c. if c = DOLLAR then [DOLLAR, DOLLAR] else [c]) t) @ render ps"
| "render (Field n # ps) = DOLLAR # CHR ''{'' # n @ CHR ''}'' # render ps"

fun expand :: "(string \<times> string) list \<Rightarrow> tpl_part list \<Rightarrow> py_error + string" where
  "expand m [] = Inr []"
| "expand m (Text t # ps) = map_sum id ((@) t) (expand m ps)"
| "expand m (Field n # ps) =
     (case map_of m n of None \<Rightarrow> Inl (KeyError n) | Some v \<Rightarrow> map_sum id ((@) v) (expand m ps))"

definition DIST_DIR :: path where
  "DIST_DIR = [''dist'']"

text \<open>The ZIP path of \<open>_package_module\<close>: \<open>DIST_DIR / self.config.name.substitute(props)\<close>.\<close>

definition zip_path :: "string \<Rightarrow> (string \<times> string) list \<Rightarrow> py_error + path" where
  "zip_path tpl props = map_sum id (\<lambda>n. path_join DIST_DIR (path_parts n)) (substitute props tpl)"

declare substitute.simps [simp del]

lemmas template_eval [model_eval] = substitute.simps is_id_start_def is_id_char_def DIST_DIR_def zip_path_def


subsection \<open>Scanning\<close>

lemma substitute_other [simp]:
  "c \<noteq> DOLLAR \<Longrightarrow> substitute m (c # s) = map_sum id (Cons c) (substitute m s)"
  by (simp add: substitute.simps)

lemma substitute_escaped [simp]:
  "substitute m (DOLLAR # DOLLAR # s) = map_sum id (Cons DOLLAR) (substitute m s)"
  by (simp add: substitute.simps)

lemma is_id_char_brace [simp]: "\<not> is_id_char CHR ''{''" "\<not> is_id_char CHR ''}''"
  by (simp_all add: is_id_char_def is_id_start_def)

lemma substitute_braced:
  assumes "valid_id n"
  shows "substitute m (DOLLAR # CHR ''{'' # n @ CHR ''}'' # s) =
     (case map_of m n of None \<Rightarrow> Inl (KeyError n) | Some v \<Rightarrow> map_sum id ((@) v) (substitute m s))"
proof -
  from assms have t: "takeWhile is_id_char (n @ CHR ''}'' # s) = n"
    by (simp add: valid_id_def list_all_iff)
  have d: "drop (Suc (Suc (length n))) (CHR ''{'' # n @ CHR ''}'' # s) = s" by simp
  from assms show ?thesis by (simp add: substitute.simps valid_id_def t d split: option.split)
qed

lemma substitute_text:
  "substitute m (concat (map (\<lambda>c. if c = DOLLAR then [DOLLAR, DOLLAR] else [c]) t) @ s) =
     map_sum id ((@) t) (substitute m s)"
  by (induction t) (simp_all add: sum.map_comp comp_def sum.map_ident)

lemma substitute_no_dollar: "DOLLAR \<notin> set s \<Longrightarrow> substitute m s = Inr s"
proof (induction s)
  case (Cons c s)
  then have "c \<noteq> DOLLAR" by auto
  with Cons show ?case by simp
qed (simp add: substitute.simps)

lemma substitute_plain:
  "DOLLAR \<notin> set t \<Longrightarrow> substitute m (t @ s) = map_sum id ((@) t) (substitute m s)"
proof (induction t)
  case (Cons c t)
  then have "c \<noteq> DOLLAR" by auto
  with Cons show ?case by (simp add: sum.map_comp comp_def)
qed (cases "substitute m s"; simp)

text \<open>
  \<open>Template.substitute\<close> implements the abstract meaning of a template: every
  literal text is copied (its doubled dollar signs read back as one), every braced field
  whose name is an identifier is replaced by the mapping's value, and the first field
  the mapping lacks raises \<open>KeyError\<close>.
\<close>

lemma substitute_render:
  assumes "\<forall>n. Field n \<in> set ps \<longrightarrow> valid_id n"
  shows "substitute m (render ps) = expand m ps"
  using assms
proof (induction ps rule: render.induct)
  case (2 t ps)
  then show ?case by (simp add: substitute_text)
next
  case (3 n ps)
  then show ?case by (simp add: substitute_braced split: option.split)
qed (simp add: substitute.simps)


text \<open>
  C19: the ZIP path is the abstract expansion of the name template: every literal text
  is copied (its doubled dollar signs read back as one), every braced field whose name is
  an identifier is replaced by the property's value, and the first field the properties
  lack raises \<open>KeyError\<close>.
\<close>

theorem zip_path_render:
  assumes "\<forall>n. Field n \<in> set ps \<longrightarrow> valid_id n"
  shows "zip_path (render ps) m = map_sum id (\<lambda>n. path_join DIST_DIR (path_parts n)) (expand m ps)"
  using substitute_render [OF assms] by (simp add: zip_path_def)

text \<open>
  C20: a name template that references a field the module's properties lack makes the
  packaging fail with \<open>KeyError\<close> naming the field, as the spec requires of an unknown
  field.
\<close>

theorem zip_path_unknown_field:
  assumes "DOLLAR \<notin> set t" and "valid_id n" and "map_of m n = None"
  shows "zip_path (t @ DOLLAR # CHR ''{'' # n @ CHR ''}'' # r) m = Inl (KeyError n)"
  using assms by (simp add: zip_path_def substitute_plain substitute_braced)

subsection \<open>Witnesses\<close>

theorem zip_path_render_witness:
  "zip_path (render [Field ''id'', Text ''-'', Field ''version'', Text ''.zip''])
     [(''id'', ''py2droid''), (''version'', ''v0.2.0'')] = Inr [''dist'', ''py2droid-v0.2.0.zip'']"
proof -
  have v: "\<forall>n. Field n \<in> set [Field ''id'', Text ''-'', Field ''version'', Text ''.zip''] \<longrightarrow>
      valid_id n"
    by (auto simp: valid_id_def model_eval)
  show ?thesis using zip_path_render [OF v] by (simp add: model_eval)
qed

theorem zip_path_unknown_field_witness:
  "zip_path (''py2droid-'' @ DOLLAR # CHR ''{'' # ''versionCode'' @ CHR ''}'' # ''.zip'') [(''id'', ''py2droid'')] =
   Inl (KeyError ''versionCode'')"
proof -
  have "DOLLAR \<notin> set ''py2droid-''" and "valid_id ''versionCode''"
    and "map_of [(''id'', ''py2droid'')] ''versionCode'' = None"
    by (simp_all add: valid_id_def model_eval)
  from zip_path_unknown_field [OF this] show ?thesis .
qed

end
