(* ===== verification/Source.thy ===== *)
theory Source
  imports Process ModuleProp
begin

text \<open>
  The source pipeline, \<open>CPythonBuilder\<close> of \<open>build.py\<close> (lines 99--279): download
  the source archive, extract it, apply the patches, find the NDK toolchain, build the
  environment and cross-compile one prefix per host.  Each stage is a computation of
  \<open>Exc\<close> over the \<open>world\<close> of \<open>Process\<close>; external commands go through \<open>run\<close>.
  \<open>tarfile\<close> is a parameter \<open>T\<close> that reads an archive's bytes as its members in
  order (\<open>None\<close> when the bytes are not an archive); \<open>extractall\<close> writes each member
  at the path \<open>os.path.join\<close> gives, with \<open>..\<close> resolved as the operating system
  resolves it, creating missing parent directories.  Reading through a symbolic link
  is not modelled: the build directory holds no links, and the model raises
  \<open>FileNotFoundError\<close> there.
\<close>

record src_cfg =
  apply_patches :: bool
  build_hosts :: "string list"
  configure_args :: "string list"
  configure_env :: env
  cpython_version :: string

type_synonym tar_lib = "bytes \<Rightarrow> (string \<times> entry) list option"

definition BUILD_DIR :: path where
  "BUILD_DIR = [''build'']"

definition PATCHES_DIR :: path where
  "PATCHES_DIR = [''patches'']"

definition source_archive_url :: string where
  "source_archive_url = ''https://github.com/python/cpython/archive/refs/tags/''"

subsection \<open>Paths and files\<close>

fun norm_rev :: "path \<Rightarrow> path \<Rightarrow> path" where
  "norm_rev acc [] = rev acc"
| "norm_rev acc (n # ns) =
     (if n = ''..'' then (if acc = [] \<or> acc = [''/''] then norm_rev acc ns else norm_rev (tl acc) ns)
      else norm_rev (n # acc) ns)"

definition norm_path :: "path \<Rightarrow> path" where
  "norm_path p = norm_rev [] p"

definition read_bytes :: "fs \<Rightarrow> path \<Rightarrow> py_error + bytes" where
  "read_bytes fs p =
     (case map_of fs p of
        Some (File c) \<Rightarrow> Inr c
      | Some Dir \<Rightarrow> Inl (IsADirectoryError p)
      | Some (Symlink ToDir) \<Rightarrow> Inl (IsADirectoryError p)
      | _ \<Rightarrow> Inl (FileNotFoundError p))"

definition put_entry :: "path \<Rightarrow> entry \<Rightarrow> fs \<Rightarrow> fs" where
  "put_entry p e fs =
     AList.update p e
       (fold (\<lambda>a fs. if map_of fs a = None then AList.update a Dir fs else fs)
          (filter (\<lambda>a. a \<noteq> [] \<and> a \<noteq> p \<and> a \<noteq> [''/'']) (prefixes p)) fs)"

subsection \<open>The stages\<close>

definition curl_cmd :: "path \<Rightarrow> string \<Rightarrow> cmd" where
  "curl_cmd out url = \<lparr>argv = [''curl'', ''-Lf'', ''--retry'', ''5'', ''--retry-all-errors'', ''-o'',
     path_str out, url], cmd_cwd = [], cmd_env = None\<rparr>"

definition tarball_name :: "src_cfg \<Rightarrow> string" where
  "tarball_name cfg = ''v'' @ cpython_version cfg @ ''.tar.gz''"

definition download :: "ext \<Rightarrow> src_cfg \<Rightarrow> (world, path) exc" where
  "download X cfg w =
     (let p = BUILD_DIR @ [tarball_name cfg] in
      if exists (files w) p then (Inr p, w)
      else ebind (run X True (curl_cmd p (source_archive_url @ tarball_name cfg))) (\<lambda>_. ereturn p) w)"

definition extract_source :: "tar_lib \<Rightarrow> path \<Rightarrow> (world, path) exc" where
  "extract_source T tarball w =
     (case read_bytes (files w) tarball of
        Inl e \<Rightarrow> (Inl e, w)
      | Inr data \<Rightarrow>
          (case T data of
             None \<Rightarrow> (Inl (ReadError ''file could not be opened successfully''), w)
           | Some [] \<Rightarrow> (Inl (IndexError ''list index out of range''), w)
           | Some (mh # ms) \<Rightarrow>
               (let src = path_join BUILD_DIR (path_parts (fst mh)) in
                if exists (files w) src then (Inr src, w)
                else (Inr src, w\<lparr>files := fold (\<lambda>(m, e). put_entry
                                       (norm_path (path_join BUILD_DIR (path_parts m))) e)
                                     (mh # ms) (files w)\<rparr>))))"

definition already_applied_msg :: string where
  "already_applied_msg = ''Reversed (or previously applied) patch detected!''"

definition is_patch_name :: "string \<Rightarrow> bool" where
  "is_patch_name n \<longleftrightarrow> take 1 n \<noteq> ''.'' \<and> suffix ''.patch'' n"

definition patch_files :: "fs \<Rightarrow> path list" where
  "patch_files fs = filter (\<lambda>q. is_patch_name (last q)) (children fs PATCHES_DIR)"

definition patch_cmd :: "path \<Rightarrow> path \<Rightarrow> cmd" where
  "patch_cmd src p = \<lparr>argv = [''patch'', ''-Np1'', ''-sr'', ''-'', ''-i'', path_str ([''..'', ''..''] @ p)],
     cmd_cwd = src, cmd_env = None\<rparr>"

definition apply_patch :: "ext \<Rightarrow> path \<Rightarrow> path \<Rightarrow> (world, unit) exc" where
  "apply_patch X src p w =
     (if map_option is_file (map_of (files w) p) = Some True then
        (case run X False (patch_cmd src p) w of
           (Inr (rc, out), w') \<Rightarrow>
             if rc = 0 \<or> sublist already_applied_msg out then (Inr (), w')
             else (Inl (CalledProcessError rc (argv (patch_cmd src p))), w')
         | (Inl e, w') \<Rightarrow> (Inl e, w'))
      else (Inr (), w))"

definition apply_patches_stage :: "ext \<Rightarrow> path \<Rightarrow> (world, unit) exc" where
  "apply_patches_stage X src w = eforeach (apply_patch X src) (patch_files (files w)) w"

text \<open>\<^verbatim>\<open>re.search("(?m)^ndk_version=(.+)$", content)\<close>: the rest of the first line that
  starts with \<open>ndk_version=\<close> and has at least one more character.\<close>

fun ndk_version :: "string list \<Rightarrow> string option" where
  "ndk_version [] = None"
| "ndk_version (l # ls) =
     (if take 12 l = ''ndk_version='' \<and> drop 12 l \<noteq> [] then Some (drop 12 l) else ndk_version ls)"

definition ndk_prebuilt :: "string \<Rightarrow> string \<Rightarrow> path" where
  "ndk_prebuilt home v =
     path_join (path_parts home @ [''ndk'']) (path_parts v) @ [''toolchains'', ''llvm'', ''prebuilt'']"

definition find_ndk_toolchain :: "path \<Rightarrow> (world, path) exc" where
  "find_ndk_toolchain src w =
     (let f = src @ [''Android'', ''android-env.sh''] in
      case read_bytes (files w) f of
        Inl e \<Rightarrow> (Inl e, w)
      | Inr content \<Rightarrow>
          (case ndk_version (split_on NL (translate_newlines content)) of
             None \<Rightarrow> (Inl (BuilderError (''Failed to parse NDK version from file: '' @ path_str f)), w)
           | Some v \<Rightarrow>
               (case map_of (environ w) ''ANDROID_HOME'' of
                  None \<Rightarrow> (Inl (KeyError ''ANDROID_HOME''), w)
                | Some home \<Rightarrow>
                    (let prebuilt = ndk_prebuilt home v in
                     case iterdir (files w) prebuilt of
                       Inl e \<Rightarrow> (Inl e, w)
                     | Inr [] \<Rightarrow> (Inl (BuilderError (''NDK toolchain not found in '' @ path_str prebuilt)), w)
                     | Inr (t # _) \<Rightarrow> (Inr t, w)))))"

definition create_env :: "src_cfg \<Rightarrow> path \<Rightarrow> env \<Rightarrow> env" where
  "create_env cfg t environ0 =
     (let env = fold (\<lambda>(k, v). AList.update k v) (configure_env cfg) environ0;
          env = update_env_path env ''PATH'' [path_str (t @ [''bin''])]
      in update_env_path env ''LIBRARY_PATH'' [path_str (t @ [''lib''])])"

definition android_cmd :: "path \<Rightarrow> env option \<Rightarrow> string list \<Rightarrow> cmd" where
  "android_cmd src e args = \<lparr>argv = ''./android.py'' # args, cmd_cwd = src @ [''Android''], cmd_env = e\<rparr>"

definition host_prefix :: "path \<Rightarrow> string \<Rightarrow> path" where
  "host_prefix src host = src @ [''cross-build'', host, ''prefix'']"

definition configure_host_cmd :: "src_cfg \<Rightarrow> path \<Rightarrow> env \<Rightarrow> string \<Rightarrow> cmd" where
  "configure_host_cmd cfg src env host =
     android_cmd src (Some env) ([''configure-host'', host, ''--''] @ configure_args cfg)"

definition make_host_cmd :: "path \<Rightarrow> string \<Rightarrow> cmd" where
  "make_host_cmd src host = android_cmd src None [''make-host'', host]"

definition build_host :: "ext \<Rightarrow> src_cfg \<Rightarrow> path \<Rightarrow> env \<Rightarrow> string \<Rightarrow> (world, unit) exc" where
  "build_host X cfg src env host w =
     (if exists (files w) (host_prefix src host) then (Inr (), w)
      else ebind (run X True (configure_host_cmd cfg src env host))
             (\<lambda>_. ebind (run X True (make_host_cmd src host)) (\<lambda>_. ereturn ())) w)"

definition setup_build :: "ext \<Rightarrow> path \<Rightarrow> (world, unit) exc" where
  "setup_build X src w =
     (if exists (files w) (src @ [''cross-build'', ''build'']) then (Inr (), w)
      else ebind (run X True (android_cmd src None [''configure-build'']))
             (\<lambda>_. ebind (run X True (android_cmd src None [''make-build''])) (\<lambda>_. ereturn ())) w)"

definition build_hosts_stage :: "ext \<Rightarrow> src_cfg \<Rightarrow> path \<Rightarrow> env \<Rightarrow> (world, unit) exc" where
  "build_hosts_stage X cfg src env =
     ebind (setup_build X src) (\<lambda>_. eforeach (build_host X cfg src env) (build_hosts cfg))"

definition cpython_build :: "ext \<Rightarrow> tar_lib \<Rightarrow> src_cfg \<Rightarrow> (world, path \<times> path) exc" where
  "cpython_build X T cfg =
     ebind (download X cfg) (\<lambda>tarball.
     ebind (extract_source T tarball) (\<lambda>src.
     ebind (if apply_patches cfg then apply_patches_stage X src else ereturn ()) (\<lambda>_.
     ebind (find_ndk_toolchain src) (\<lambda>t.
     ebind (eget (\<lambda>w. create_env cfg t (environ w))) (\<lambda>env.
     ebind (build_hosts_stage X cfg src env) (\<lambda>_. ereturn (src, t)))))))"


subsection \<open>A concrete tree for the witnesses\<close>

text \<open>A configuration for two hosts, an archive whose first member is
  \<open>cpython-3.13.0\<close>, a tool that succeeds and whose \<open>make-host\<close> creates the host's
  prefix, and a tree where the archive, the sources and the first host's prefix exist.\<close>

definition ex_cfg :: src_cfg where
  "ex_cfg = \<lparr>apply_patches = False, build_hosts = [''aarch64-linux-android'', ''x86_64-linux-android''],
     configure_args = [], configure_env = [], cpython_version = ''3.13.0''\<rparr>"

definition ex_src :: path where
  "ex_src = [''build'', ''cpython-3.13.0'']"

definition ex_tar :: tar_lib where
  "ex_tar d = Some [(''cpython-3.13.0'', Dir),
     (''cpython-3.13.0/Android/android-env.sh'', File (''ndk_version=27.1'' @ [NL]))]"

definition ex_tool :: ext where
  "ex_tool c fs = ((0, []),
     if take 2 (argv c) = [''./android.py'', ''make-host''] \<and> c = make_host_cmd ex_src (argv c ! 2)
     then AList.update (host_prefix ex_src (argv c ! 2)) Dir fs else fs)"

definition ex_fail_tool :: ext where
  "ex_fail_tool c fs =
     (if c = configure_host_cmd ex_cfg ex_src [] ''x86_64-linux-android'' then ((1, []), fs) else ex_tool c fs)"

definition ex_ndk :: fs where
  "ex_ndk = [([''/''], Dir), ([''/'', ''sdk''], Dir), ([''/'', ''sdk'', ''ndk''], Dir),
     ([''/'', ''sdk'', ''ndk'', ''27.1''], Dir), ([''/'', ''sdk'', ''ndk'', ''27.1'', ''toolchains''], Dir),
     ([''/'', ''sdk'', ''ndk'', ''27.1'', ''toolchains'', ''llvm''], Dir),
     ([''/'', ''sdk'', ''ndk'', ''27.1'', ''toolchains'', ''llvm'', ''prebuilt''], Dir),
     ([''/'', ''sdk'', ''ndk'', ''27.1'', ''toolchains'', ''llvm'', ''prebuilt'', ''linux-x86_64''], Dir)]"

definition ex_tree :: "string list \<Rightarrow> world" where
  "ex_tree hs = \<lparr>files = [([''build''], Dir), ([''build'', ''v3.13.0.tar.gz''], File ''tar''),
       ([''build'', ''cpython-3.13.0''], Dir), ([''build'', ''cpython-3.13.0'', ''Android''], Dir),
       ([''build'', ''cpython-3.13.0'', ''Android'', ''android-env.sh''], File (''ndk_version=27.1'' @ [NL])),
       ([''build'', ''cpython-3.13.0'', ''cross-build''], Dir),
       ([''build'', ''cpython-3.13.0'', ''cross-build'', ''build''], Dir)] @
       map (\<lambda>h. (host_prefix ex_src h, Dir)) hs @ ex_ndk,
     cmds = [], environ = [(''ANDROID_HOME'', ''/sdk''), (''PATH'', ''/usr/bin'')]\<rparr>"


text \<open>Hypotheses on the tools: the host builds succeed, and only \<open>make-host h\<close> can
  create or remove the prefix of host \<open>h\<close>.\<close>

definition hosts_succeed :: "ext \<Rightarrow> src_cfg \<Rightarrow> path \<Rightarrow> env \<Rightarrow> string list \<Rightarrow> bool" where
  "hosts_succeed X cfg src env hs \<longleftrightarrow>
     (\<forall>h \<in> set hs. \<forall>fs. fst (fst (X (configure_host_cmd cfg src env h) fs)) = 0 \<and>
                        fst (fst (X (make_host_cmd src h) fs)) = 0)"

definition only_make_host_builds :: "ext \<Rightarrow> path \<Rightarrow> string list \<Rightarrow> bool" where
  "only_make_host_builds X src hs \<longleftrightarrow>
     (\<forall>c fs h. h \<in> set hs \<and> c \<noteq> make_host_cmd src h \<longrightarrow>
        exists (snd (X c fs)) (host_prefix src h) = exists fs (host_prefix src h))"

definition host_cmds :: "src_cfg \<Rightarrow> path \<Rightarrow> env \<Rightarrow> string list \<Rightarrow> cmd list" where
  "host_cmds cfg src env hs = concat (map (\<lambda>h. [configure_host_cmd cfg src env h, make_host_cmd src h]) hs)"

definition same_prefix :: "path \<Rightarrow> string \<Rightarrow> world \<Rightarrow> world \<Rightarrow> bool" where
  "same_prefix src h w w' \<longleftrightarrow> exists (files w') (host_prefix src h) = exists (files w) (host_prefix src h)"

text \<open>Hypotheses for progress: \<open>make-host h\<close> leaves the prefix of \<open>h\<close> installed,
  and the build-platform steps succeed.  \<open>kept_prefix\<close> relates two states when a prefix
  present in the first is present in the second.\<close>

definition make_host_installs :: "ext \<Rightarrow> path \<Rightarrow> string list \<Rightarrow> bool" where
  "make_host_installs X src hs \<longleftrightarrow>
     (\<forall>h \<in> set hs. \<forall>fs. exists (snd (X (make_host_cmd src h) fs)) (host_prefix src h))"

definition setup_succeeds :: "ext \<Rightarrow> path \<Rightarrow> bool" where
  "setup_succeeds X src \<longleftrightarrow>
     (\<forall>fs. fst (fst (X (android_cmd src None [''configure-build'']) fs)) = 0 \<and>
           fst (fst (X (android_cmd src None [''make-build'']) fs)) = 0)"

definition kept_prefix :: "path \<Rightarrow> string \<Rightarrow> world \<Rightarrow> world \<Rightarrow> bool" where
  "kept_prefix src h w w' \<longleftrightarrow> (exists (files w) (host_prefix src h) \<longrightarrow> exists (files w') (host_prefix src h))"

lemmas source_eval [model_eval] = BUILD_DIR_def PATCHES_DIR_def source_archive_url_def tarball_name_def
  norm_path_def read_bytes_def put_entry_def curl_cmd_def download_def extract_source_def
  already_applied_msg_def is_patch_name_def patch_files_def patch_cmd_def apply_patch_def
  apply_patches_stage_def ndk_prebuilt_def find_ndk_toolchain_def create_env_def android_cmd_def host_prefix_def
  configure_host_cmd_def make_host_cmd_def build_host_def setup_build_def build_hosts_stage_def
  cpython_build_def sublist_Cons_right ex_cfg_def ex_src_def ex_tar_def ex_tool_def ex_fail_tool_def ex_ndk_def
  ex_tree_def

subsection \<open>Paths and extraction\<close>

lemma map_of_put_entry [simp]: "map_of (put_entry p e fs) p = Some e"
  by (simp add: put_entry_def update_conv')

lemma norm_rev_no_up: "''..'' \<notin> set q \<Longrightarrow> norm_rev acc q = rev acc @ q"
  by (induction acc q rule: norm_rev.induct) auto

lemma norm_build_up: "''..'' \<notin> set q \<Longrightarrow> norm_path (path_join BUILD_DIR (''..'' # q)) = q"
  by (simp add: norm_path_def path_join_def BUILD_DIR_def norm_rev_no_up)

subsection \<open>Every stage keeps the environment and the command log\<close>

lemma keeps_download [keeps_intros]: "keeps grows (download X cfg)"
  by (auto simp: keeps_def download_def Let_def preorder_rel_def grows_def
      dest: keeps_D [OF keeps_bind [OF preorder_grows keeps_run keeps_return [OF preorder_grows]]])

lemma keeps_extract_source [keeps_intros]: "keeps grows (extract_source T tb)"
  by (auto simp: keeps_def extract_source_def Let_def grows_def
      split: sum.splits option.splits list.splits if_splits)

lemma keeps_apply_patch [keeps_intros]: "keeps grows (apply_patch X src p)"
  by (auto simp: keeps_def apply_patch_def grows_def dest!: run_effect
      split: prod.splits sum.splits if_splits)

lemma keeps_apply_patches_stage [keeps_intros]: "keeps grows (apply_patches_stage X src)"
  unfolding keeps_def
proof (intro allI impI)
  fix s r s'
  assume "apply_patches_stage X src s = (r, s')"
  then have run: "eforeach (apply_patch X src) (patch_files (files s)) s = (r, s')"
    by (simp add: apply_patches_stage_def)
  have "keeps grows (eforeach (apply_patch X src) (patch_files (files s)))"
    by (rule keeps_foreach [OF preorder_grows keeps_apply_patch])
  from keeps_D [OF this run] show "grows s s'" .
qed

lemma find_ndk_toolchain_state [simp]: "snd (find_ndk_toolchain src w) = w"
  by (simp add: find_ndk_toolchain_def Let_def split: sum.split option.split list.split)

lemma keeps_find_ndk_toolchain [keeps_intros]: "keeps grows (find_ndk_toolchain src)"
  unfolding keeps_def
  by (metis find_ndk_toolchain_state preorder_grows preorder_rel_def snd_conv)

lemma keeps_build_host [keeps_intros]: "keeps grows (build_host X cfg src env h)"
  unfolding build_host_def
  by (intro keeps_cond keeps_bind keeps_run keeps_return preorder_grows)
    (simp add: keeps_def preorder_rel_def grows_def)

lemma keeps_setup_build [keeps_intros]: "keeps grows (setup_build X src)"
  unfolding setup_build_def
  by (intro keeps_cond keeps_bind keeps_run keeps_return preorder_grows)
    (simp add: keeps_def preorder_rel_def grows_def)

lemma keeps_build_hosts_stage [keeps_intros]: "keeps grows (build_hosts_stage X cfg src env)"
  unfolding build_hosts_stage_def
  by (intro keeps_bind keeps_foreach keeps_setup_build keeps_build_host preorder_grows)

subsection \<open>Resuming\<close>

lemma configure_make_distinct [simp]:
  "configure_host_cmd cfg src env h \<noteq> make_host_cmd src h'"
  "make_host_cmd src h = make_host_cmd src h' \<longleftrightarrow> h = h'"
  by (simp_all add: configure_host_cmd_def make_host_cmd_def android_cmd_def)

lemma eforeach_skip: "\<forall>x \<in> set xs. f x s = (Inr (), s) \<Longrightarrow> eforeach f xs s = (Inr (), s)"
  by (induction xs) (simp_all add: ereturn_def)

lemma build_hosts_loop:
  assumes "distinct hs" and "hosts_succeed X cfg src env hs" and "only_make_host_builds X src hs"
  shows "\<exists>w'. eforeach (build_host X cfg src env) hs w = (Inr (), w') \<and>
     cmds w' = cmds w @ host_cmds cfg src env (filter (\<lambda>h. \<not> exists (files w) (host_prefix src h)) hs)"
  using assms
proof (induction hs arbitrary: w)
  case Nil
  then show ?case by (simp add: ereturn_def host_cmds_def)
next
  case (Cons h hs)
  have ok: "hosts_succeed X cfg src env hs" "only_make_host_builds X src hs"
    using Cons.prems(2,3) by (auto simp: hosts_succeed_def only_make_host_builds_def)
  show ?case
  proof (cases "exists (files w) (host_prefix src h)")
    case True
    then have "build_host X cfg src env h w = (Inr (), w)" by (simp add: build_host_def)
    with True Cons.IH [OF _ ok, of w] Cons.prems(1) show ?thesis by simp
  next
    case False
    have "fst (fst (X (configure_host_cmd cfg src env h) (files w))) = 0"
      using Cons.prems(2) by (simp add: hosts_succeed_def)
    then obtain out1 fs1 where x1: "X (configure_host_cmd cfg src env h) (files w) = ((0, out1), fs1)"
      by (cases "X (configure_host_cmd cfg src env h) (files w)") auto
    have "fst (fst (X (make_host_cmd src h) fs1)) = 0"
      using Cons.prems(2) by (simp add: hosts_succeed_def)
    then obtain out2 fs2 where x2: "X (make_host_cmd src h) fs1 = ((0, out2), fs2)"
      by (cases "X (make_host_cmd src h) fs1") auto
    define w2 where "w2 = w\<lparr>files := fs2,
      cmds := cmds w @ [configure_host_cmd cfg src env h, make_host_cmd src h]\<rparr>"
    have step: "build_host X cfg src env h w = (Inr (), w2)"
      using False by (simp add: build_host_def run_def x1 x2 w2_def ebind_def ereturn_def)
    have same: "exists (files w2) (host_prefix src h') = exists (files w) (host_prefix src h')"
      if "h' \<in> set hs" for h'
    proof -
      have "h' \<noteq> h" using that Cons.prems(1) by auto
      have k: "\<And>c fs. c \<noteq> make_host_cmd src h' \<Longrightarrow>
          exists (snd (X c fs)) (host_prefix src h') = exists fs (host_prefix src h')"
        using Cons.prems(3) that unfolding only_make_host_builds_def by simp
      have "exists fs2 (host_prefix src h') = exists fs1 (host_prefix src h')"
        using k [of "make_host_cmd src h" fs1] x2 \<open>h' \<noteq> h\<close> by simp
      moreover have "exists fs1 (host_prefix src h') = exists (files w) (host_prefix src h')"
        using k [of "configure_host_cmd cfg src env h" "files w"] x1 by simp
      ultimately have "exists fs2 (host_prefix src h') = exists (files w) (host_prefix src h')"
        by simp
      then show ?thesis by (simp add: w2_def)
    qed
    then have "filter (\<lambda>h. \<not> exists (files w2) (host_prefix src h)) hs =
        filter (\<lambda>h. \<not> exists (files w) (host_prefix src h)) hs"
      by (intro filter_cong) simp_all
    moreover obtain w' where "eforeach (build_host X cfg src env) hs w2 = (Inr (), w') \<and>
        cmds w' = cmds w2 @ host_cmds cfg src env (filter (\<lambda>h. \<not> exists (files w2) (host_prefix src h)) hs)"
      using Cons.IH [OF _ ok, of w2] Cons.prems(1) by auto
    ultimately show ?thesis using step False
      by (simp add: host_cmds_def w2_def)
  qed
qed

lemma read_bytes_exists: "read_bytes fs p = Inr d \<Longrightarrow> exists fs p"
  by (auto simp: read_bytes_def exists_def split: option.splits entry.splits link_target.splits)

lemma download_skip:
  "exists (files w) (BUILD_DIR @ [tarball_name cfg]) \<Longrightarrow>
     download X cfg w = (Inr (BUILD_DIR @ [tarball_name cfg]), w)"
  by (simp add: download_def)

lemma extract_skip:
  "read_bytes (files w) tb = Inr d \<Longrightarrow> T d = Some (mh # ms) \<Longrightarrow>
     exists (files w) (path_join BUILD_DIR (path_parts (fst mh))) \<Longrightarrow>
     extract_source T tb w = (Inr (path_join BUILD_DIR (path_parts (fst mh))), w)"
  by (simp add: extract_source_def)

lemma setup_build_skip:
  "exists (files w) (src @ [''cross-build'', ''build'']) \<Longrightarrow> setup_build X src w = (Inr (), w)"
  by (simp add: setup_build_def)

lemma build_hosts_skip:
  "exists (files w) (src @ [''cross-build'', ''build'']) \<Longrightarrow>
     \<forall>h \<in> set hs. exists (files w) (host_prefix src h) \<Longrightarrow>
     eforeach (build_host X cfg src env) hs w = (Inr (), w)"
  by (rule eforeach_skip) (simp add: build_host_def)

text \<open>The pipeline up to the host builds, over a tree whose archive and source tree are
  present and without patches, changes nothing.\<close>

lemma cpython_build_prefix:
  assumes "read_bytes (files w) (BUILD_DIR @ [tarball_name cfg]) = Inr d"
    and "T d = Some (mh # ms)" and "src = path_join BUILD_DIR (path_parts (fst mh))"
    and "exists (files w) src" and "\<not> apply_patches cfg"
  shows "cpython_build X T cfg w =
     (case find_ndk_toolchain src w of
        (Inl e, _) \<Rightarrow> (Inl e, w)
      | (Inr t, _) \<Rightarrow> ebind (build_hosts_stage X cfg src (create_env cfg t (environ w)))
                       (\<lambda>_. ereturn (src, t)) w)"
proof -
  have "exists (files w) (BUILD_DIR @ [tarball_name cfg])" using assms(1) by (rule read_bytes_exists)
  then have d: "download X cfg w = (Inr (BUILD_DIR @ [tarball_name cfg]), w)" by (rule download_skip)
  have e: "extract_source T (BUILD_DIR @ [tarball_name cfg]) w = (Inr src, w)"
    using extract_skip [of w "BUILD_DIR @ [tarball_name cfg]" d T mh ms] assms(1-4) by simp
  obtain r where f: "find_ndk_toolchain src w = (r, w)"
    using find_ndk_toolchain_state [of src w] by (cases "find_ndk_toolchain src w") simp
  show ?thesis
    using assms(5) d e f by (cases r) (simp_all add: cpython_build_def eget_def ereturn_def)
qed

text \<open>
  C23: resumability of a finished build: when the source archive, the extracted tree,
  the build-platform artefacts and every host's prefix are on disk (and patches are
  off), a rerun of the source pipeline starts no command and changes no file, whatever
  the outcome of the toolchain lookup.
\<close>

theorem cpython_build_finished_noop:
  assumes "read_bytes (files w) (BUILD_DIR @ [tarball_name cfg]) = Inr d"
    and "T d = Some (mh # ms)" and "src = path_join BUILD_DIR (path_parts (fst mh))"
    and "exists (files w) src" and "\<not> apply_patches cfg"
    and "exists (files w) (src @ [''cross-build'', ''build''])"
    and "\<forall>h \<in> set (build_hosts cfg). exists (files w) (host_prefix src h)"
  shows "snd (cpython_build X T cfg w) = w"
proof -
  have "build_hosts_stage X cfg src env w = (Inr (), w)" for env
    using setup_build_skip [OF assms(6)] build_hosts_skip [OF assms(6,7)]
    by (simp add: build_hosts_stage_def)
  then show ?thesis
    by (simp add: cpython_build_prefix [of w cfg d T mh ms src X, OF assms(1-5)] ereturn_def split: prod.split sum.split)
qed

text \<open>
  C24: resuming at the next incomplete host: over a tree with the archive, the
  extracted sources and the build-platform artefacts, the pipeline starts exactly
  \<open>configure-host\<close> (with the toolchain environment) and \<open>make-host\<close> (with the
  inherited environment) for each host whose prefix is missing, in the configured order,
  and nothing for the others, when the host builds succeed.
\<close>

theorem cpython_build_resumes_hosts:
  assumes "read_bytes (files w) (BUILD_DIR @ [tarball_name cfg]) = Inr d"
    and "T d = Some (mh # ms)" and "src = path_join BUILD_DIR (path_parts (fst mh))"
    and "exists (files w) src" and "\<not> apply_patches cfg"
    and "exists (files w) (src @ [''cross-build'', ''build''])"
    and "find_ndk_toolchain src w = (Inr t, w)"
    and "distinct (build_hosts cfg)"
    and "hosts_succeed X cfg src (create_env cfg t (environ w)) (build_hosts cfg)"
    and "only_make_host_builds X src (build_hosts cfg)"
  shows "\<exists>w'. cpython_build X T cfg w = (Inr (src, t), w') \<and>
           cmds w' = cmds w @ host_cmds cfg src (create_env cfg t (environ w))
                                (filter (\<lambda>h. \<not> exists (files w) (host_prefix src h)) (build_hosts cfg))"
proof -
  obtain w' where loop:
    "eforeach (build_host X cfg src (create_env cfg t (environ w))) (build_hosts cfg) w = (Inr (), w')"
    and c: "cmds w' = cmds w @ host_cmds cfg src (create_env cfg t (environ w))
              (filter (\<lambda>h. \<not> exists (files w) (host_prefix src h)) (build_hosts cfg))"
    using build_hosts_loop [OF assms(8-10), of w] by blast
  have "build_hosts_stage X cfg src (create_env cfg t (environ w)) w = (Inr (), w')"
    using setup_build_skip [OF assms(6)] loop by (simp add: build_hosts_stage_def)
  then show ?thesis
    using c assms(7) by (simp add: cpython_build_prefix [of w cfg d T mh ms src X, OF assms(1-5)] ereturn_def)
qed

lemma preorder_same_prefix [simp]: "preorder_rel (same_prefix src h)"
  by (simp add: preorder_rel_def same_prefix_def)

lemma keeps_same_prefix_run:
  "\<forall>fs. exists (snd (X c fs)) (host_prefix src h) = exists fs (host_prefix src h) \<Longrightarrow>
     keeps (same_prefix src h) (run X check c)"
  unfolding keeps_def same_prefix_def
proof (intro allI impI)
  fix w r w'
  assume "\<forall>fs. exists (snd (X c fs)) (host_prefix src h) = exists fs (host_prefix src h)"
    and "run X check c w = (r, w')"
  then show "exists (files w') (host_prefix src h) = exists (files w) (host_prefix src h)"
    using run_effect [of X check c w r w'] by simp
qed

lemma keeps_same_prefix_build_host:
  assumes "only_make_host_builds X src hs" and "h \<in> set hs" and "h' \<noteq> h"
  shows "keeps (same_prefix src h) (build_host X cfg src env h')"
proof -
  have "\<forall>fs. exists (snd (X c fs)) (host_prefix src h) = exists fs (host_prefix src h)"
    if "c \<noteq> make_host_cmd src h" for c
    using assms(1,2) that by (simp add: only_make_host_builds_def)
  with assms(3) show ?thesis unfolding build_host_def
    by (intro keeps_cond keeps_bind keeps_same_prefix_run keeps_return preorder_same_prefix)
       (simp_all add: keeps_def same_prefix_def)
qed

text \<open>
  C25: a failing host aborts the rest: when \<open>configure-host\<close> fails for a host whose
  prefix is missing, the loop raises \<open>CalledProcessError\<close> with that command, and the
  commands started are those of the earlier incomplete hosts followed by the failing
  one: no command of a later host runs.
\<close>

theorem build_hosts_abort:
  assumes "distinct (pre @ h # post)"
    and "hosts_succeed X cfg src env pre" and "only_make_host_builds X src (pre @ [h])"
    and "\<not> exists (files w) (host_prefix src h)"
    and "\<forall>fs. fst (fst (X (configure_host_cmd cfg src env h) fs)) \<noteq> 0"
  shows "\<exists>rc w'. eforeach (build_host X cfg src env) (pre @ h # post) w =
             (Inl (CalledProcessError rc (argv (configure_host_cmd cfg src env h))), w') \<and>
           cmds w' = cmds w @ host_cmds cfg src env (filter (\<lambda>h. \<not> exists (files w) (host_prefix src h)) pre) @
                     [configure_host_cmd cfg src env h]"
proof -
  have pre: "distinct pre" "only_make_host_builds X src pre"
    using assms(1,3) by (auto simp: only_make_host_builds_def)
  obtain w1 where l: "eforeach (build_host X cfg src env) pre w = (Inr (), w1)"
    and c1: "cmds w1 = cmds w @ host_cmds cfg src env (filter (\<lambda>h. \<not> exists (files w) (host_prefix src h)) pre)"
    using build_hosts_loop [OF pre(1) assms(2) pre(2), of w] by blast
  have "keeps (same_prefix src h) (eforeach (build_host X cfg src env) pre)"
    using assms(1,3) by (intro keeps_foreach_in preorder_same_prefix ballI keeps_same_prefix_build_host)
      auto
  from keeps_D [OF this l] assms(4) have "\<not> exists (files w1) (host_prefix src h)"
    by (simp add: same_prefix_def)
  then have "build_host X cfg src env h w1 =
      (Inl (CalledProcessError (fst (fst (X (configure_host_cmd cfg src env h) (files w1))))
             (argv (configure_host_cmd cfg src env h))),
       w1\<lparr>files := snd (X (configure_host_cmd cfg src env h) (files w1)),
          cmds := cmds w1 @ [configure_host_cmd cfg src env h]\<rparr>)"
    using assms(5) by (simp add: build_host_def run_fail)
  with l c1 show ?thesis by (simp add: eforeach_append)
qed

text \<open>
  C26: the whole source pipeline, whatever the tools do and wherever it stops, leaves
  \<open>os.environ\<close> as it was (the build environment is a copy) and only appends to the
  log of started commands.
\<close>

theorem cpython_build_keeps_environ:
  assumes "cpython_build X T cfg w = (r, w')"
  shows "environ w' = environ w \<and> prefix (cmds w) (cmds w')"
proof -
  have "keeps grows (cpython_build X T cfg)"
    unfolding cpython_build_def
    by (intro keeps_bind keeps_if keeps_get keeps_return keeps_download keeps_extract_source
        keeps_apply_patches_stage keeps_find_ndk_toolchain keeps_build_hosts_stage preorder_grows)
  from keeps_D [OF this assms] show ?thesis by (simp add: grows_def)
qed

text \<open>
  C27: a patch run is accepted when \<open>patch\<close> exits with 0 or when its output reports
  a reversed or already applied patch, whatever its exit code; any other failure raises
  \<open>CalledProcessError\<close>.  The spec's open question is real: a patch that no longer
  applies but reports one reversed hunk is taken as applied.
\<close>

theorem apply_patch_outcome:
  assumes "map_of (files w) p = Some e" and "is_file e"
    and "X (patch_cmd src p) (files w) = ((rc, out), fs')"
  shows "fst (apply_patch X src p w) =
           (if rc = 0 \<or> sublist already_applied_msg out then Inr ()
            else Inl (CalledProcessError rc (argv (patch_cmd src p))))"
  using assms by (simp add: apply_patch_def run_def)

text \<open>
  C28: extraction trusts the archive: when the sources are not yet extracted, the
  archive's last member, if its name is \<open>../q\<close> with no further \<open>..\<close>, is written at
  \<open>q\<close> relative to the project, outside the build directory (over
  \<open>module/module.prop\<close> for \<open>../module/module.prop\<close>); the spec requires members that
  escape the destination to be rejected.
\<close>

theorem extract_source_path_traversal:
  assumes "read_bytes (files w) tb = Inr d" and "T d = Some (mh # ms)"
    and "\<not> exists (files w) (path_join BUILD_DIR (path_parts (fst mh)))"
    and "last (mh # ms) = (m, e)" and "path_parts m = ''..'' # q" and "''..'' \<notin> set q"
  shows "\<exists>w'. extract_source T tb w = (Inr (path_join BUILD_DIR (path_parts (fst mh))), w') \<and>
           map_of (files w') q = Some e"
proof -
  let ?f = "\<lambda>(m, e). put_entry (norm_path (path_join BUILD_DIR (path_parts m))) e"
  have dec: "mh # ms = butlast (mh # ms) @ [(m, e)]"
    using assms(4) by (metis append_butlast_last_id list.distinct(1))
  have "fold ?f (mh # ms) (files w) = fold ?f (butlast (mh # ms) @ [(m, e)]) (files w)"
    by (subst (1) dec) (rule refl)
  then have "fold ?f (mh # ms) (files w) = ?f (m, e) (fold ?f (butlast (mh # ms)) (files w))"
    by (simp only: fold_append comp_apply fold_Cons fold_Nil id_apply)
  moreover have "?f (m, e) fs = put_entry q e fs" for fs
    using assms(5,6) by (simp add: norm_build_up)
  ultimately show ?thesis
    using assms(1-3) by (simp add: extract_source_def Let_def)
qed

text \<open>
  C29: a missing NDK version directory is not reported as the spec's "toolchain not
  found": \<open>prebuilt.iterdir()\<close> raises \<open>FileNotFoundError\<close> before \<open>next\<close> can
  return its default, so \<open>BuilderError\<close> is raised only for an existing, empty
  \<open>prebuilt\<close> directory.
\<close>

theorem find_ndk_toolchain_missing_ndk:
  assumes "read_bytes (files w) (src @ [''Android'', ''android-env.sh'']) = Inr content"
    and "ndk_version (split_on NL (translate_newlines content)) = Some v"
    and "map_of (environ w) ''ANDROID_HOME'' = Some home"
    and "map_of (files w) (ndk_prebuilt home v) = None"
  shows "fst (find_ndk_toolchain src w) = Inl (FileNotFoundError (ndk_prebuilt home v))"
  using assms by (simp add: find_ndk_toolchain_def iterdir_def)


subsection \<open>Witnesses\<close>


lemma ex_tool_only_make_host_builds: "only_make_host_builds ex_tool ex_src hs"
  unfolding only_make_host_builds_def
proof (intro allI impI)
  fix c fs h
  assume a: "h \<in> set hs \<and> c \<noteq> make_host_cmd ex_src h"
  show "exists (snd (ex_tool c fs)) (host_prefix ex_src h) = exists fs (host_prefix ex_src h)"
  proof (cases "take 2 (argv c) = [''./android.py'', ''make-host''] \<and> c = make_host_cmd ex_src (argv c ! 2)")
    case True
    with a have "argv c ! 2 \<noteq> h" by auto
    then have "host_prefix ex_src (argv c ! 2) \<noteq> host_prefix ex_src h" by (simp add: host_prefix_def)
    with True show ?thesis by (simp add: ex_tool_def exists_def update_conv')
  next
    case False
    then show ?thesis by (auto simp: ex_tool_def)
  qed
qed

lemma ex_fail_tool_only_make_host_builds: "only_make_host_builds ex_fail_tool ex_src hs"
  unfolding only_make_host_builds_def
proof (intro allI impI)
  fix c fs h
  assume a: "h \<in> set hs \<and> c \<noteq> make_host_cmd ex_src h"
  show "exists (snd (ex_fail_tool c fs)) (host_prefix ex_src h) = exists fs (host_prefix ex_src h)"
  proof (cases "c = configure_host_cmd ex_cfg ex_src [] ''x86_64-linux-android''")
    case False
    then have "snd (ex_fail_tool c fs) = snd (ex_tool c fs)" by (simp add: ex_fail_tool_def)
    with a ex_tool_only_make_host_builds [of hs] show ?thesis
      unfolding only_make_host_builds_def by simp
  qed (simp add: ex_fail_tool_def)
qed
theorem cpython_build_finished_noop_witness:
  "snd (cpython_build ex_tool ex_tar ex_cfg (ex_tree [''aarch64-linux-android'', ''x86_64-linux-android''])) =
   ex_tree [''aarch64-linux-android'', ''x86_64-linux-android'']"
  by (rule cpython_build_finished_noop [where d = "''tar''" and mh = "(''cpython-3.13.0'', Dir)"
        and src = ex_src]) (simp_all add: model_eval)

theorem cpython_build_resumes_hosts_witness:
  "\<exists>w'. cpython_build ex_tool ex_tar ex_cfg (ex_tree [''aarch64-linux-android'']) =
     (Inr (ex_src, [''/'', ''sdk'', ''ndk'', ''27.1'', ''toolchains'', ''llvm'', ''prebuilt'', ''linux-x86_64'']), w') \<and>
     cmds w' = cmds (ex_tree [''aarch64-linux-android'']) @
       host_cmds ex_cfg ex_src
         (create_env ex_cfg [''/'', ''sdk'', ''ndk'', ''27.1'', ''toolchains'', ''llvm'', ''prebuilt'', ''linux-x86_64'']
            (environ (ex_tree [''aarch64-linux-android''])))
         (filter (\<lambda>h. \<not> exists (files (ex_tree [''aarch64-linux-android''])) (host_prefix ex_src h))
            (build_hosts ex_cfg))"
  by (rule cpython_build_resumes_hosts [where d = "''tar''" and mh = "(''cpython-3.13.0'', Dir)"])
    (simp_all add: model_eval ex_tool_only_make_host_builds [unfolded ex_src_def] hosts_succeed_def)

theorem build_hosts_abort_witness:
  "\<exists>rc w'. eforeach (build_host ex_fail_tool ex_cfg ex_src []) ([''aarch64-linux-android''] @ ''x86_64-linux-android'' # [])
       (ex_tree []) =
     (Inl (CalledProcessError rc (argv (configure_host_cmd ex_cfg ex_src [] ''x86_64-linux-android''))), w') \<and>
     cmds w' = cmds (ex_tree []) @
       host_cmds ex_cfg ex_src [] (filter (\<lambda>h. \<not> exists (files (ex_tree [])) (host_prefix ex_src h))
         [''aarch64-linux-android'']) @ [configure_host_cmd ex_cfg ex_src [] ''x86_64-linux-android'']"
  by (rule build_hosts_abort)
    (simp_all add: model_eval hosts_succeed_def ex_fail_tool_only_make_host_builds [unfolded ex_src_def])

theorem cpython_build_keeps_environ_witness:
  "environ (snd (cpython_build ex_tool ex_tar ex_cfg (ex_tree []))) = environ (ex_tree []) \<and>
   prefix (cmds (ex_tree [])) (cmds (snd (cpython_build ex_tool ex_tar ex_cfg (ex_tree []))))"
  using cpython_build_keeps_environ [of ex_tool ex_tar ex_cfg "ex_tree []"
      "fst (cpython_build ex_tool ex_tar ex_cfg (ex_tree []))"
      "snd (cpython_build ex_tool ex_tar ex_cfg (ex_tree []))"]
  by simp

theorem apply_patch_outcome_witness:
  "fst (apply_patch (\<lambda>c fs. ((1, already_applied_msg @ '' Skipping patch.''), fs)) ex_src
      [''patches'', ''0001-fix.patch'']
      \<lparr>files = [([''patches''], Dir), ([''patches'', ''0001-fix.patch''], File ''diff'')], cmds = [],
       environ = []\<rparr>) = Inr ()"
proof -
  have "fst (apply_patch (\<lambda>c fs. ((1, already_applied_msg @ '' Skipping patch.''), fs)) ex_src
      [''patches'', ''0001-fix.patch'']
      \<lparr>files = [([''patches''], Dir), ([''patches'', ''0001-fix.patch''], File ''diff'')], cmds = [],
       environ = []\<rparr>) =
    (if 1 = (0::int) \<or> sublist already_applied_msg (already_applied_msg @ '' Skipping patch.'') then Inr ()
     else Inl (CalledProcessError 1 (argv (patch_cmd ex_src [''patches'', ''0001-fix.patch'']))))"
    by (rule apply_patch_outcome [where e = "File ''diff''"]) simp_all
  then show ?thesis by simp
qed

theorem find_ndk_toolchain_missing_ndk_witness:
  "fst (find_ndk_toolchain ex_src
      \<lparr>files = [([''build'', ''cpython-3.13.0'', ''Android'', ''android-env.sh''], File (''ndk_version=27.1'' @ [NL]))],
       cmds = [], environ = [(''ANDROID_HOME'', ''/sdk'')]\<rparr>) =
   Inl (FileNotFoundError (ndk_prebuilt ''/sdk'' ''27.1''))"
  by (rule find_ndk_toolchain_missing_ndk [where content = "''ndk_version=27.1'' @ [NL]"])
    (simp_all add: model_eval)


subsection \<open>Progress: every host gets its prefix\<close>

lemma preorder_kept_prefix [simp]: "preorder_rel (kept_prefix src h)"
  by (simp add: preorder_rel_def kept_prefix_def)

lemma keeps_kept_prefix_build_host:
  assumes "only_make_host_builds X src hs" and "make_host_installs X src hs" and "h \<in> set hs"
  shows "keeps (kept_prefix src h) (build_host X cfg src env h')"
proof -
  have "exists (snd (X c fs)) (host_prefix src h)" if "exists fs (host_prefix src h)" for c fs
    using assms that unfolding only_make_host_builds_def make_host_installs_def
    by (cases "c = make_host_cmd src h") simp_all
  then have r: "keeps (kept_prefix src h) (run X True c)" for c
    by (auto simp: keeps_def kept_prefix_def dest: run_effect)
  show ?thesis unfolding build_host_def
    by (intro keeps_cond keeps_bind r keeps_return preorder_kept_prefix)
       (simp_all add: keeps_def kept_prefix_def)
qed

lemma build_host_installs:
  assumes "hosts_succeed X cfg src env hs" and "make_host_installs X src hs" and "h \<in> set hs"
  shows "\<exists>w'. build_host X cfg src env h w = (Inr (), w') \<and> exists (files w') (host_prefix src h)"
proof (cases "exists (files w) (host_prefix src h)")
  case True
  then show ?thesis by (simp add: build_host_def)
next
  case False
  have ok: "\<forall>fs. fst (fst (X (configure_host_cmd cfg src env h) fs)) = 0"
    "\<forall>fs. fst (fst (X (make_host_cmd src h) fs)) = 0"
    using assms(1,3) by (simp_all add: hosts_succeed_def)
  have mk: "\<forall>fs. exists (snd (X (make_host_cmd src h) fs)) (host_prefix src h)"
    using assms(2,3) by (simp add: make_host_installs_def)
  show ?thesis
    using False ok mk by (simp add: build_host_def run_ok ebind_def ereturn_def)
qed

lemma build_hosts_loop_installs:
  assumes "hosts_succeed X cfg src env hs" and "only_make_host_builds X src hs"
    and "make_host_installs X src hs"
  shows "set hs' \<subseteq> set hs \<Longrightarrow> \<exists>w'. eforeach (build_host X cfg src env) hs' w = (Inr (), w') \<and>
           (\<forall>h \<in> set hs'. exists (files w') (host_prefix src h))"
proof (induction hs' arbitrary: w)
  case Nil
  then show ?case by (simp add: ereturn_def)
next
  case (Cons h hs')
  obtain w1 where s: "build_host X cfg src env h w = (Inr (), w1)"
    and e1: "exists (files w1) (host_prefix src h)"
    using build_host_installs [OF assms(1,3), of h w] Cons.prems by auto
  obtain w' where l: "eforeach (build_host X cfg src env) hs' w1 = (Inr (), w')"
    and e': "\<forall>h \<in> set hs'. exists (files w') (host_prefix src h)"
    using Cons.IH [of w1] Cons.prems by auto
  have "keeps (kept_prefix src h) (eforeach (build_host X cfg src env) hs')"
    using Cons.prems by (intro keeps_foreach preorder_kept_prefix keeps_kept_prefix_build_host [OF assms(2,3)]) simp
  from keeps_D [OF this l] e1 have "exists (files w') (host_prefix src h)"
    by (simp add: kept_prefix_def)
  with s l e' show ?case by simp
qed

lemma setup_build_ok: "setup_succeeds X src \<Longrightarrow> \<exists>w'. setup_build X src w = (Inr (), w')"
  by (simp add: setup_succeeds_def setup_build_def run_ok ebind_def ereturn_def)

text \<open>C22: every configured host gets its prefix: when the build-platform steps and
  every host's \<open>configure-host\<close> and \<open>make-host\<close> succeed, \<open>make-host h\<close> installs the
  prefix of \<open>h\<close> and no other command removes it, the host stage of
  \<open>CPythonBuilder.build\<close> returns, and then the prefix of every host of
  \<open>build_hosts\<close> exists, those that were missing and those that were already there.\<close>

theorem build_hosts_stage_installs:
  assumes "setup_succeeds X src" and "hosts_succeed X cfg src env (build_hosts cfg)"
    and "only_make_host_builds X src (build_hosts cfg)" and "make_host_installs X src (build_hosts cfg)"
  shows "\<exists>w'. build_hosts_stage X cfg src env w = (Inr (), w') \<and>
           (\<forall>h \<in> set (build_hosts cfg). exists (files w') (host_prefix src h))"
proof -
  obtain w1 where "setup_build X src w = (Inr (), w1)" using setup_build_ok [OF assms(1)] by blast
  moreover obtain w' where "eforeach (build_host X cfg src env) (build_hosts cfg) w1 = (Inr (), w')"
    and "\<forall>h \<in> set (build_hosts cfg). exists (files w') (host_prefix src h)"
    using build_hosts_loop_installs [OF assms(2-4), of "build_hosts cfg" w1] by blast
  ultimately show ?thesis by (simp add: build_hosts_stage_def)
qed

theorem build_hosts_stage_installs_witness:
  "\<exists>w'. build_hosts_stage ex_tool ex_cfg ex_src [] (ex_tree []) = (Inr (), w') \<and>
     (\<forall>h \<in> set (build_hosts ex_cfg). exists (files w') (host_prefix ex_src h))"
proof (rule build_hosts_stage_installs)
  show "setup_succeeds ex_tool ex_src" by (simp add: setup_succeeds_def ex_tool_def)
  show "hosts_succeed ex_tool ex_cfg ex_src [] (build_hosts ex_cfg)" by (simp add: hosts_succeed_def ex_tool_def)
  show "only_make_host_builds ex_tool ex_src (build_hosts ex_cfg)" by (rule ex_tool_only_make_host_builds)
  show "make_host_installs ex_tool ex_src (build_hosts ex_cfg)"
    by (simp add: make_host_installs_def ex_tool_def make_host_cmd_def android_cmd_def exists_def update_conv')
qed


theorem extract_source_path_traversal_witness:
  "\<exists>w'. extract_source (\<lambda>_. Some [(''cpython-3.13.0'', Dir), (''../module/module.prop'', File ''id=evil'')])
        [''build'', ''v3.13.0.tar.gz'']
        \<lparr>files = [([''build''], Dir), ([''build'', ''v3.13.0.tar.gz''], File ''tar''), ([''module''], Dir),
                  ([''module'', ''module.prop''], File ''id=py2droid'')], cmds = [], environ = []\<rparr> =
      (Inr [''build'', ''cpython-3.13.0''], w') \<and>
     map_of (files w') [''module'', ''module.prop''] = Some (File ''id=evil'')"
proof -
  have "path_join BUILD_DIR (path_parts (fst (''cpython-3.13.0'', Dir))) = [''build'', ''cpython-3.13.0'']"
    by (simp add: model_eval)
  moreover have "path_parts ''../module/module.prop'' = ''..'' # [''module'', ''module.prop'']"
    by (simp add: model_eval)
  ultimately show ?thesis
    using extract_source_path_traversal [of "\<lparr>files = [([''build''], Dir), ([''build'', ''v3.13.0.tar.gz''], File ''tar''),
        ([''module''], Dir), ([''module'', ''module.prop''], File ''id=py2droid'')], cmds = [], environ = []\<rparr>"
      "[''build'', ''v3.13.0.tar.gz'']" "''tar''"
      "\<lambda>_. Some [(''cpython-3.13.0'', Dir), (''../module/module.prop'', File ''id=evil'')]"
      "(''cpython-3.13.0'', Dir)" "[(''../module/module.prop'', File ''id=evil'')]"
      "''../module/module.prop''" "File ''id=evil''" "[''module'', ''module.prop'']"]
    by (simp add: model_eval)
qed

end
