(* ===== verification/Assembly.thy ===== *)
theory Assembly
  imports Source Packaging Template
begin

text \<open>
  The packaging pipeline as a whole, \<open>ModuleBuilder\<close> of \<open>build.py\<close> (lines
  282--534): the CA bundle, the per-host stages on the prefix
  \<open>source_code/cross-build/host/prefix\<close> (debloat, directive rewriting, symbol
  stripping, compression) and the ZIP.  A stage that works on one prefix sees the
  subtree below it (\<open>subtree\<close>) and its result is put back (\<open>graft\<close>).  The
  libraries are parameters (\<open>pkg_libs\<close>): wcmatch's matcher, the bytes \<open>tarfile\<close>
  writes for a tree and the bytes \<open>zipfile\<close> writes for a list of entries, and
  \<open>sys.platform\<close>.  \<open>Path.walk(follow_symlinks=False)\<close> is \<open>walk_files\<close>, a
  depth-first preorder walk; its fuel is the number of entries of the file system,
  which bounds the depth of any directory.
\<close>

record module_cfg =
  cfg_debloat :: bool
  debloat_patterns :: "debloat_rule list"
  cfg_fix_shebangs :: bool
  cfg_include :: "path list"
  name_tpl :: string
  cfg_strip :: bool
  strip_args :: "string list"

record pkg_libs =
  wc :: matcher
  tar_pack :: "fs \<Rightarrow> bytes"
  zip_pack :: "(string \<times> bytes) list \<Rightarrow> bytes"
  sys_platform :: string

definition arch_mapping :: "(string \<times> string) list" where
  "arch_mapping =
     [(''aarch64-linux-android'', ''arm64''), (''arm-linux-androideabi'', ''arm''),
      (''armv7a-linux-androideabi'', ''arm''), (''i686-linux-android'', ''x86''),
      (''x86_64-linux-android'', ''x64'')]"

definition description_of :: "string \<Rightarrow> string" where
  "description_of v = ''CPython '' @ v @ '' for Android''"

definition compressed_name :: "string \<Rightarrow> string" where
  "compressed_name arch = ''cpython-'' @ arch @ ''.tar.xz''"

definition MODULE_DIR :: path where
  "MODULE_DIR = [''module'']"

definition cacert_path :: path where
  "cacert_path = BUILD_DIR @ [''cacert.pem'']"

subsection \<open>One prefix as a tree of its own\<close>

definition subtree :: "path \<Rightarrow> fs \<Rightarrow> fs" where
  "subtree p fs = map (\<lambda>(q, e). (drop (length p) q, e)) (filter (\<lambda>(q, e). strict_prefix p q) fs)"

definition graft :: "path \<Rightarrow> fs \<Rightarrow> fs \<Rightarrow> fs" where
  "graft p t fs = filter (\<lambda>(q, e). \<not> strict_prefix p q) fs @ map (\<lambda>(q, e). (p @ q, e)) t"

definition rebase_error :: "path \<Rightarrow> py_error \<Rightarrow> py_error" where
  "rebase_error p e =
     (case e of FileNotFoundError q \<Rightarrow> FileNotFoundError (p @ q)
      | NotADirectoryError q \<Rightarrow> NotADirectoryError (p @ q) | _ \<Rightarrow> e)"

subsection \<open>The stages\<close>

definition download_and_include_cacert :: "ext \<Rightarrow> path list \<Rightarrow> (world, path list) exc" where
  "download_and_include_cacert X incl w =
     (if exists (files w) cacert_path then (Inr (incl @ [cacert_path]), w)
      else ebind (run X True (curl_cmd cacert_path ''https://curl.se/ca/cacert.pem''))
             (\<lambda>_. ereturn (incl @ [cacert_path])) w)"

definition debloat_stage :: "matcher \<Rightarrow> debloat_rule list \<Rightarrow> path \<Rightarrow> (world, unit) exc" where
  "debloat_stage m rules p w =
     (Inr (), w\<lparr>files := graft p (debloat m rules (subtree p (files w))) (files w)\<rparr>)"

definition fix_shebangs_stage :: "path \<Rightarrow> (world, unit) exc" where
  "fix_shebangs_stage p w =
     (case fix_shebangs (subtree p (files w)) of
        Inl e \<Rightarrow> (Inl (rebase_error p e), w)
      | Inr t \<Rightarrow> (Inr (), w\<lparr>files := graft p t (files w)\<rparr>))"

definition strip_patterns :: "string list" where
  "strip_patterns = [''bin/*'', ''lib/**/*.{so,a}'']"

definition llvm_strip :: "string \<Rightarrow> string" where
  "llvm_strip platform = ''llvm-strip'' @ (if platform = ''nt'' then ''.exe'' else [])"

definition strip_cmd :: "pkg_libs \<Rightarrow> string list \<Rightarrow> env \<Rightarrow> path \<Rightarrow> path \<Rightarrow> cmd" where
  "strip_cmd L args env p q =
     \<lparr>argv = llvm_strip (sys_platform L) # args @ [path_str q], cmd_cwd = p, cmd_env = Some env\<rparr>"

definition strip_one :: "ext \<Rightarrow> pkg_libs \<Rightarrow> string list \<Rightarrow> env \<Rightarrow> path \<Rightarrow> path \<Rightarrow> (world, unit) exc" where
  "strip_one X L args env p q w =
     (case map_of (subtree p (files w)) q of
        Some (File _) \<Rightarrow> ebind (run X False (strip_cmd L args env p q)) (\<lambda>_. ereturn ()) w
      | _ \<Rightarrow> (Inr (), w))"

text \<open>wcmatch yields each path once, pattern after pattern, each in walk order.\<close>

definition glob_unique :: "matcher \<Rightarrow> string list \<Rightarrow> fs \<Rightarrow> path list" where
  "glob_unique m pats fs =
     remdups (concat (map (\<lambda>pat. filter (glob_selects m pats pat) (map fst fs))
                        (filter (\<lambda>n. \<not> is_negated n) pats)))"

definition strip_stage :: "ext \<Rightarrow> pkg_libs \<Rightarrow> path \<Rightarrow> string list \<Rightarrow> path \<Rightarrow> (world, unit) exc" where
  "strip_stage X L t args p w =
     (let env = update_env_path (environ w) ''PATH'' [path_str (t @ [''bin''])] in
      eforeach (strip_one X L args env p) (glob_unique (wc L) strip_patterns (subtree p (files w))) w)"

definition archive_tree :: "path \<Rightarrow> fs \<Rightarrow> fs" where
  "archive_tree p fs = ([last p], Dir) # map (\<lambda>(q, e). (last p # q, e)) (subtree p fs)"

definition compress :: "pkg_libs \<Rightarrow> string \<Rightarrow> path \<Rightarrow> (world, path) exc" where
  "compress L host p w =
     (case map_of arch_mapping host of
        None \<Rightarrow> (Inl (KeyError host), w)
      | Some arch \<Rightarrow>
          (let tb = BUILD_DIR @ [compressed_name arch] in
           if exists (files w) p
           then (Inr tb, w\<lparr>files := put_entry tb (File (tar_pack L (archive_tree p (files w)))) (files w)\<rparr>)
           else (Inl (FileNotFoundError p), w\<lparr>files := put_entry tb (File (tar_pack L [])) (files w)\<rparr>)))"


subsection \<open>The ZIP\<close>

fun walk_files :: "nat \<Rightarrow> fs \<Rightarrow> path \<Rightarrow> path list" where
  "walk_files 0 fs p = []"
| "walk_files (Suc n) fs p =
     (let cs = children fs p in
      filter (\<lambda>q. map_of fs q \<noteq> Some Dir) cs @
      concat (map (walk_files n fs) (filter (\<lambda>q. map_of fs q = Some Dir) cs)))"

definition entry_is_file :: "fs \<Rightarrow> path \<Rightarrow> bool" where
  "entry_is_file fs p \<longleftrightarrow> map_option is_file (map_of fs p) = Some True"

text \<open>The entries one item of \<open>(MODULE_DIR, *tarballs, *include)\<close> adds, in order, and
  the exception that stops the writing, if any.\<close>

fun read_all :: "fs \<Rightarrow> (string \<times> path) list \<Rightarrow> (string \<times> bytes) list \<times> py_error option" where
  "read_all fs [] = ([], None)"
| "read_all fs ((n, q) # qs) =
     (case read_bytes fs q of
        Inl e \<Rightarrow> ([], Some e)
      | Inr c \<Rightarrow> (case read_all fs qs of (es, err) \<Rightarrow> ((n, c) # es, err)))"

definition item_files :: "fs \<Rightarrow> path \<Rightarrow> (string \<times> path) list" where
  "item_files fs e =
     (if entry_is_file fs e then [(last e, e)]
      else map (\<lambda>q. (join ''/'' (drop (length e) q), q))
             (filter (\<lambda>q. last q \<noteq> ''module.prop'') (walk_files (length fs) fs e)))"

definition zip_entries :: "string \<Rightarrow> fs \<Rightarrow> path list \<Rightarrow> (string \<times> bytes) list \<times> py_error option" where
  "zip_entries prop fs items =
     (case read_all fs (concat (map (item_files fs) items)) of
        (es, err) \<Rightarrow> ((''module.prop'', prop) # es, err))"

definition package_module :: "pkg_libs \<Rightarrow> module_cfg \<Rightarrow> string \<Rightarrow> path list \<Rightarrow> path list \<Rightarrow> (world, unit) exc" where
  "package_module L cfg desc tarballs incl w =
     (case read_bytes (files w) (MODULE_DIR @ [''module.prop'']) of
        Inl e \<Rightarrow> (Inl e, w)
      | Inr text \<Rightarrow>
          (let props = AList.update ''description'' desc (parse_module_prop text) in
           case zip_path (name_tpl cfg) props of
             Inl e \<Rightarrow> (Inl e, w)
           | Inr zp \<Rightarrow>
               (case zip_entries (format_module_prop props) (files w) (MODULE_DIR # tarballs @ incl) of
                  (es, err) \<Rightarrow>
                    (case err of None \<Rightarrow> Inr () | Some e \<Rightarrow> Inl e,
                     w\<lparr>files := put_entry zp (File (zip_pack L es)) (files w)\<rparr>))))"

definition host_stages :: "ext \<Rightarrow> pkg_libs \<Rightarrow> module_cfg \<Rightarrow> path \<Rightarrow> path \<Rightarrow> string \<Rightarrow> (world, path) exc" where
  "host_stages X L cfg t src host =
     (let p = host_prefix src host in
      ebind (if cfg_debloat cfg then debloat_stage (wc L) (debloat_patterns cfg) p else ereturn ()) (\<lambda>_.
      ebind (if cfg_fix_shebangs cfg then fix_shebangs_stage p else ereturn ()) (\<lambda>_.
      ebind (if cfg_strip cfg then strip_stage X L t (strip_args cfg) p else ereturn ()) (\<lambda>_.
      compress L host p))))"

definition module_build ::
  "ext \<Rightarrow> pkg_libs \<Rightarrow> module_cfg \<Rightarrow> path \<Rightarrow> string \<Rightarrow> string list \<Rightarrow> path \<Rightarrow> (world, unit) exc" where
  "module_build X L cfg t version hosts src =
     ebind (download_and_include_cacert X (cfg_include cfg)) (\<lambda>incl.
     ebind (emap (host_stages X L cfg t src) hosts) (\<lambda>tarballs.
     package_module L cfg (description_of version) tarballs incl))"


subsection \<open>A concrete module for the examples\<close>

text \<open>A matcher with the wcmatch answers for the patterns of the examples, a
  configuration with the spec's two debloat rules, and a project tree whose prefixes hold
  a manual page, a static library, a shared library (whose bytes name the host) and a
  script, with the sources at \<open>s\<close>.\<close>

definition ex_match :: matcher where
  "ex_match pat p \<longleftrightarrow>
     (pat = ''share/**'' \<and> prefix [''share''] p) \<or> (pat = ''lib/*.a'' \<and> p = [''lib'', ''libpython.a'']) \<or>
     (pat = ''bin/*'' \<and> length p = 2 \<and> hd p = ''bin'') \<or>
     (pat = ''lib/**/*.{so,a}'' \<and> (p = [''lib'', ''libpython.a''] \<or> p = [''lib'', ''libpython.so'']))"

definition ex_mcfg :: module_cfg where
  "ex_mcfg = \<lparr>cfg_debloat = True, debloat_patterns = [Pattern ''share/**'', Conditional ''lib/*.a'' [''file'']],
     cfg_fix_shebangs = True, cfg_include = [], name_tpl = ''py2droid-${version}.zip'', cfg_strip = True,
     strip_args = [''--strip-unneeded'']\<rparr>"

definition ex_prefix :: "string \<Rightarrow> fs" where
  "ex_prefix h = [([''share''], Dir), ([''share'', ''man''], Dir), ([''share'', ''man'', ''python.1''], File ''man''),
     ([''lib''], Dir), ([''lib'', ''libpython.a''], File ''a''), ([''lib'', ''libpython.so''], File h),
     ([''bin''], Dir), ([''bin'', ''pip''], File (''#!/usr/bin/python3'' @ [NL] @ ''x''))]"

definition ex_project :: "string list \<Rightarrow> world" where
  "ex_project hs = \<lparr>files = [([''module''], Dir),
       ([''module'', ''module.prop''], File (''id=py2droid'' @ [NL] @ ''version=v0.2.0'' @ [NL])),
       ([''module'', ''customize.sh''], File ''echo''), ([''build''], Dir), ([''build'', ''cacert.pem''], File ''pem''),
       ([''dist''], Dir)] @
       concat (map (\<lambda>h. (host_prefix [''s''] h, Dir) # map (\<lambda>(q, e). (host_prefix [''s''] h @ q, e)) (ex_prefix h)) hs),
     cmds = [], environ = [(''PATH'', ''/usr/bin'')]\<rparr>"

text \<open>Packers for the examples: the TAR lists the paths it holds, the ZIP its entry names.\<close>

definition ex_libs :: pkg_libs where
  "ex_libs = \<lparr>wc = ex_match, tar_pack = (\<lambda>fs. concat (map (\<lambda>(q, e). concat q) fs)),
     zip_pack = (\<lambda>es. concat (map fst es)), sys_platform = ''linux''\<rparr>"

lemmas assembly_eval [model_eval] = arch_mapping_def description_of_def compressed_name_def
  MODULE_DIR_def cacert_path_def subtree_def graft_def rebase_error_def
  download_and_include_cacert_def debloat_stage_def fix_shebangs_stage_def strip_patterns_def
  llvm_strip_def strip_cmd_def strip_one_def glob_unique_def strip_stage_def archive_tree_def
  compress_def entry_is_file_def item_files_def zip_entries_def package_module_def
  host_stages_def module_build_def ex_match_def ex_mcfg_def ex_prefix_def ex_project_def
  ex_libs_def


subsection \<open>The ZIP's entries\<close>

lemma read_all_None:
  "read_all fs qs = (es, None) \<Longrightarrow>
     list_all2 (\<lambda>(n, c) (n', q). n = n' \<and> read_bytes fs q = Inr c) es qs"
  by (induction fs qs arbitrary: es rule: read_all.induct)
    (auto split: sum.splits prod.splits)

lemma read_all_names: "read_all fs qs = (es, None) \<Longrightarrow> map fst es = map fst qs"
  by (induction fs qs arbitrary: es rule: read_all.induct) (auto split: sum.splits prod.splits)

lemma zip_entries_None:
  "zip_entries prop fs items = (es, None) \<Longrightarrow>
     \<exists>es'. read_all fs (concat (map (item_files fs) items)) = (es', None) \<and> es = (''module.prop'', prop) # es'"
  by (auto simp: zip_entries_def split: prod.splits)

lemma item_file_name_in:
  "q \<in> set items \<Longrightarrow> item_files fs q = [(n, q)] \<Longrightarrow>
     n \<in> set (map fst (concat (map (item_files fs) items)))"
  by force

lemma filter_fst_length: "n \<in> set (map fst es) \<Longrightarrow> 1 \<le> length (filter (\<lambda>(m, c). m = n) es)"
  by (induction es) auto

lemma item_files_dir_names:
  "\<not> entry_is_file fs e \<Longrightarrow> (n, q) \<in> set (item_files fs e) \<Longrightarrow> last q \<noteq> ''module.prop''"
  by (auto simp: item_files_def)

text \<open>
  C30: a successful \<open>_package_module\<close> writes one ZIP at the path the name template
  gives: first \<open>module.prop\<close>, the module's properties with \<open>description\<close> overwritten,
  serialised by \<open>format_module_prop\<close>; then, in order, the files of the module directory
  (without any \<open>module.prop\<close>), each tarball and each included path, each entry holding
  the bytes of the file it names.
\<close>

theorem package_module_zip:
  assumes "package_module L cfg desc tbs incl w = (Inr (), w')"
  shows "\<exists>content zp es.
     read_bytes (files w) (MODULE_DIR @ [''module.prop'']) = Inr content \<and>
     zip_path (name_tpl cfg) (AList.update ''description'' desc (parse_module_prop content)) = Inr zp \<and>
     map_of (files w') zp = Some (File (zip_pack L
       ((''module.prop'', format_module_prop (AList.update ''description'' desc (parse_module_prop content))) # es))) \<and>
     list_all2 (\<lambda>(n, c) (n', q). n = n' \<and> read_bytes (files w) q = Inr c) es
       (concat (map (item_files (files w)) (MODULE_DIR # tbs @ incl))) \<and>
     (\<not> entry_is_file (files w) MODULE_DIR \<longrightarrow>
        (\<forall>(n, q) \<in> set (item_files (files w) MODULE_DIR). last q \<noteq> ''module.prop''))"
proof -
  obtain content where t: "read_bytes (files w) (MODULE_DIR @ [''module.prop'']) = Inr content"
    using assms by (cases "read_bytes (files w) (MODULE_DIR @ [''module.prop''])")
      (simp_all add: package_module_def)
  define props where "props = AList.update ''description'' desc (parse_module_prop content)"
  obtain zp where z: "zip_path (name_tpl cfg) props = Inr zp"
    using assms t by (cases "zip_path (name_tpl cfg) props") (simp_all add: package_module_def props_def)
  obtain es err where r: "read_all (files w) (concat (map (item_files (files w)) (MODULE_DIR # tbs @ incl))) =
      (es, err)" by fastforce
  have err: "err = None" and w': "w' = w\<lparr>files := put_entry zp (File (zip_pack L
      ((''module.prop'', format_module_prop props) # es))) (files w)\<rparr>"
    using assms t z r by (auto simp: package_module_def props_def zip_entries_def split: option.splits)
  have l: "list_all2 (\<lambda>(n, c) (n', q). n = n' \<and> read_bytes (files w) q = Inr c) es
      (concat (map (item_files (files w)) (MODULE_DIR # tbs @ incl)))"
    using r err by (simp add: read_all_None)
  have m: "map_of (files w') zp = Some (File (zip_pack L ((''module.prop'', format_module_prop props) # es)))"
    using w' by simp
  have d: "\<not> entry_is_file (files w) MODULE_DIR \<longrightarrow>
      (\<forall>(n, q) \<in> set (item_files (files w) MODULE_DIR). last q \<noteq> ''module.prop'')"
    using item_files_dir_names [of "files w" MODULE_DIR] by blast
  show ?thesis
    by (rule exI [of _ content], rule exI [of _ zp], rule exI [of _ es])
      (use t z m l d in \<open>simp add: props_def\<close>)
qed




subsection \<open>Architectures and included files\<close>

lemma last_compressed [simp]: "last (BUILD_DIR @ [compressed_name a]) = compressed_name a"
  by simp

text \<open>
  C31: two hosts with the same Magisk architecture compress to the same tarball: the
  second host's archive replaces the first, and listing both tarballs for the ZIP gives
  two entries of the same name with the same bytes.  \<open>arm-linux-androideabi\<close> and
  \<open>armv7a-linux-androideabi\<close> are such a pair.
\<close>

theorem compress_same_arch_overwrites:
  assumes "map_of arch_mapping h1 = Some a" and "map_of arch_mapping h2 = Some a"
    and "compress L h1 p1 w = (Inr tb1, w1)" and "compress L h2 p2 w1 = (Inr tb2, w2)"
  shows "tb1 = tb2 \<and>
         map_of (files w2) tb1 = Some (File (tar_pack L (archive_tree p2 (files w1)))) \<and>
         concat (map (item_files (files w2)) [tb1, tb2]) = [(compressed_name a, tb1), (compressed_name a, tb1)]"
proof -
  have tb: "tb1 = BUILD_DIR @ [compressed_name a]" "tb2 = BUILD_DIR @ [compressed_name a]"
    using assms by (auto simp: compress_def Let_def split: if_splits)
  have "exists (files w1) p2"
    using assms(2,4) by (auto simp: compress_def Let_def split: if_splits)
  then have w2: "files w2 = put_entry tb1 (File (tar_pack L (archive_tree p2 (files w1)))) (files w1)"
    using assms(2,4) tb by (auto simp: compress_def Let_def)
  then have "entry_is_file (files w2) tb1" by (simp add: entry_is_file_def)
  with w2 tb show ?thesis by (simp add: item_files_def)
qed

text \<open>
  C32: an unmapped host is found only when its prefix is compressed: with debloat on,
  the host's prefix has already been debloated when \<open>KeyError\<close> is raised, and no
  tarball or ZIP is written; the spec asks for configuration errors to be reported
  before pipeline work begins.
\<close>

theorem module_build_unmapped_host:
  assumes "map_of arch_mapping h = None" and "exists (files w) cacert_path"
    and "cfg_debloat cfg" and "\<not> cfg_fix_shebangs cfg" and "\<not> cfg_strip cfg"
  shows "module_build X L cfg t v [h] src w =
           (Inl (KeyError h), w\<lparr>files := graft (host_prefix src h)
              (debloat (wc L) (debloat_patterns cfg) (subtree (host_prefix src h) (files w))) (files w)\<rparr>)"
  using assms
  by (simp add: module_build_def download_and_include_cacert_def host_stages_def debloat_stage_def
      compress_def ereturn_def)

text \<open>
  C33: the \<open>module.prop\<close> filter applies only inside walked directories: an included
  regular file named \<open>module.prop\<close> is written as a second ZIP entry of that name, next
  to the generated one, though the spec says nested metadata files are skipped to avoid
  duplicate entries.
\<close>

theorem zip_entries_included_module_prop:
  assumes "entry_is_file fs q" and "last q = ''module.prop''" and "q \<in> set incl"
    and "zip_entries prop fs (MODULE_DIR # tbs @ incl) = (es, None)"
  shows "2 \<le> length (filter (\<lambda>(n, c). n = ''module.prop'') es)"
proof -
  obtain es' where r: "read_all fs (concat (map (item_files fs) (MODULE_DIR # tbs @ incl))) = (es', None)"
    and es: "es = (''module.prop'', prop) # es'"
    using zip_entries_None [OF assms(4)] by blast
  have names: "map fst es' = map fst (concat (map (item_files fs) (MODULE_DIR # tbs @ incl)))"
    using r by (rule read_all_names)
  have i: "item_files fs q = [(''module.prop'', q)]"
    using assms(1,2) by (simp add: item_files_def)
  have "q \<in> set (MODULE_DIR # tbs @ incl)" using assms(3) by simp
  from item_file_name_in [OF this i] have "''module.prop'' \<in> set (map fst es')" unfolding names .
  then have "1 \<le> length (filter (\<lambda>(n, c). n = ''module.prop'') es')" by (rule filter_fst_length)
  then show ?thesis unfolding es by simp
qed


subsection \<open>The walk of a directory\<close>

lemma walk_files_stable:
  assumes "\<forall>q \<in> set (map fst fs). strict_prefix p q \<longrightarrow> length q \<le> length p + k"
  shows "walk_files (Suc k) fs p = walk_files k fs p"
  using assms
proof (induction k arbitrary: p)
  case 0
  have "children fs p = []"
  proof (rule ccontr)
    assume "children fs p \<noteq> []"
    then obtain c where c: "c \<in> set (children fs p)" by (cases "children fs p") auto
    then have "c \<in> set (map fst fs)" "c \<noteq> []" "butlast c = p" by (auto simp: children_def)
    moreover from this(2,3) have "strict_prefix p c" "length c = Suc (length p)"
      by (simp_all add: butlast_strict_prefix)
    ultimately show False using "0.prems" by fastforce
  qed
  then show ?case by simp
next
  case (Suc k)
  have W: "walk_files (Suc k) fs c = walk_files k fs c" if "c \<in> set (children fs p)" for c
  proof (rule Suc.IH)
    from that have c: "c \<noteq> []" "butlast c = p" by (auto simp: children_def)
    then have pc: "strict_prefix p c" and lc: "length c = Suc (length p)" by (simp_all add: butlast_strict_prefix)
    show "\<forall>q \<in> set (map fst fs). strict_prefix c q \<longrightarrow> length q \<le> length c + k"
    proof (intro ballI impI)
      fix q assume q: "q \<in> set (map fst fs)" "strict_prefix c q"
      from pc q(2) have "strict_prefix p q" by (rule prefix_order.less_trans)
      with q(1) Suc.prems have "length q \<le> length p + Suc k" by blast
      with lc show "length q \<le> length c + k" by simp
    qed
  qed
  have m: "map (walk_files (Suc k) fs) (filter (\<lambda>q. map_of fs q = Some Dir) (children fs p)) =
      map (walk_files k fs) (filter (\<lambda>q. map_of fs q = Some Dir) (children fs p))"
  proof (rule map_cong [OF refl])
    fix c assume "c \<in> set (filter (\<lambda>q. map_of fs q = Some Dir) (children fs p))"
    then show "walk_files (Suc k) fs c = walk_files k fs c" by (intro W) simp
  qed
  show ?case by (simp only: walk_files.simps(2) Let_def m)
qed

lemma walk_files_stable_add:
  assumes "\<forall>q \<in> set (map fst fs). strict_prefix p q \<longrightarrow> length q \<le> length p + k"
  shows "walk_files (k + j) fs p = walk_files k fs p"
proof (induction j)
  case (Suc j)
  have "\<forall>q \<in> set (map fst fs). strict_prefix p q \<longrightarrow> length q \<le> length p + (k + j)"
    using assms by fastforce
  then have "walk_files (Suc (k + j)) fs p = walk_files (k + j) fs p" by (rule walk_files_stable)
  with Suc show ?case by simp
qed simp

text \<open>In a well-formed tree every proper ancestor of an entry is an entry, so an entry
  lies at most as many levels below a path as the tree has entries.\<close>

lemma wf_fs_depth:
  assumes wf: "wf_fs fs" and q: "q \<in> set (map fst fs)" and pq: "strict_prefix p q"
  shows "length q \<le> length p + length fs"
proof -
  let ?J = "{Suc (length p)..length q}"
  have lpq: "length p < length q" using pq by (rule prefix_length_less)
  have sub: "(\<lambda>j. take j q) ` ?J \<subseteq> set (map fst fs)"
  proof
    fix a assume "a \<in> (\<lambda>j. take j q) ` ?J"
    then obtain j where j: "j \<in> ?J" and a: "a = take j q" by blast
    show "a \<in> set (map fst fs)"
    proof (cases "j = length q")
      case True
      with a q show ?thesis by simp
    next
      case False
      with j have lt: "j < length q" and ge: "1 \<le> j" by auto
      have "a \<in> set (prefixes q)" using a by (simp add: take_is_prefix)
      moreover have "a \<noteq> []" and "a \<noteq> q" using a lt ge by (auto simp: take_eq_Nil)
      moreover have "\<forall>b \<in> set (prefixes q). b \<noteq> [] \<and> b \<noteq> q \<longrightarrow> map_of fs b = Some Dir"
        using wf q unfolding wf_fs_def by blast
      ultimately have "map_of fs a = Some Dir" by blast
      then show ?thesis by (force dest: map_of_SomeD)
    qed
  qed
  have inj: "inj_on (\<lambda>j. take j q) ?J"
  proof (rule inj_onI)
    fix i j assume "i \<in> ?J" "j \<in> ?J" "take i q = take j q"
    then have "length (take i q) = length (take j q)" by simp
    with \<open>i \<in> ?J\<close> \<open>j \<in> ?J\<close> show "i = j" by simp
  qed
  have "length q - length p = card ((\<lambda>j. take j q) ` ?J)" using inj by (simp add: card_image)
  also have "\<dots> \<le> card (set (map fst fs))" using sub by (simp add: card_mono)
  also have "\<dots> \<le> length fs" using card_length [of "map fst fs"] by simp
  finally show ?thesis using lpq by simp
qed

text \<open>
  The walk of \<open>_package_module\<close> needs no more fuel than the model gives it: on a
  well-formed tree, the number of entries is enough, and any larger fuel yields the same
  list of files.
\<close>

theorem walk_files_fuel:
  assumes "wf_fs fs" and "length fs \<le> k"
  shows "walk_files k fs p = walk_files (length fs) fs p"
proof -
  have "\<forall>q \<in> set (map fst fs). strict_prefix p q \<longrightarrow> length q \<le> length p + length fs"
    using wf_fs_depth [OF assms(1)] by blast
  then have "walk_files (length fs + (k - length fs)) fs p = walk_files (length fs) fs p"
    by (rule walk_files_stable_add)
  with assms(2) show ?thesis by simp
qed


subsection \<open>Witnesses\<close>

theorem compress_same_arch_overwrites_witness:
  "[''build'', ''cpython-arm.tar.xz''] = [''build'', ''cpython-arm.tar.xz''] \<and>
   map_of (files (snd (compress ex_libs ''armv7a-linux-androideabi'' [''build'']
       (snd (compress ex_libs ''arm-linux-androideabi'' [''module''] (ex_project []))))))
     [''build'', ''cpython-arm.tar.xz''] =
     Some (File (tar_pack ex_libs (archive_tree [''build'']
       (files (snd (compress ex_libs ''arm-linux-androideabi'' [''module''] (ex_project []))))))) \<and>
   concat (map (item_files (files (snd (compress ex_libs ''armv7a-linux-androideabi'' [''build'']
       (snd (compress ex_libs ''arm-linux-androideabi'' [''module''] (ex_project [])))))))
     [[''build'', ''cpython-arm.tar.xz''], [''build'', ''cpython-arm.tar.xz'']]) =
     [(compressed_name ''arm'', [''build'', ''cpython-arm.tar.xz'']),
      (compressed_name ''arm'', [''build'', ''cpython-arm.tar.xz''])]"
proof (rule compress_same_arch_overwrites)
  show "compress ex_libs ''arm-linux-androideabi'' [''module''] (ex_project []) =
      (Inr [''build'', ''cpython-arm.tar.xz''],
       snd (compress ex_libs ''arm-linux-androideabi'' [''module''] (ex_project [])))"
    by (simp add: model_eval Let_def)
  show "compress ex_libs ''armv7a-linux-androideabi'' [''build'']
      (snd (compress ex_libs ''arm-linux-androideabi'' [''module''] (ex_project []))) =
      (Inr [''build'', ''cpython-arm.tar.xz''],
       snd (compress ex_libs ''armv7a-linux-androideabi'' [''build'']
         (snd (compress ex_libs ''arm-linux-androideabi'' [''module''] (ex_project [])))))"
    by (simp add: model_eval Let_def)
qed (simp_all add: model_eval Let_def)

theorem module_build_unmapped_host_witness:
  "module_build (\<lambda>c fs. ((0, []), fs)) ex_libs (ex_mcfg\<lparr>cfg_fix_shebangs := False, cfg_strip := False\<rparr>)
     [''t''] ''v0.2.0'' [''riscv64-linux-android''] [''s''] (ex_project [''riscv64-linux-android'']) =
   (Inl (KeyError ''riscv64-linux-android''),
    (ex_project [''riscv64-linux-android''])\<lparr>files := graft (host_prefix [''s''] ''riscv64-linux-android'')
      (debloat (wc ex_libs) (debloat_patterns (ex_mcfg\<lparr>cfg_fix_shebangs := False, cfg_strip := False\<rparr>))
        (subtree (host_prefix [''s''] ''riscv64-linux-android'') (files (ex_project [''riscv64-linux-android'']))))
      (files (ex_project [''riscv64-linux-android'']))\<rparr>)"
  by (rule module_build_unmapped_host) (simp_all add: model_eval)

theorem zip_entries_included_module_prop_witness:
  "2 \<le> length (filter (\<lambda>(n, c). n = ''module.prop'')
     (fst (zip_entries ''id=x'' [([''module''], Dir), ([''module'', ''module.prop''], File ''id=x''),
        ([''extra''], Dir), ([''extra'', ''module.prop''], File ''id=y'')] (MODULE_DIR # [] @ [[''extra'', ''module.prop'']]))))"
proof (rule zip_entries_included_module_prop)
  show "zip_entries ''id=x'' [([''module''], Dir), ([''module'', ''module.prop''], File ''id=x''),
        ([''extra''], Dir), ([''extra'', ''module.prop''], File ''id=y'')] (MODULE_DIR # [] @ [[''extra'', ''module.prop'']]) =
     (fst (zip_entries ''id=x'' [([''module''], Dir), ([''module'', ''module.prop''], File ''id=x''),
        ([''extra''], Dir), ([''extra'', ''module.prop''], File ''id=y'')] (MODULE_DIR # [] @ [[''extra'', ''module.prop'']])), None)"
    by (simp add: model_eval Let_def)
qed (simp_all add: model_eval Let_def)


theorem package_module_zip_witness:
  "\<exists>content zp es.
     read_bytes (files (ex_project [])) (MODULE_DIR @ [''module.prop'']) = Inr content \<and>
     zip_path (name_tpl ex_mcfg) (AList.update ''description'' ''d'' (parse_module_prop content)) = Inr zp \<and>
     map_of (files (snd (package_module ex_libs ex_mcfg ''d'' [] [] (ex_project [])))) zp =
       Some (File (zip_pack ex_libs
         ((''module.prop'', format_module_prop (AList.update ''description'' ''d'' (parse_module_prop content))) # es))) \<and>
     list_all2 (\<lambda>(n, c) (n', q). n = n' \<and> read_bytes (files (ex_project [])) q = Inr c) es
       (concat (map (item_files (files (ex_project []))) (MODULE_DIR # [] @ [])))"
proof -
  have "package_module ex_libs ex_mcfg ''d'' [] [] (ex_project []) =
      (Inr (), snd (package_module ex_libs ex_mcfg ''d'' [] [] (ex_project [])))"
    by (simp add: model_eval Let_def)
  from package_module_zip [OF this] show ?thesis by blast
qed


end
