(* ===== verification/Orchestrator.thy ===== *)
theory Orchestrator
  imports Assembly "HOL-Library.Monad_Syntax"
begin

text \<open>
  The top level of \<open>build.py\<close> (lines 590--716): \<open>init\<close> (\<open>_prepare_environment\<close> and
  \<open>_prepare_project_directory\<close>), the \<open>--clean\<close> loop of \<open>main\<close>, the configuration
  loader (\<open>load_config\<close> and \<open>_process_raw_config\<close>) and \<open>main\<close>, which runs the source
  pipeline of \<open>Source\<close> and hands its result to the packaging pipeline of
  \<open>Assembly\<close>.  \<open>tomllib.load\<close> is a parameter that reads the file's bytes as a
  table of TOML values (\<open>None\<close> for a \<open>TOMLDecodeError\<close>); the values are strings,
  booleans, integers, arrays and tables (floats and dates are not modelled); \<open>shutil.which\<close> is a
  parameter \<open>has_tool\<close>.  The dataclasses \<open>CPythonConfig\<close> and \<open>ModuleConfig\<close> are
  the records \<open>cpython_config\<close> and \<open>module_config\<close>, whose fields hold TOML values
  of any type, as Python's do.
\<close>

datatype tval = TStr string | TBool bool | TInt int | TArr "tval list" | TTab "(string \<times> tval) list"

type_synonym toml_lib = "bytes \<Rightarrow> (string \<times> tval) list option"

definition BUILD_CONFIG :: path where
  "BUILD_CONFIG = [''build.toml'']"

definition BUILD_REQUIRED_TOOLS :: "string list" where
  "BUILD_REQUIRED_TOOLS = [''curl'', ''patch'']"

subsection \<open>init\<close>

definition prepare_build_environment :: "(string \<Rightarrow> bool) \<Rightarrow> (world, unit) exc" where
  "prepare_build_environment has_tool w =
     (if map_of (environ w) ''ANDROID_HOME'' = None
      then (Inl (BuilderError ''ANDROID_HOME environment variable is not set''), w)
      else eforeach (\<lambda>tool. if has_tool tool then ereturn ()
                           else eraise (BuilderError (''Required tool not found in PATH: '' @ tool)))
             BUILD_REQUIRED_TOOLS w)"

text \<open>\<open>path.mkdir(parents=True)\<close> of a path whose ancestors exist: an entry already there,
  even a dangling link, raises \<open>FileExistsError\<close>.\<close>

definition mkdir_new :: "path \<Rightarrow> (world, unit) exc" where
  "mkdir_new p w =
     (case map_of (files w) p of
        None \<Rightarrow> (Inr (), w\<lparr>files := put_entry p Dir (files w)\<rparr>)
      | Some _ \<Rightarrow> (Inl (FileExistsError p), w))"

definition prepare_project_directory :: "(world, unit) exc" where
  "prepare_project_directory w =
     (if \<not> exists (files w) MODULE_DIR
      then (Inl (BuilderError (''Module directory not found: '' @ path_str MODULE_DIR)), w)
      else if \<not> exists (files w) BUILD_CONFIG
      then (Inl (BuilderError (''Build configuration file not found: '' @ path_str BUILD_CONFIG)), w)
      else eforeach (\<lambda>p w. if exists (files w) p then (Inr (), w) else mkdir_new p w) [BUILD_DIR, DIST_DIR] w)"

definition init :: "(string \<Rightarrow> bool) \<Rightarrow> (world, unit) exc" where
  "init has_tool = ebind (prepare_build_environment has_tool) (\<lambda>_. prepare_project_directory)"

subsection \<open>--clean\<close>

text \<open>The body of the loop: \<open>shutil.rmtree\<close> for a directory that is not a link,
  \<open>Path.unlink\<close> for anything else.\<close>

definition remove_path :: "path \<Rightarrow> (world, unit) exc" where
  "remove_path p w =
     (case map_of (files w) p of
        None \<Rightarrow> (Inl (FileNotFoundError p), w)
      | Some Dir \<Rightarrow> (Inr (), w\<lparr>files := rmtree p (files w)\<rparr>)
      | Some _ \<Rightarrow> (Inr (), w\<lparr>files := unlink p (files w)\<rparr>))"

text \<open>\<open>chain(BUILD_DIR.iterdir(), DIST_DIR.iterdir())\<close>, with the eager \<open>iterdir\<close> of
  Python 3.13, which lists a directory when it is called: both listings are taken before
  anything is removed.  Under 3.12, where \<open>iterdir\<close> is a generator, \<open>dist\<close> is listed
  after the entries of \<open>build\<close> are gone; removing below \<open>build\<close> does not change the
  listing of \<open>dist\<close>, so the two differ only in when an unlistable \<open>dist\<close> raises.\<close>

definition clean :: "(world, unit) exc" where
  "clean w =
     (case iterdir (files w) BUILD_DIR of
        Inl e \<Rightarrow> (Inl e, w)
      | Inr bs \<Rightarrow>
          (case iterdir (files w) DIST_DIR of
             Inl e \<Rightarrow> (Inl e, w)
           | Inr ds \<Rightarrow> eforeach remove_path (bs @ ds) w))"


subsection \<open>The configuration\<close>

text \<open>\<open>config[a][b]\<close> on the table \<open>tomllib\<close> returns; subscripting anything but a table
  with a string raises \<open>TypeError\<close>.\<close>

definition lookup :: "tval \<Rightarrow> string \<Rightarrow> py_error + tval" where
  "lookup v k =
     (case v of
        TTab kv \<Rightarrow> (case map_of kv k of None \<Rightarrow> Inl (KeyError k) | Some x \<Rightarrow> Inr x)
      | TStr _ \<Rightarrow> Inl (TypeError ''string indices must be integers'')
      | TArr _ \<Rightarrow> Inl (TypeError ''list indices must be integers or slices, not str'')
      | _ \<Rightarrow> Inl (TypeError ''object is not subscriptable''))"

definition lookup2 :: "(string \<times> tval) list \<Rightarrow> string \<Rightarrow> string \<Rightarrow> py_error + tval" where
  "lookup2 tab a b = (case map_of tab a of None \<Rightarrow> Inl (KeyError a) | Some v \<Rightarrow> lookup v b)"

fun as_str :: "tval \<Rightarrow> string option" where
  "as_str (TStr s) = Some s"
| "as_str _ = None"

fun as_bool :: "tval \<Rightarrow> bool option" where
  "as_bool (TBool b) = Some b"
| "as_bool _ = None"

definition as_str_list :: "tval \<Rightarrow> string list option" where
  "as_str_list v = (case v of TArr vs \<Rightarrow> those (map as_str vs) | _ \<Rightarrow> None)"

definition as_env :: "tval \<Rightarrow> env option" where
  "as_env v = (case v of TTab kv \<Rightarrow> those (map (\<lambda>(k, x). map_option (Pair k) (as_str x)) kv) | _ \<Rightarrow> None)"

text \<open>A debloat rule: a bare pattern, or a table with a \<open>pattern\<close> and an \<open>rm_if\<close> list.\<close>

definition as_rule :: "tval \<Rightarrow> debloat_rule option" where
  "as_rule v =
     (case v of
        TStr p \<Rightarrow> Some (Pattern p)
      | TTab kv \<Rightarrow>
          do { p \<leftarrow> map_of kv ''pattern'' \<bind> as_str; ks \<leftarrow> map_of kv ''rm_if'' \<bind> as_str_list;
               Some (Conditional p ks) }
      | _ \<Rightarrow> None)"

text \<open>\<open>list(map(Path, include))\<close> iterates whatever it gets: the strings of a list, the
  characters of a string, the keys of a table.\<close>

definition as_paths :: "tval \<Rightarrow> path list option" where
  "as_paths v =
     (case v of
        TArr vs \<Rightarrow> map_option (map path_parts) (those (map as_str vs))
      | TStr s \<Rightarrow> Some (map (\<lambda>c. path_parts [c]) s)
      | TTab kv \<Rightarrow> Some (map (\<lambda>(k, _). path_parts k) kv)
      | _ \<Rightarrow> None)"

definition as_rules :: "tval \<Rightarrow> debloat_rule list option" where
  "as_rules v = (case v of TArr vs \<Rightarrow> those (map as_rule vs) | _ \<Rightarrow> None)"

definition cpython_fields :: "string list" where
  "cpython_fields = [''apply_patches'', ''build_hosts'', ''configure_args'', ''configure_env'', ''version'']"

definition module_fields :: "string list" where
  "module_fields = [''debloat'', ''debloat_patterns'', ''fix_shebangs'', ''include'', ''name'', ''strip'',
     ''strip_args'']"

text \<open>The two dataclasses as \<open>_process_raw_config\<close> builds them.  They check no types
  (\<open>slots=True, frozen=True\<close> and no \<open>__post_init__\<close>), so a field holds whatever TOML
  value the table has: only \<open>version\<close>, replaced by \<open>cpython_version.lstrip("v")\<close>, is a
  string, and only \<open>include\<close>, replaced by \<open>list(map(Path, ...))\<close>, is a list of paths;
  \<open>name\<close> holds \<open>Template(module_name)\<close>, which stores any object.\<close>

record cpython_config =
  cc_apply_patches :: tval
  cc_build_hosts :: tval
  cc_configure_args :: tval
  cc_configure_env :: tval
  cc_version :: string

record module_config =
  mc_debloat :: tval
  mc_debloat_patterns :: tval
  mc_fix_shebangs :: tval
  mc_include :: "path list"
  mc_name :: tval
  mc_strip :: tval
  mc_strip_args :: tval

text \<open>\<open>CPythonConfig(**section)\<close> and \<open>ModuleConfig(**section)\<close> on a section whose keys
  are exactly the fields: the fields' values, with the two replaced ones.\<close>

definition make_cpython_config :: "(string \<times> tval) list \<Rightarrow> string \<Rightarrow> cpython_config option" where
  "make_cpython_config kv ver =
     do { ap \<leftarrow> map_of kv ''apply_patches''; hs \<leftarrow> map_of kv ''build_hosts'';
          ca \<leftarrow> map_of kv ''configure_args''; ce \<leftarrow> map_of kv ''configure_env'';
          Some \<lparr>cc_apply_patches = ap, cc_build_hosts = hs, cc_configure_args = ca, cc_configure_env = ce,
                cc_version = ver\<rparr> }"

definition make_module_config :: "(string \<times> tval) list \<Rightarrow> path list \<Rightarrow> tval \<Rightarrow> module_config option" where
  "make_module_config kv incl nm =
     do { db \<leftarrow> map_of kv ''debloat''; rs \<leftarrow> map_of kv ''debloat_patterns'';
          fx \<leftarrow> map_of kv ''fix_shebangs''; st \<leftarrow> map_of kv ''strip''; sa \<leftarrow> map_of kv ''strip_args'';
          Some \<lparr>mc_debloat = db, mc_debloat_patterns = rs, mc_fix_shebangs = fx, mc_include = incl,
                mc_name = nm, mc_strip = st, mc_strip_args = sa\<rparr> }"

text \<open>\<open>_process_raw_config\<close>: the three lookups, the three replacements in place (the
  \<open>Path\<close> conversion raising \<open>TypeError\<close> on a value that is not an iterable of
  strings, \<open>lstrip\<close> raising \<open>AttributeError\<close> on a version that is not a string),
  then the two constructors, which raise \<open>TypeError\<close> on a missing or an unexpected key.\<close>

definition process_raw_config :: "(string \<times> tval) list \<Rightarrow> py_error + cpython_config \<times> module_config" where
  "process_raw_config tab =
     (case lookup2 tab ''module'' ''include'' of Inl e \<Rightarrow> Inl e | Inr inc \<Rightarrow>
      case lookup2 tab ''module'' ''name'' of Inl e \<Rightarrow> Inl e | Inr nm \<Rightarrow>
      case lookup2 tab ''cpython'' ''version'' of Inl e \<Rightarrow> Inl e | Inr ver \<Rightarrow>
      case as_paths inc of None \<Rightarrow> Inl (TypeError ''expected str, bytes or os.PathLike object'') | Some incl \<Rightarrow>
      case ver of
        TStr v \<Rightarrow>
          (case (map_of tab ''cpython'', map_of tab ''module'') of
             (Some (TTab ckv), Some (TTab mkv)) \<Rightarrow>
               if set (map fst ckv) \<noteq> set cpython_fields
               then Inl (TypeError ''CPythonConfig: missing or unexpected keyword argument'')
               else if set (map fst mkv) \<noteq> set module_fields
               then Inl (TypeError ''ModuleConfig: missing or unexpected keyword argument'')
               else (case (make_cpython_config ckv (dropWhile (\<lambda>c. c = CHR ''v'') v),
                           make_module_config mkv incl nm) of
                       (Some c, Some m) \<Rightarrow> Inr (c, m)
                     | _ \<Rightarrow> Inl (TypeError ''missing keyword argument''))
           | _ \<Rightarrow> Inl (TypeError ''argument after ** must be a mapping''))
      | _ \<Rightarrow> Inl (AttributeError ''lstrip''))"

definition load_config :: "toml_lib \<Rightarrow> path \<Rightarrow> (world, cpython_config \<times> module_config) exc" where
  "load_config P file w =
     (case read_bytes (files w) file of
        Inl e \<Rightarrow> (Inl e, w)
      | Inr b \<Rightarrow>
          (case P b of
             None \<Rightarrow> (Inl (BuilderError (''Failed to parse configuration file: '' @ path_str file)), w)
           | Some tab \<Rightarrow>
               if map_of tab ''cpython'' = None \<or> map_of tab ''module'' = None
               then (Inl (BuilderError (''Configuration file is missing 'cpython' or 'module' sections: '' @
                                         path_str file)), w)
               else (process_raw_config tab, w)))"

text \<open>The shapes of TOML values: what \<open>list(map(Path, ...))\<close> and \<open>lstrip\<close> accept, and
  the declared types of the other fields, which the pipelines rely on.\<close>

datatype ty = TyBool | TyStr | TyStrList | TyStrTab | TyRules | TyPaths

fun is_tstr :: "tval \<Rightarrow> bool" where
  "is_tstr (TStr _) = True"
| "is_tstr _ = False"

definition str_list_ok :: "tval \<Rightarrow> bool" where
  "str_list_ok v = (case v of TArr vs \<Rightarrow> list_all is_tstr vs | _ \<Rightarrow> False)"

definition rule_ok :: "tval \<Rightarrow> bool" where
  "rule_ok v =
     (case v of
        TStr _ \<Rightarrow> True
      | TTab kv \<Rightarrow> (case map_of kv ''pattern'' of Some p \<Rightarrow> is_tstr p | None \<Rightarrow> False) \<and>
                   (case map_of kv ''rm_if'' of Some r \<Rightarrow> str_list_ok r | None \<Rightarrow> False)
      | _ \<Rightarrow> False)"

fun has_ty :: "ty \<Rightarrow> tval \<Rightarrow> bool" where
  "has_ty TyBool v = (case v of TBool _ \<Rightarrow> True | _ \<Rightarrow> False)"
| "has_ty TyStr v = is_tstr v"
| "has_ty TyStrList v = str_list_ok v"
| "has_ty TyStrTab v = (case v of TTab kv \<Rightarrow> list_all (\<lambda>(k, x). is_tstr x) kv | _ \<Rightarrow> False)"
| "has_ty TyRules v = (case v of TArr vs \<Rightarrow> list_all rule_ok vs | _ \<Rightarrow> False)"
| "has_ty TyPaths v = (case v of TArr vs \<Rightarrow> list_all is_tstr vs | TStr _ \<Rightarrow> True | TTab _ \<Rightarrow> True | _ \<Rightarrow> False)"

definition field_ok :: "(string \<times> tval) list \<Rightarrow> string \<Rightarrow> ty \<Rightarrow> bool" where
  "field_ok kv k t = (case map_of kv k of Some x \<Rightarrow> has_ty t x | None \<Rightarrow> False)"

text \<open>The tables \<open>_process_raw_config\<close> converts: two sections that are tables with
  exactly the dataclasses' fields, an \<open>include\<close> that is an iterable of strings and a
  \<open>version\<close> that is a string.  Nothing is required of the other values.\<close>

definition config_shaped :: "(string \<times> tval) list \<Rightarrow> bool" where
  "config_shaped tab =
     (case (map_of tab ''cpython'', map_of tab ''module'') of
        (Some (TTab c), Some (TTab m)) \<Rightarrow>
          set (map fst c) = set cpython_fields \<and> set (map fst m) = set module_fields \<and>
          field_ok m ''include'' TyPaths \<and> field_ok c ''version'' TyStr
      | _ \<Rightarrow> False)"

subsection \<open>main\<close>

text \<open>The pipelines of \<open>Source\<close> and \<open>Assembly\<close> take the configuration at its declared
  types (\<open>src_cfg\<close>, \<open>module_cfg\<close>).  Python uses the values as they come: a string
  for a \<open>bool\<close> field is tested for truth, a string for a list is iterated by
  characters, a non-string \<open>name\<close> makes \<open>Template.substitute\<close> raise \<open>TypeError\<close>
  when the ZIP is named.  Those runs are outside the model: \<open>main\<close> stops there with
  \<open>TypeError\<close>, an error of the model only, which no theorem about the loader uses.\<close>

definition to_src_cfg :: "cpython_config \<Rightarrow> src_cfg option" where
  "to_src_cfg c =
     do { ap \<leftarrow> as_bool (cc_apply_patches c); hs \<leftarrow> as_str_list (cc_build_hosts c);
          ca \<leftarrow> as_str_list (cc_configure_args c); ce \<leftarrow> as_env (cc_configure_env c);
          Some \<lparr>apply_patches = ap, build_hosts = hs, configure_args = ca, configure_env = ce,
                cpython_version = cc_version c\<rparr> }"

definition to_module_cfg :: "module_config \<Rightarrow> module_cfg option" where
  "to_module_cfg m =
     do { db \<leftarrow> as_bool (mc_debloat m); rs \<leftarrow> as_rules (mc_debloat_patterns m);
          fx \<leftarrow> as_bool (mc_fix_shebangs m); n \<leftarrow> as_str (mc_name m);
          st \<leftarrow> as_bool (mc_strip m); sa \<leftarrow> as_str_list (mc_strip_args m);
          Some \<lparr>cfg_debloat = db, debloat_patterns = rs, cfg_fix_shebangs = fx, cfg_include = mc_include m,
                name_tpl = n, cfg_strip = st, strip_args = sa\<rparr> }"

text \<open>\<open>main\<close> with its arguments \<open>--clean\<close> and \<open>--config\<close>: \<open>init\<close>, the optional clean,
  the configuration, the source pipeline, and the packaging of its result.\<close>

definition build_main ::
  "(string \<Rightarrow> bool) \<Rightarrow> ext \<Rightarrow> tar_lib \<Rightarrow> pkg_libs \<Rightarrow> toml_lib \<Rightarrow> bool \<Rightarrow> path \<Rightarrow> (world, unit) exc" where
  "build_main has_tool X T L P do_clean config =
     ebind (init has_tool) (\<lambda>_.
     ebind (if do_clean then clean else ereturn ()) (\<lambda>_.
     ebind (load_config P config) (\<lambda>(cc, mc).
     case (to_src_cfg cc, to_module_cfg mc) of
       (Some c, Some m) \<Rightarrow>
         ebind (cpython_build X T c) (\<lambda>(src, t).
         module_build X L m t (cpython_version c) (build_hosts c) src)
     | _ \<Rightarrow> eraise (TypeError ''configuration value of a type the build does not handle''))))"


subsection \<open>A checkout for the witnesses\<close>

text \<open>A project checkout with \<open>module\<close>, a downloaded archive below \<open>build\<close>, a ZIP
  below \<open>dist\<close>, \<open>ANDROID_HOME\<close> set, and \<open>build.toml\<close> if asked for.\<close>

definition ex_checkout :: "bool \<Rightarrow> world" where
  "ex_checkout toml = \<lparr>files = [([''module''], Dir), ([''module'', ''module.prop''], File ''id=py2droid''),
       ([''build''], Dir), ([''build'', ''v3.13.0.tar.gz''], File ''tar''), ([''dist''], Dir),
       ([''dist'', ''py2droid.zip''], File ''zip'')] @ (if toml then [([''build.toml''], File ''[cpython'')] else []),
     cmds = [], environ = [(''ANDROID_HOME'', ''/sdk'')]\<rparr>"

subsection \<open>What the loader accepts\<close>


lemma as_str_Some [simp]: "as_str v = Some s \<longleftrightarrow> v = TStr s"
  by (cases v) auto

lemma as_str_None [simp]: "as_str v = None \<longleftrightarrow> \<not> is_tstr v"
  by (cases v) simp_all

lemma as_bool_None: "as_bool v = None \<longleftrightarrow> \<not> has_ty TyBool v"
  by (cases v) simp_all

lemma as_str_list_None: "as_str_list v = None \<longleftrightarrow> \<not> has_ty TyStrList v"
  by (cases v) (auto simp: as_str_list_def str_list_ok_def those_map_None list_all_iff)

lemma as_env_None: "as_env v = None \<longleftrightarrow> \<not> has_ty TyStrTab v"
  by (cases v) (auto simp: as_env_def those_map_None list_all_iff split: prod.splits)

lemma as_rule_None: "as_rule v = None \<longleftrightarrow> \<not> rule_ok v"
proof (cases v)
  case (TTab kv)
  then show ?thesis
    by (cases "map_of kv ''pattern''"; cases "map_of kv ''rm_if''")
      (auto simp: as_rule_def rule_ok_def as_str_list_None bind_eq_None_conv)
qed (simp_all add: as_rule_def rule_ok_def)

lemma as_paths_None: "as_paths v = None \<longleftrightarrow> \<not> has_ty TyPaths v"
  by (cases v) (auto simp: as_paths_def those_map_None list_all_iff)


lemma ex_TStr: "(\<exists>s. v = TStr s) \<longleftrightarrow> is_tstr v"
  by (cases v) simp_all


lemmas conv_None = as_bool_None as_str_list_None as_env_None
lemmas conv_Some = conv_None [THEN ex_Some_of_None]

text \<open>The typed view \<open>main\<close> hands to the pipelines exists exactly for values of the
  declared types.\<close>

lemma as_rules_None: "as_rules v = None \<longleftrightarrow> \<not> has_ty TyRules v"
  by (cases v) (auto simp: as_rules_def those_map_None as_rule_None list_all_iff)

lemma to_src_cfg_None:
  "to_src_cfg c = None \<longleftrightarrow>
     \<not> (has_ty TyBool (cc_apply_patches c) \<and> has_ty TyStrList (cc_build_hosts c) \<and>
        has_ty TyStrList (cc_configure_args c) \<and> has_ty TyStrTab (cc_configure_env c))"
  unfolding to_src_cfg_def
  by (auto simp: bind_None_iff conv_None conv_Some)

lemma to_module_cfg_None:
  "to_module_cfg m = None \<longleftrightarrow>
     \<not> (has_ty TyBool (mc_debloat m) \<and> has_ty TyRules (mc_debloat_patterns m) \<and>
        has_ty TyBool (mc_fix_shebangs m) \<and> is_tstr (mc_name m) \<and> has_ty TyBool (mc_strip m) \<and>
        has_ty TyStrList (mc_strip_args m))"
  unfolding to_module_cfg_def
  by (auto simp: bind_None_iff conv_None conv_Some as_rules_None as_rules_None [THEN ex_Some_of_None] ex_TStr)

lemma field_ok_Some: "map_of kv k = Some x \<Longrightarrow> field_ok kv k t = has_ty t x"
  by (simp add: field_ok_def)

lemma field_ok_None: "map_of kv k = None \<Longrightarrow> \<not> field_ok kv k t"
  by (simp add: field_ok_def)

lemma map_of_key: "set (map fst kv) = set ks \<Longrightarrow> k \<in> set ks \<Longrightarrow> \<exists>v. map_of kv k = Some v"
  by (cases "map_of kv k") (auto simp: map_of_eq_None_iff)

lemma make_cpython_config_Some:
  assumes "set (map fst kv) = set cpython_fields"
  shows "\<exists>c. make_cpython_config kv ver = Some c"
proof -
  have k: "\<And>k. k \<in> set cpython_fields \<Longrightarrow> \<exists>v. map_of kv k = Some v"
    using assms by (rule map_of_key)
  obtain a b c d where "map_of kv ''apply_patches'' = Some a" "map_of kv ''build_hosts'' = Some b"
    "map_of kv ''configure_args'' = Some c" "map_of kv ''configure_env'' = Some d"
    using k [of "''apply_patches''"] k [of "''build_hosts''"] k [of "''configure_args''"]
      k [of "''configure_env''"] by (auto simp: cpython_fields_def)
  then show ?thesis by (simp add: make_cpython_config_def)
qed

lemma make_module_config_Some:
  assumes "set (map fst kv) = set module_fields"
  shows "\<exists>m. make_module_config kv incl nm = Some m"
proof -
  have k: "\<And>k. k \<in> set module_fields \<Longrightarrow> \<exists>v. map_of kv k = Some v"
    using assms by (rule map_of_key)
  obtain a b c d e where "map_of kv ''debloat'' = Some a" "map_of kv ''debloat_patterns'' = Some b"
    "map_of kv ''fix_shebangs'' = Some c" "map_of kv ''strip'' = Some d" "map_of kv ''strip_args'' = Some e"
    using k [of "''debloat''"] k [of "''debloat_patterns''"] k [of "''fix_shebangs''"] k [of "''strip''"]
      k [of "''strip_args''"] by (auto simp: module_fields_def)
  then show ?thesis by (simp add: make_module_config_def)
qed

lemma process_raw_config_present:
  assumes c: "map_of tab ''cpython'' = Some (TTab ckv)" and m: "map_of tab ''module'' = Some (TTab mkv)"
    and i: "map_of mkv ''include'' = Some inc" and n: "map_of mkv ''name'' = Some nm"
    and v: "map_of ckv ''version'' = Some ver"
  shows "(\<exists>c m. process_raw_config tab = Inr (c, m)) \<longleftrightarrow> config_shaped tab"
proof -
  have cs: "config_shaped tab \<longleftrightarrow> set (map fst ckv) = set cpython_fields \<and>
      set (map fst mkv) = set module_fields \<and> has_ty TyPaths inc \<and> is_tstr ver"
    by (simp add: config_shaped_def c m field_ok_def i v)
  show ?thesis
  proof (cases "\<exists>s. ver = TStr s")
    case True
    then obtain s where s: "ver = TStr s" by blast
    show ?thesis
    proof (cases "as_paths inc")
      case None
      moreover have "\<not> has_ty TyPaths inc"
        using None as_paths_None [of inc] by blast
      ultimately show ?thesis
        by (simp add: process_raw_config_def c m i n v s lookup2_def lookup_def cs del: has_ty.simps)
    next
      case (Some incl)
      have p: "has_ty TyPaths inc"
        using Some as_paths_None [of inc] by auto
      show ?thesis
      proof (cases "set (map fst ckv) = set cpython_fields \<and> set (map fst mkv) = set module_fields")
        case True
        then obtain c0 m0 where "make_cpython_config ckv (dropWhile (\<lambda>c. c = CHR ''v'') s) = Some c0"
          "make_module_config mkv incl nm = Some m0"
          using make_cpython_config_Some make_module_config_Some by blast
        with True Some p show ?thesis
          by (simp add: process_raw_config_def c m i n v s lookup2_def lookup_def cs del: has_ty.simps)
      next
        case False
        with Some show ?thesis
          by (cases "set (map fst ckv) = set cpython_fields")
            (simp_all add: process_raw_config_def c m i n v s lookup2_def lookup_def cs del: has_ty.simps)
      qed
    qed
  next
    case False
    then have "\<not> is_tstr ver" by (cases ver) simp_all
    with False show ?thesis
      by (cases ver) (simp_all add: process_raw_config_def c m i n v lookup2_def lookup_def cs
          split: option.splits)
  qed
qed

lemma process_raw_config_tabs:
  assumes c: "map_of tab ''cpython'' = Some (TTab ckv)" and m: "map_of tab ''module'' = Some (TTab mkv)"
  shows "(\<exists>c m. process_raw_config tab = Inr (c, m)) \<longleftrightarrow> config_shaped tab"
proof (cases "map_of mkv ''include''")
  case None
  then show ?thesis
    by (simp add: process_raw_config_def config_shaped_def c m lookup2_def lookup_def field_ok_None)
next
  case (Some inc)
  show ?thesis
  proof (cases "map_of mkv ''name''")
    case None
    then have "set (map fst mkv) \<noteq> set module_fields"
      using map_of_key [of mkv module_fields "''name''"] by (auto simp: module_fields_def)
    with Some None show ?thesis
      by (simp add: process_raw_config_def config_shaped_def c m lookup2_def lookup_def)
  next
    case n: (Some nm)
    show ?thesis
    proof (cases "map_of ckv ''version''")
      case None
      with Some n show ?thesis
        by (simp add: process_raw_config_def config_shaped_def c m lookup2_def lookup_def field_ok_None)
    next
      case (Some ver)
      with process_raw_config_present [OF c m \<open>map_of mkv ''include'' = Some inc\<close> n] show ?thesis .
    qed
  qed
qed

lemma lookup2_Inr: "lookup2 tab a b = Inr y \<Longrightarrow> \<exists>kv. map_of tab a = Some (TTab kv) \<and> map_of kv b = Some y"
  unfolding lookup2_def lookup_def by (auto split: option.splits tval.splits)

lemma config_shaped_tabs:
  "config_shaped tab \<Longrightarrow>
     \<exists>ckv mkv. map_of tab ''cpython'' = Some (TTab ckv) \<and> map_of tab ''module'' = Some (TTab mkv)"
  unfolding config_shaped_def
  by (cases "map_of tab ''cpython''"; cases "map_of tab ''module''") (simp_all split: tval.splits)

lemma process_raw_config_Inr_tabs:
  assumes r: "process_raw_config tab = Inr r"
  shows "\<exists>ckv mkv. map_of tab ''cpython'' = Some (TTab ckv) \<and> map_of tab ''module'' = Some (TTab mkv)"
proof -
  obtain inc where inc: "lookup2 tab ''module'' ''include'' = Inr inc"
    using r by (cases "lookup2 tab ''module'' ''include''") (simp add: process_raw_config_def, blast)
  obtain nm where nm: "lookup2 tab ''module'' ''name'' = Inr nm"
    using r inc by (cases "lookup2 tab ''module'' ''name''") (simp add: process_raw_config_def, blast)
  obtain ver where "lookup2 tab ''cpython'' ''version'' = Inr ver"
    using r inc nm by (cases "lookup2 tab ''cpython'' ''version''") (simp add: process_raw_config_def, blast)
  with inc show ?thesis by (blast dest: lookup2_Inr)
qed

text \<open>C3: \<open>_process_raw_config\<close>, the conversion \<open>load_config\<close> ends with, builds the two
  dataclasses exactly when both sections are tables with exactly the fields of their
  dataclass, \<open>include\<close> is an iterable of strings and \<open>version\<close> is a string; the other
  values may have any type, since the dataclasses check none.  Every other table raises
  \<open>KeyError\<close>, \<open>TypeError\<close> or \<open>AttributeError\<close>.\<close>

theorem process_raw_config_shaped:
  "(\<exists>c m. process_raw_config tab = Inr (c, m)) \<longleftrightarrow> config_shaped tab"
proof
  assume "\<exists>c m. process_raw_config tab = Inr (c, m)"
  then obtain r where "process_raw_config tab = Inr r" by blast
  then obtain ckv mkv where "map_of tab ''cpython'' = Some (TTab ckv)" "map_of tab ''module'' = Some (TTab mkv)"
    using process_raw_config_Inr_tabs by blast
  with \<open>\<exists>c m. process_raw_config tab = Inr (c, m)\<close> show "config_shaped tab"
    using process_raw_config_tabs by blast
next
  assume "config_shaped tab"
  moreover then obtain ckv mkv where "map_of tab ''cpython'' = Some (TTab ckv)" "map_of tab ''module'' = Some (TTab mkv)"
    using config_shaped_tabs by blast
  ultimately show "\<exists>c m. process_raw_config tab = Inr (c, m)"
    using process_raw_config_tabs by blast
qed

subsection \<open>The --clean loop\<close>


lemma children_parent: "c \<in> set (children fs p) \<Longrightarrow> c \<in> set (map fst fs) \<and> strict_prefix p c \<and> length c = Suc (length p)"
  by (auto simp: children_def dest: butlast_strict_prefix)

lemma children_cover:
  assumes wf: "wf_fs fs" and q: "map_of fs q = Some e"
  shows "(\<exists>c \<in> set (children fs p). prefix c q) \<longleftrightarrow> strict_prefix p q"
proof
  assume "\<exists>c \<in> set (children fs p). prefix c q"
  then show "strict_prefix p q"
    by (meson children_parent prefix_order.less_le_trans)
next
  assume sp: "strict_prefix p q"
  then obtain x r where qe: "q = p @ x # r"
    by (metis prefix_def strict_prefix_def append_Nil2 neq_Nil_conv)
  let ?c = "p @ [x]"
  have "?c \<in> set (map fst fs)"
  proof (cases "r = []")
    case True
    with q qe show ?thesis by (force dest: map_of_SomeD)
  next
    case False
    with qe have "strict_prefix ?c q" by (simp add: strict_prefix_def)
    moreover have "map_of fs ?c = Some Dir"
    proof -
      from q have "q \<in> set (map fst fs)" by (force dest: map_of_SomeD)
      with wf have "\<forall>a \<in> set (prefixes q). a \<noteq> [] \<and> a \<noteq> q \<longrightarrow> map_of fs a = Some Dir"
        unfolding wf_fs_def by blast
      moreover have "?c \<in> set (prefixes q)" "?c \<noteq> []" "?c \<noteq> q" using qe False by auto
      ultimately show ?thesis by blast
    qed
    ultimately show ?thesis by (force dest: map_of_SomeD)
  qed
  then have "?c \<in> set (children fs p)" by (simp add: children_def)
  moreover have "prefix ?c q" using qe by simp
  ultimately show "\<exists>c \<in> set (children fs p). prefix c q" by blast
qed

lemma remove_path_step:
  assumes wf: "wf_fs fs0" and e: "map_of fs0 c = Some e" and cur_c: "map_of (files w) c = Some e"
    and cur: "\<And>q. strict_prefix c q \<Longrightarrow> map_of (files w) q = map_of fs0 q"
  shows "remove_path c w = (Inr (), w\<lparr>files := if e = Dir then rmtree c (files w) else unlink c (files w)\<rparr>) \<and>
         (\<forall>q. map_of (if e = Dir then rmtree c (files w) else unlink c (files w)) q =
              (if prefix c q then None else map_of (files w) q))"
proof
  show "remove_path c w = (Inr (), w\<lparr>files := if e = Dir then rmtree c (files w) else unlink c (files w)\<rparr>)"
    by (cases e) (simp_all add: remove_path_def cur_c)
  show "\<forall>q. map_of (if e = Dir then rmtree c (files w) else unlink c (files w)) q =
            (if prefix c q then None else map_of (files w) q)"
  proof (intro allI)
    fix q
    show "map_of (if e = Dir then rmtree c (files w) else unlink c (files w)) q =
          (if prefix c q then None else map_of (files w) q)"
    proof (cases "e = Dir \<or> \<not> strict_prefix c q")
      case True
      then show ?thesis by (auto simp: strict_prefix_def)
    next
      case False
      then have "map_of fs0 q = None"
        using wf_fs_ancestor_Dir [OF wf _ _] e by (metis not_None_eq option.inject)
      with False cur show ?thesis by (simp add: strict_prefix_def)
    qed
  qed
qed

lemma remove_paths_loop:
  assumes wf: "wf_fs fs0" and L: "set L \<subseteq> set (map fst fs0)" and d: "distinct (V @ L)"
    and ac: "\<forall>a \<in> set (V @ L). \<forall>b \<in> set (V @ L). prefix a b \<longrightarrow> a = b"
    and cur: "map_of (files w) = (\<lambda>q. if \<exists>c \<in> set V. prefix c q then None else map_of fs0 q)"
  shows "\<exists>w'. eforeach remove_path L w = (Inr (), w') \<and>
           map_of (files w') = (\<lambda>q. if \<exists>c \<in> set (V @ L). prefix c q then None else map_of fs0 q) \<and>
           cmds w' = cmds w \<and> environ w' = environ w"
  using L d ac cur
proof (induction L arbitrary: V w)
  case Nil
  then show ?case by (simp add: ereturn_def)
next
  case (Cons c L)
  from Cons.prems(1) obtain e where e: "map_of fs0 c = Some e"
    by (cases "map_of fs0 c") (auto simp: map_of_eq_None_iff)
  have nV: "\<not> (\<exists>v \<in> set V. prefix v q)" if cq: "prefix c q" for q
  proof
    assume "\<exists>v \<in> set V. prefix v q"
    then obtain v where v: "v \<in> set V" "prefix v q" by blast
    from prefix_same_cases [OF v(2) cq] have "prefix v c \<or> prefix c v" .
    with Cons.prems(3) v(1) have "v = c" by auto
    with Cons.prems(2) v(1) show False by simp
  qed
  have cur_c: "map_of (files w) c = Some e" using nV [of c] e Cons.prems(4) by simp
  have below: "map_of (files w) q = map_of fs0 q" if "strict_prefix c q" for q
    using nV [of q] that Cons.prems(4) by (simp add: strict_prefix_def)
  define w1 where "w1 = w\<lparr>files := if e = Dir then rmtree c (files w) else unlink c (files w)\<rparr>"
  from remove_path_step [OF wf e cur_c below]
  have step: "remove_path c w = (Inr (), w1)"
    and m1: "\<forall>q. map_of (files w1) q = (if prefix c q then None else map_of (files w) q)"
    by (simp_all add: w1_def)
  have cur1: "map_of (files w1) = (\<lambda>q. if \<exists>x \<in> set (V @ [c]). prefix x q then None else map_of fs0 q)"
  proof
    fix q
    show "map_of (files w1) q = (if \<exists>x \<in> set (V @ [c]). prefix x q then None else map_of fs0 q)"
      using m1 Cons.prems(4) by simp
  qed
  have "set L \<subseteq> set (map fst fs0)" "distinct ((V @ [c]) @ L)"
    "\<forall>a \<in> set ((V @ [c]) @ L). \<forall>b \<in> set ((V @ [c]) @ L). prefix a b \<longrightarrow> a = b"
    using Cons.prems(1-3) by simp_all
  from Cons.IH [OF this cur1] obtain w' where "eforeach remove_path L w1 = (Inr (), w')"
    and "map_of (files w') = (\<lambda>q. if \<exists>x \<in> set ((V @ [c]) @ L). prefix x q then None else map_of fs0 q)"
    and "cmds w' = cmds w1" "environ w' = environ w1"
    by blast
  with step show ?case by (auto simp: w1_def)
qed

lemma children_disjoint: "p \<noteq> p' \<Longrightarrow> set (children fs p) \<inter> set (children fs p') = {}"
  by (auto simp: children_def)

lemma children_distinct: "wf_fs fs \<Longrightarrow> distinct (children fs p)"
  by (simp add: children_def wf_fs_def)

lemma children_same_length_antichain:
  assumes "length p = length p'"
  shows "\<forall>a \<in> set (children fs p @ children fs p'). \<forall>b \<in> set (children fs p @ children fs p').
           prefix a b \<longrightarrow> a = b"
  using assms by (auto dest!: children_parent intro: prefix_same_length)

lemma clean_effect:
  assumes wf: "wf_fs (files w)" and b: "map_of (files w) BUILD_DIR = Some Dir"
    and d: "map_of (files w) DIST_DIR = Some Dir"
  shows "\<exists>w'. clean w = (Inr (), w') \<and>
           (\<forall>q. map_of (files w') q =
                (if strict_prefix BUILD_DIR q \<or> strict_prefix DIST_DIR q then None else map_of (files w) q)) \<and>
           cmds w' = cmds w \<and> environ w' = environ w"
proof -
  let ?fs = "files w"
  let ?L = "children ?fs BUILD_DIR @ children ?fs DIST_DIR"
  have run: "clean w = eforeach remove_path ?L w" by (simp add: clean_def iterdir_def b d)
  have L: "set ?L \<subseteq> set (map fst ?fs)" by (auto dest: children_parent)
  have dist: "distinct ([] @ ?L)"
    using children_distinct [OF wf] children_disjoint [of BUILD_DIR DIST_DIR]
    by (simp add: BUILD_DIR_def DIST_DIR_def)
  have ac: "\<forall>a \<in> set ([] @ ?L). \<forall>b \<in> set ([] @ ?L). prefix a b \<longrightarrow> a = b"
    using children_same_length_antichain [of BUILD_DIR DIST_DIR ?fs] by (simp add: BUILD_DIR_def DIST_DIR_def)
  have cur0: "map_of ?fs = (\<lambda>q. if \<exists>c \<in> set []. prefix c q then None else map_of ?fs q)" by simp
  obtain w' where w': "eforeach remove_path ?L w = (Inr (), w')"
    and m: "map_of (files w') = (\<lambda>q. if \<exists>c \<in> set ([] @ ?L). prefix c q then None else map_of ?fs q)"
    and "cmds w' = cmds w" "environ w' = environ w"
    using remove_paths_loop [OF wf L dist ac cur0] by blast
  moreover have "map_of (files w') q =
      (if strict_prefix BUILD_DIR q \<or> strict_prefix DIST_DIR q then None else map_of ?fs q)" for q
  proof (cases "map_of ?fs q")
    case (Some e)
    then show ?thesis using m children_cover [OF wf Some] by auto
  qed (simp add: m)
  ultimately show ?thesis using run by auto
qed

text \<open>C12: with \<open>build\<close> and \<open>dist\<close> directories in a well-formed tree, the \<open>--clean\<close>
  loop of \<open>main\<close> succeeds and removes exactly what lies below the two directories,
  which stay; every other entry is kept and no command runs.\<close>

theorem clean_empties_dirs:
  assumes wf: "wf_fs (files w)" and b: "map_of (files w) BUILD_DIR = Some Dir"
    and d: "map_of (files w) DIST_DIR = Some Dir"
  shows "\<exists>w'. clean w = (Inr (), w') \<and>
           (\<forall>q. map_of (files w') q =
                (if strict_prefix BUILD_DIR q \<or> strict_prefix DIST_DIR q then None else map_of (files w) q)) \<and>
           cmds w' = cmds w \<and> environ w' = environ w"
  using clean_effect [OF wf b d] .

theorem clean_empties_dirs_witness:
  "wf_fs (files (ex_project [])) \<and> map_of (files (ex_project [])) BUILD_DIR = Some Dir \<and>
   map_of (files (ex_project [])) DIST_DIR = Some Dir \<and>
   (\<exists>w'. clean (ex_project []) = (Inr (), w') \<and>
      (\<forall>q. map_of (files w') q = (if strict_prefix BUILD_DIR q \<or> strict_prefix DIST_DIR q then None
                                 else map_of (files (ex_project [])) q)) \<and>
      cmds w' = cmds (ex_project []) \<and> environ w' = environ (ex_project []))"
proof -
  have h: "wf_fs (files (ex_project [])) \<and> map_of (files (ex_project [])) BUILD_DIR = Some Dir \<and>
     map_of (files (ex_project [])) DIST_DIR = Some Dir"
    by code_simp
  then show ?thesis using clean_empties_dirs [of "ex_project []"] by blast
qed


subsection \<open>init prepares the project\<close>

lemma put_entry_top: "length p = 1 \<Longrightarrow> put_entry p e fs = AList.update p e fs"
  by (cases p) (auto simp: put_entry_def)

lemma make_dir_step:
  assumes "exists (files w) p \<or> map_of (files w) p = None" and "length p = 1"
  shows "\<exists>w1. (if exists (files w) p then (Inr (), w) else mkdir_new p w) = (Inr (), w1) \<and>
           exists (files w1) p \<and> (\<forall>q. q \<noteq> p \<longrightarrow> map_of (files w1) q = map_of (files w) q) \<and>
           cmds w1 = cmds w \<and> environ w1 = environ w"
  using assms by (auto simp: mkdir_new_def put_entry_top exists_def update_conv')

lemma exists_cong: "map_of fs p = map_of fs' p \<Longrightarrow> exists fs p = exists fs' p"
  by (simp add: exists_def)

text \<open>
  C34: \<open>init\<close> prepares the project: with \<open>ANDROID_HOME\<close> set, \<open>curl\<close> and \<open>patch\<close>
  found, \<open>module\<close> and \<open>build.toml\<close> present, and \<open>build\<close> and \<open>dist\<close> each either
  present or absent (not a dangling link), it returns with \<open>build\<close> and \<open>dist\<close> present,
  every other entry as it was, and no command run.
\<close>

theorem init_prepares:
  assumes "map_of (environ w) ''ANDROID_HOME'' \<noteq> None" and "has_tool ''curl''" and "has_tool ''patch''"
    and "exists (files w) MODULE_DIR" and "exists (files w) BUILD_CONFIG"
    and b: "exists (files w) BUILD_DIR \<or> map_of (files w) BUILD_DIR = None"
    and d: "exists (files w) DIST_DIR \<or> map_of (files w) DIST_DIR = None"
  shows "\<exists>w'. init has_tool w = (Inr (), w') \<and> exists (files w') BUILD_DIR \<and> exists (files w') DIST_DIR \<and>
           (\<forall>q. q \<noteq> BUILD_DIR \<and> q \<noteq> DIST_DIR \<longrightarrow> map_of (files w') q = map_of (files w) q) \<and>
           cmds w' = cmds w \<and> environ w' = environ w"
proof -
  have env: "prepare_build_environment has_tool w = (Inr (), w)"
    using assms(1-3) by (simp add: prepare_build_environment_def BUILD_REQUIRED_TOOLS_def ebind_def ereturn_def)
  obtain w1 where s1: "(if exists (files w) BUILD_DIR then (Inr (), w) else mkdir_new BUILD_DIR w) = (Inr (), w1)"
    and e1: "exists (files w1) BUILD_DIR" and m1: "\<forall>q. q \<noteq> BUILD_DIR \<longrightarrow> map_of (files w1) q = map_of (files w) q"
    and c1: "cmds w1 = cmds w" "environ w1 = environ w"
    using make_dir_step [OF b] by (auto simp: BUILD_DIR_def)
  have nd: "DIST_DIR \<noteq> BUILD_DIR" by (simp add: DIST_DIR_def BUILD_DIR_def)
  have "exists (files w1) DIST_DIR \<or> map_of (files w1) DIST_DIR = None"
    using d m1 nd exists_cong [of "files w1" DIST_DIR "files w"] by auto
  then obtain w2 where s2: "(if exists (files w1) DIST_DIR then (Inr (), w1) else mkdir_new DIST_DIR w1) = (Inr (), w2)"
    and e2: "exists (files w2) DIST_DIR" and m2: "\<forall>q. q \<noteq> DIST_DIR \<longrightarrow> map_of (files w2) q = map_of (files w1) q"
    and c2: "cmds w2 = cmds w1" "environ w2 = environ w1"
    using make_dir_step [of w1 DIST_DIR] by (auto simp: DIST_DIR_def)
  have "prepare_project_directory w = (Inr (), w2)"
    using assms(4,5) s1 s2 by (simp add: prepare_project_directory_def ebind_def ereturn_def)
  then have "init has_tool w = (Inr (), w2)" using env by (simp add: init_def)
  moreover have "exists (files w2) BUILD_DIR"
    using e1 m2 nd exists_cong [of "files w2" BUILD_DIR "files w1"] by auto
  ultimately show ?thesis using e2 m1 m2 c1 c2 by auto
qed

subsection \<open>main\<close>

text \<open>
  C35: \<open>init\<close> insists on \<open>build.toml\<close> in the project directory, whatever file
  \<open>--config\<close> names: without it \<open>main\<close> stops with \<open>BuilderError\<close>, having changed
  nothing, before the configuration it was given is read.
\<close>

theorem build_main_requires_build_toml:
  assumes "map_of (environ w) ''ANDROID_HOME'' \<noteq> None" and "has_tool ''curl''" and "has_tool ''patch''"
    and "exists (files w) MODULE_DIR" and "\<not> exists (files w) BUILD_CONFIG"
  shows "build_main has_tool X T L P do_clean config w =
           (Inl (BuilderError (''Build configuration file not found: '' @ path_str BUILD_CONFIG)), w)"
proof -
  have "init has_tool w = (Inl (BuilderError (''Build configuration file not found: '' @ path_str BUILD_CONFIG)), w)"
    using assms by (simp add: init_def ebind_def prepare_build_environment_def prepare_project_directory_def
        BUILD_REQUIRED_TOOLS_def ereturn_def)
  then show ?thesis by (simp add: build_main_def)
qed

lemma read_bytes_cong: "map_of fs p = map_of fs' p \<Longrightarrow> read_bytes fs p = read_bytes fs' p"
  by (simp add: read_bytes_def)

text \<open>
  C38: \<open>--clean\<close> runs before the configuration is read: a run with \<open>--clean\<close> whose
  configuration file (outside \<open>build\<close> and \<open>dist\<close>) does not parse raises the loader's
  \<open>BuilderError\<close> only after everything below \<open>build\<close> and \<open>dist\<close>, the downloaded
  archive and the built prefixes included, has been deleted.
\<close>

theorem build_main_clean_before_config:
  assumes "map_of (environ w) ''ANDROID_HOME'' \<noteq> None" and "has_tool ''curl''" and "has_tool ''patch''"
    and "exists (files w) MODULE_DIR" and "exists (files w) BUILD_CONFIG"
    and wf: "wf_fs (files w)" and b: "map_of (files w) BUILD_DIR = Some Dir"
    and d: "map_of (files w) DIST_DIR = Some Dir"
    and cfg: "\<not> strict_prefix BUILD_DIR config" "\<not> strict_prefix DIST_DIR config"
    and rd: "read_bytes (files w) config = Inr bs" and bad: "P bs = None"
  shows "\<exists>w'. build_main has_tool X T L P True config w =
             (Inl (BuilderError (''Failed to parse configuration file: '' @ path_str config)), w') \<and>
           (\<forall>q. strict_prefix BUILD_DIR q \<or> strict_prefix DIST_DIR q \<longrightarrow> map_of (files w') q = None)"
proof -
  have "prepare_project_directory w = (Inr (), w)"
    using assms(4,5) b d by (simp add: prepare_project_directory_def exists_def ereturn_def)
  then have i: "init has_tool w = (Inr (), w)"
    using assms(1-3) by (simp add: init_def prepare_build_environment_def BUILD_REQUIRED_TOOLS_def
        ebind_def ereturn_def)
  obtain w1 where c: "clean w = (Inr (), w1)"
    and m: "\<forall>q. map_of (files w1) q =
              (if strict_prefix BUILD_DIR q \<or> strict_prefix DIST_DIR q then None else map_of (files w) q)"
    using clean_effect [OF wf b d] by blast
  have "read_bytes (files w1) config = Inr bs"
    using rd cfg m read_bytes_cong [of "files w1" config "files w"] by simp
  then have "load_config P config w1 =
      (Inl (BuilderError (''Failed to parse configuration file: '' @ path_str config)), w1)"
    using bad by (simp add: load_config_def)
  then have "build_main has_tool X T L P True config w =
      (Inl (BuilderError (''Failed to parse configuration file: '' @ path_str config)), w1)"
    using i c by (simp add: build_main_def)
  with m show ?thesis by auto
qed


subsection \<open>Witnesses\<close>

theorem init_prepares_witness:
  "\<exists>w'. init (\<lambda>_. True) (ex_checkout True) = (Inr (), w') \<and> exists (files w') BUILD_DIR \<and>
     exists (files w') DIST_DIR \<and>
     (\<forall>q. q \<noteq> BUILD_DIR \<and> q \<noteq> DIST_DIR \<longrightarrow> map_of (files w') q = map_of (files (ex_checkout True)) q) \<and>
     cmds w' = cmds (ex_checkout True) \<and> environ w' = environ (ex_checkout True)"
  by (rule init_prepares)
    (simp_all add: ex_checkout_def exists_def MODULE_DIR_def BUILD_CONFIG_def BUILD_DIR_def DIST_DIR_def)

theorem build_main_requires_build_toml_witness:
  "build_main (\<lambda>_. True) ex_tool ex_tar ex_libs (\<lambda>_. None) False [''other.toml''] (ex_checkout False) =
     (Inl (BuilderError (''Build configuration file not found: '' @ path_str BUILD_CONFIG)), ex_checkout False)"
  by (rule build_main_requires_build_toml)
    (simp_all add: ex_checkout_def exists_def MODULE_DIR_def BUILD_CONFIG_def)

theorem build_main_clean_before_config_witness:
  "\<exists>w'. build_main (\<lambda>_. True) ex_tool ex_tar ex_libs (\<lambda>_. None) True BUILD_CONFIG (ex_checkout True) =
       (Inl (BuilderError (''Failed to parse configuration file: '' @ path_str BUILD_CONFIG)), w') \<and>
     (\<forall>q. strict_prefix BUILD_DIR q \<or> strict_prefix DIST_DIR q \<longrightarrow> map_of (files w') q = None)"
proof (rule build_main_clean_before_config [where bs = "''[cpython''"])
  show "wf_fs (files (ex_checkout True))" by code_simp
qed (simp_all add: ex_checkout_def exists_def MODULE_DIR_def BUILD_CONFIG_def BUILD_DIR_def DIST_DIR_def
       read_bytes_def)

end
