(* ===== verification/Release.thy ===== *)
theory Release
  imports Source
begin

text \<open>
  The release script \<open>release.py\<close>: the version-tag pattern \<open>VERSION_TAG_RE\<close>
  (\<^verbatim>\<open>v?\d+\.\d+\.\d+\<close>), the substitution \<open>re.sub\<close> does with it and with the two
  look-behind patterns of \<open>update_cpython_refs\<close>, the rewriting of \<open>module.prop\<close> and
  \<open>update.json\<close>, and the release pipeline with its \<open>git\<close> commands.  A pattern is a
  matcher \<open>m pre s\<close> that gets the text before the position (reversed, for
  look-behind) and the text from the position, and returns the length of the match
  there, if any; \<open>re_sub\<close> is the left-to-right scan of \<open>re.sub\<close> with its \<open>count\<close>
  (\<open>None\<close> for Python's \<open>count=0\<close>, all matches).  The replacement is inserted
  literally: the model covers replacement strings without a backslash, the only ones
  whose template expansion is the identity.
\<close>

type_synonym matcher_at = "string \<Rightarrow> string \<Rightarrow> nat option"

definition is_digit :: "char \<Rightarrow> bool" where
  "is_digit c \<longleftrightarrow> (let n = (of_char c :: nat) in 48 \<le> n \<and> n \<le> 57)"

text \<open>\<open>dotted k\<close> matches \<^verbatim>\<open>(\d+\.){k}\d+\<close> with greedy runs of digits; a run is
  followed by a dot or ends the match, so there is nothing to backtrack to.\<close>

primrec dotted :: "nat \<Rightarrow> string \<Rightarrow> nat option" where
  "dotted 0 s = (let a = length (takeWhile is_digit s) in if a = 0 then None else Some a)"
| "dotted (Suc k) s =
     (let a = length (takeWhile is_digit s) in
      if a = 0 \<or> take 1 (drop a s) \<noteq> ''.'' then None
      else map_option (\<lambda>n. a + 1 + n) (dotted k (drop (Suc a) s)))"

definition match_tag :: "string \<Rightarrow> nat option" where
  "match_tag s = (if take 1 s = ''v'' then map_option Suc (dotted 2 (tl s)) else dotted 2 s)"

definition tag_re :: matcher_at where
  "tag_re pre s = match_tag s"

function re_sub :: "matcher_at \<Rightarrow> nat option \<Rightarrow> string \<Rightarrow> string \<Rightarrow> string \<Rightarrow> string" where
  "re_sub m cnt r pre [] = []"
| "re_sub m cnt r pre (c # s) =
     (if cnt = Some 0 then c # s
      else case m pre (c # s) of
        Some n \<Rightarrow>
          if 0 < n then r @ re_sub m (map_option (\<lambda>k. k - 1) cnt) r (rev (take n (c # s)) @ pre) (drop n (c # s))
          else c # re_sub m cnt r (c # pre) s
      | None \<Rightarrow> c # re_sub m cnt r (c # pre) s)"
  by pat_completeness auto
termination
  by (relation "measure (\<lambda>(m, cnt, r, pre, s). length s)") auto

text \<open>The reference: the leftmost position where the pattern matches a non-empty text.\<close>

definition matches_at :: "matcher_at \<Rightarrow> string \<Rightarrow> string \<Rightarrow> nat \<Rightarrow> bool" where
  "matches_at m pre s i \<longleftrightarrow> (case m (rev (take i s) @ pre) (drop i s) of Some n \<Rightarrow> 0 < n | None \<Rightarrow> False)"

definition first_match :: "matcher_at \<Rightarrow> string \<Rightarrow> string \<Rightarrow> nat option" where
  "first_match m pre s = find (matches_at m pre s) [0..<length s]"

text \<open>The look-behind patterns of \<open>update_cpython_refs\<close>:
  \<^verbatim>\<open>(?<=version\s=\s")[^"]+\<close> for \<open>build.toml\<close> and
  \<^verbatim>\<open>(?<=badge/Python-)v?[\d.]+(?=-)\<close> for \<open>README.md\<close>.\<close>

definition version_re :: matcher_at where
  "version_re pre s =
     (if length pre \<ge> 11 \<and> take 1 pre = ''\"'' \<and> py_isspace (pre ! 1) \<and> pre ! 2 = CHR ''='' \<and>
         py_isspace (pre ! 3) \<and> take 7 (drop 4 pre) = rev ''version''
      then (let n = length (takeWhile (\<lambda>c. c \<noteq> CHR ''\"'') s) in if n = 0 then None else Some n)
      else None)"

definition badge_re :: matcher_at where
  "badge_re pre s =
     (if take 13 pre = rev ''badge/Python-'' then
        (let v = (if take 1 s = ''v'' then 1 else 0);
             a = length (takeWhile (\<lambda>c. is_digit c \<or> c = CHR ''.'') (drop v s))
         in if 0 < a \<and> take 1 (drop (v + a) s) = ''-'' then Some (v + a) else None)
      else None)"

definition BUILD_TOML :: path where "BUILD_TOML = [''build.toml'']"
definition CHANGELOG :: path where "CHANGELOG = [''CHANGELOG.md'']"
definition MODULE_PROP :: path where "MODULE_PROP = [''module'', ''module.prop'']"
definition README :: path where "README = [''README.md'']"
definition UPDATE_JSON :: path where "UPDATE_JSON = [''module'', ''update.json'']"

definition REQUIRED_TOOLS :: "string list" where
  "REQUIRED_TOOLS = [''git'', ''git-cliff'']"

subsection \<open>module.prop\<close>

text \<open>\<open>_process_module_prop\<close> parses the file as \<open>parse_module_prop\<close> of \<open>build.py\<close>
  does (the loop is the same), replaces the first tag of \<open>version\<close>, sets
  \<open>versionCode\<close> to the date, and writes the dictionary back.\<close>

definition process_module_prop_text :: "string \<Rightarrow> string \<Rightarrow> string \<Rightarrow> py_error + string" where
  "process_module_prop_text date tag content =
     (let props = parse_module_prop content in
      case map_of props ''version'' of
        None \<Rightarrow> Inl (KeyError ''version'')
      | Some v \<Rightarrow>
          Inr (format_module_prop
            (AList.update ''versionCode'' date (AList.update ''version'' (re_sub tag_re (Some 1) tag [] v) props))))"

definition process_module_prop :: "string \<Rightarrow> string \<Rightarrow> ('a world_scheme, unit) exc" where
  "process_module_prop date tag w =
     (case read_bytes (files w) MODULE_PROP of
        Inl e \<Rightarrow> (Inl e, w)
      | Inr content \<Rightarrow>
          (case process_module_prop_text date tag content of
             Inl e \<Rightarrow> (Inl e, w)
           | Inr out \<Rightarrow> (Inr (), w\<lparr>files := put_entry MODULE_PROP (File out) (files w)\<rparr>)))"

subsection \<open>update.json\<close>

text \<open>A JSON value as \<open>json.load\<close> returns it (numbers other than integers are not
  modelled); \<open>json.load\<close> and \<open>json.dump\<close> themselves are parameters.\<close>

datatype jval = JStr string | JInt int | JBool bool | JNull | JList "jval list"
  | JObj "(string \<times> jval) list"

definition subscript :: "jval \<Rightarrow> string \<Rightarrow> py_error + jval" where
  "subscript d k =
     (case d of
        JObj kv \<Rightarrow> (case map_of kv k of None \<Rightarrow> Inl (KeyError k) | Some v \<Rightarrow> Inr v)
      | JList _ \<Rightarrow> Inl (TypeError ''list indices must be integers or slices, not str'')
      | JStr _ \<Rightarrow> Inl (TypeError ''string indices must be integers, not str'')
      | _ \<Rightarrow> Inl (TypeError ''object is not subscriptable''))"

definition set_key :: "jval \<Rightarrow> string \<Rightarrow> jval \<Rightarrow> jval" where
  "set_key d k v = (case d of JObj kv \<Rightarrow> JObj (AList.update k v kv) | _ \<Rightarrow> d)"

definition sub_json :: "string \<Rightarrow> jval \<Rightarrow> py_error + jval" where
  "sub_json tag v =
     (case v of
        JStr s \<Rightarrow> Inr (JStr (re_sub tag_re None tag [] s))
      | _ \<Rightarrow> Inl (TypeError ''expected string or bytes-like object''))"

definition int_of_digits :: "string \<Rightarrow> int" where
  "int_of_digits s = foldl (\<lambda>n c. 10 * n + (int (of_char c) - 48)) 0 s"

text \<open>\<open>VERSION_CODE_DATE = datetime.now(tz=UTC).strftime("%Y%m%d")\<close>: the UTC date of
  the run, a parameter \<open>(y, m, d)\<close>, as the year in four digits and the month and day
  in two, zero-padded.  For the years 1000 to 9999 this is what \<open>strftime\<close> writes
  (below 1000 glibc does not pad \<open>%Y\<close>).\<close>

fun pad_digits :: "nat \<Rightarrow> nat \<Rightarrow> string" where
  "pad_digits 0 n = []"
| "pad_digits (Suc k) n = pad_digits k (n div 10) @ [char_of (48 + n mod 10)]"

definition version_code_date :: "nat \<Rightarrow> nat \<Rightarrow> nat \<Rightarrow> string" where
  "version_code_date y m d = pad_digits 4 y @ pad_digits 2 m @ pad_digits 2 d"

definition valid_date :: "nat \<Rightarrow> nat \<Rightarrow> nat \<Rightarrow> bool" where
  "valid_date y m d \<longleftrightarrow> 1000 \<le> y \<and> y \<le> 9999 \<and> 1 \<le> m \<and> m \<le> 12 \<and> 1 \<le> d \<and> d \<le> 31"

definition update_json_data :: "string \<Rightarrow> string \<Rightarrow> jval \<Rightarrow> py_error + jval" where
  "update_json_data date tag d =
     (case subscript d ''version'' of
        Inl e \<Rightarrow> Inl e
      | Inr v0 \<Rightarrow>
     (case sub_json tag v0 of
        Inl e \<Rightarrow> Inl e
      | Inr v \<Rightarrow>
          (let d1 = set_key (set_key d ''version'' v) ''versionCode'' (JInt (int_of_digits date)) in
           case subscript d1 ''zipUrl'' of
             Inl e \<Rightarrow> Inl e
           | Inr z0 \<Rightarrow>
           (case sub_json tag z0 of
              Inl e \<Rightarrow> Inl e
            | Inr z \<Rightarrow> Inr (set_key d1 ''zipUrl'' z)))))"

definition process_update_json ::
  "(bytes \<Rightarrow> py_error + jval) \<Rightarrow> (jval \<Rightarrow> bytes) \<Rightarrow> string \<Rightarrow> string \<Rightarrow> ('a world_scheme, unit) exc" where
  "process_update_json load dump date tag w =
     (case read_bytes (files w) UPDATE_JSON of
        Inl e \<Rightarrow> (Inl e, w)
      | Inr c \<Rightarrow>
     (case load c of
        Inl e \<Rightarrow> (Inl e, w)
      | Inr d0 \<Rightarrow>
     (case update_json_data date tag d0 of
        Inl e \<Rightarrow> (Inl e, w)
      | Inr d \<Rightarrow> (Inr (), w\<lparr>files := put_entry UPDATE_JSON (File (dump d)) (files w)\<rparr>))))"

definition update_module ::
  "(bytes \<Rightarrow> py_error + jval) \<Rightarrow> (jval \<Rightarrow> bytes) \<Rightarrow> string \<Rightarrow> string \<Rightarrow> ('a world_scheme, path list) exc" where
  "update_module load dump date tag =
     ebind (process_module_prop date tag) (\<lambda>_.
     ebind (process_update_json load dump date tag) (\<lambda>_.
     ereturn [MODULE_PROP, UPDATE_JSON]))"

subsection \<open>Changelog, CPython references and git\<close>

definition git_cmd :: "string list \<Rightarrow> cmd" where
  "git_cmd args = \<lparr>argv = args, cmd_cwd = [], cmd_env = None\<rparr>"

definition generate_changelog :: "ext \<Rightarrow> string \<Rightarrow> ('a world_scheme, path list) exc" where
  "generate_changelog X tag =
     ebind (run X True (git_cmd [''git-cliff'', ''-t'', tag, ''-o'', path_str CHANGELOG])) (\<lambda>_.
     ereturn [CHANGELOG])"

text \<open>\<open>p.read_text()\<close> reads with universal newlines, \<open>r.sub(..., count=1)\<close> replaces
  the first match, \<open>p.write_text\<close> writes the text back.\<close>

definition sub_file :: "path \<Rightarrow> matcher_at \<Rightarrow> string \<Rightarrow> ('a world_scheme, unit) exc" where
  "sub_file p m r w =
     (case read_bytes (files w) p of
        Inl e \<Rightarrow> (Inl e, w)
      | Inr c \<Rightarrow> (Inr (), w\<lparr>files := put_entry p (File (re_sub m (Some 1) r [] (translate_newlines c))) (files w)\<rparr>))"

definition update_cpython_refs :: "string \<Rightarrow> ('a world_scheme, path list) exc" where
  "update_cpython_refs ctag =
     ebind (sub_file BUILD_TOML version_re ctag) (\<lambda>_.
     ebind (sub_file README badge_re ctag) (\<lambda>_.
     ereturn [BUILD_TOML, README]))"

definition git_add :: "path list \<Rightarrow> cmd" where
  "git_add ps = git_cmd (''git'' # ''add'' # map path_str ps)"

definition prepare_release ::
  "ext \<Rightarrow> (bytes \<Rightarrow> py_error + jval) \<Rightarrow> (jval \<Rightarrow> bytes) \<Rightarrow> string \<Rightarrow> string \<Rightarrow> string option \<Rightarrow> bool \<Rightarrow>
     ('a world_scheme, unit) exc" where
  "prepare_release X load dump date tag ctag commit =
     ebind (case ctag of
              None \<Rightarrow> ereturn ()
            | Some ct \<Rightarrow>
                ebind (update_cpython_refs ct) (\<lambda>fs.
                  if commit then
                    ebind (run X True (git_add fs)) (\<lambda>_.
                    ebind (run X True (git_cmd [''git'', ''commit'', ''-m'', ''build(cpython): bump to '' @ ct])) (\<lambda>_.
                    ereturn ()))
                  else ereturn ())) (\<lambda>_.
     ebind (update_module load dump date tag) (\<lambda>f1.
     ebind (generate_changelog X tag) (\<lambda>f2.
       if commit then
         ebind (run X True (git_add (f1 @ f2))) (\<lambda>_.
         ebind (run X True (git_cmd [''git'', ''commit'', ''-m'', ''chore(release): prepare for '' @ tag])) (\<lambda>_.
         ebind (run X True (git_cmd [''git'', ''tag'', tag])) (\<lambda>_.
         ereturn ())))
       else ereturn ())))"

subsection \<open>The command line\<close>

definition prepare_environment :: "(string \<Rightarrow> bool) \<Rightarrow> ('a world_scheme, unit) exc" where
  "prepare_environment has_tool =
     eforeach (\<lambda>tool. if has_tool tool then ereturn ()
                      else eraise (ReleaseError (''Required tool not found in PATH: '' @ tool)))
       REQUIRED_TOOLS"

definition process_tag :: "string \<Rightarrow> string" where
  "process_tag t = (if startswith t ''v'' then t else ''v'' @ t)"

text \<open>The check of \<open>main\<close>: \<open>VERSION_TAG_RE.match\<close> on each processed tag, and
  \<open>parser.error\<close>, which exits with status 2, on the first that fails.\<close>

definition validate_tags :: "string \<Rightarrow> string option \<Rightarrow> py_error + string \<times> string option" where
  "validate_tags tag ctag =
     (let t = process_tag tag; c = map_option process_tag ctag in
      if match_tag t = None then Inl (SystemExit 2 (''invalid version tag: '' @ t))
      else case c of
             Some ct \<Rightarrow> if match_tag ct = None then Inl (SystemExit 2 (''invalid version tag: '' @ ct))
                        else Inr (t, c)
           | None \<Rightarrow> Inr (t, c))"

definition release_main ::
  "(string \<Rightarrow> bool) \<Rightarrow> ext \<Rightarrow> (bytes \<Rightarrow> py_error + jval) \<Rightarrow> (jval \<Rightarrow> bytes) \<Rightarrow> string \<Rightarrow>
     string \<Rightarrow> string option \<Rightarrow> bool \<Rightarrow> ('a world_scheme, unit) exc" where
  "release_main has_tool X load dump date tag ctag commit =
     ebind (prepare_environment has_tool) (\<lambda>_.
       case validate_tags tag ctag of
         Inl e \<Rightarrow> eraise e
       | Inr (t, c) \<Rightarrow> prepare_release X load dump date t c commit)"

lemmas release_eval [model_eval] = is_digit_def match_tag_def tag_re_def re_sub.simps version_re_def
  badge_re_def BUILD_TOML_def CHANGELOG_def MODULE_PROP_def README_def UPDATE_JSON_def REQUIRED_TOOLS_def
  process_module_prop_text_def process_module_prop_def subscript_def set_key_def sub_json_def
  int_of_digits_def update_json_data_def process_update_json_def update_module_def git_cmd_def
  generate_changelog_def sub_file_def update_cpython_refs_def git_add_def prepare_release_def
  prepare_environment_def process_tag_def validate_tags_def release_main_def

subsection \<open>The scan\<close>

lemma re_sub_count_0 [simp]: "re_sub m (Some 0) r pre s = s"
  by (cases s) simp_all

lemma find_map_Suc: "find P (map f xs) = map_option f (find (\<lambda>x. P (f x)) xs)"
  by (induction xs) simp_all

lemma find_upt_Suc:
  "find P [0..<Suc n] = (if P 0 then Some 0 else map_option Suc (find (\<lambda>i. P (Suc i)) [0..<n]))"
proof -
  have "[0..<Suc n] = 0 # map Suc [0..<n]" by (simp add: map_Suc_upt upt_conv_Cons del: upt_Suc)
  then show ?thesis by (simp add: find_map_Suc del: upt_Suc)
qed

lemma first_match_Cons:
  "first_match m pre (c # s) =
     (if matches_at m pre (c # s) 0 then Some 0 else map_option Suc (first_match m (c # pre) s))"
proof -
  have "matches_at m pre (c # s) (Suc i) = matches_at m (c # pre) s i" for i
    by (simp add: matches_at_def)
  then show ?thesis by (simp add: first_match_def find_upt_Suc del: upt_Suc)
qed


text \<open>
  \<open>re.sub(..., count=1)\<close> as the scan does it replaces exactly the leftmost
  non-empty match: the text before it is kept, the replacement inserted, and the text
  after the match kept; a text without a match is unchanged.
\<close>

theorem re_sub_first_match:
  "re_sub m (Some 1) r pre s =
     (case first_match m pre s of
        None \<Rightarrow> s
      | Some i \<Rightarrow> take i s @ r @ drop (i + the (m (rev (take i s) @ pre) (drop i s))) s)"
proof (induction s arbitrary: pre)
  case Nil
  then show ?case by (simp add: first_match_def)
next
  case (Cons c s)
  show ?case
  proof (cases "matches_at m pre (c # s) 0")
    case True
    then obtain n where n: "m pre (c # s) = Some n" "0 < n"
      by (auto simp: matches_at_def split: option.splits)
    with True show ?thesis by (simp add: first_match_Cons)
  next
    case False
    then have "re_sub m (Some 1) r pre (c # s) = c # re_sub m (Some 1) r (c # pre) s"
      by (auto simp: matches_at_def split: option.split)
    with False Cons.IH [of "c # pre"] show ?thesis
      by (simp add: first_match_Cons split: option.split)
  qed
qed


subsection \<open>The version-tag pattern\<close>

lemma take1_drop_less: "take 1 (drop a s) = [c] \<Longrightarrow> a < length s"
  by (cases "a < length s") auto

lemma dotted_bounds: "dotted k s = Some n \<Longrightarrow> 2 * k + 1 \<le> n \<and> n \<le> length s"
proof (induction k arbitrary: s n)
  case 0
  then show ?case by (auto simp: Let_def length_takeWhile_le Suc_le_eq split: if_splits)
next
  case (Suc k)
  let ?a = "length (takeWhile is_digit s)"
  from Suc.prems obtain m where a: "0 < ?a" and dot: "take 1 (drop ?a s) = ''.''"
    and m: "dotted k (drop (Suc ?a) s) = Some m" and n: "n = ?a + 1 + m"
    by (auto simp: Let_def split: if_splits)
  from Suc.IH [OF m] have "2 * k + 1 \<le> m" and "m \<le> length s - Suc ?a" by simp_all
  moreover from dot have "?a < length s" by (rule take1_drop_less)
  ultimately have "2 * Suc k + 1 \<le> n" and "n \<le> length s" using a n by arith+
  then show ?case by simp
qed

lemma takeWhile_digit_append:
  "take 1 (drop (length (takeWhile is_digit s)) s) = ''.'' \<Longrightarrow>
     takeWhile is_digit (s @ x) = takeWhile is_digit s"
proof -
  assume d: "take 1 (drop (length (takeWhile is_digit s)) s) = ''.''"
  have "\<exists>c \<in> set s. \<not> is_digit c"
  proof (rule ccontr)
    assume "\<not> (\<exists>c \<in> set s. \<not> is_digit c)"
    then have "takeWhile is_digit s = s" by (simp add: takeWhile_eq_all_conv)
    with d show False by simp
  qed
  then show ?thesis by (auto intro: takeWhile_append1)
qed

lemma dotted_append: "dotted k s \<noteq> None \<Longrightarrow> dotted k (s @ x) \<noteq> None"
proof (induction k arbitrary: s)
  case 0
  have "takeWhile is_digit s \<noteq> []" using 0 by (auto simp: Let_def split: if_splits)
  then have "takeWhile is_digit (s @ x) \<noteq> []" by (cases s) (auto split: if_splits)
  then show ?case by (simp add: Let_def)
next
  case (Suc k)
  let ?a = "length (takeWhile is_digit s)"
  from Suc.prems have a: "0 < ?a" and dot: "take 1 (drop ?a s) = ''.''"
    and m: "dotted k (drop (Suc ?a) s) \<noteq> None"
    by (auto simp: Let_def split: if_splits)
  have t: "takeWhile is_digit (s @ x) = takeWhile is_digit s" using dot by (rule takeWhile_digit_append)
  from dot have "?a < length s" by (rule take1_drop_less)
  then have "take 1 (drop ?a (s @ x)) = ''.''" and "drop (Suc ?a) (s @ x) = drop (Suc ?a) s @ x"
    using dot by simp_all
  with Suc.IH [OF m] a t show ?case by (simp add: Let_def)
qed

lemma match_tag_append: "match_tag s \<noteq> None \<Longrightarrow> match_tag (s @ x) \<noteq> None"
proof -
  assume m: "match_tag s \<noteq> None"
  show ?thesis
  proof (cases "take 1 s = ''v''")
    case True
    then obtain s' where s: "s = CHR ''v'' # s'" by (cases s) auto
    from m s have "dotted 2 s' \<noteq> None" by (simp add: match_tag_def)
    then have "dotted 2 (s' @ x) \<noteq> None" by (rule dotted_append)
    with s show ?thesis by (simp add: match_tag_def)
  next
    case False
    with m have d: "dotted 2 s \<noteq> None" by (simp add: match_tag_def)
    then have "s \<noteq> []" by (cases s) (simp_all add: Let_def numeral_2_eq_2)
    with False have "take 1 (s @ x) \<noteq> ''v''" by (cases s) auto
    with dotted_append [OF d] show ?thesis by (simp add: match_tag_def)
  qed
qed

lemma process_tag_append: "t \<noteq> [] \<Longrightarrow> process_tag (t @ x) = process_tag t @ x"
  by (cases t) (simp_all add: process_tag_def startswith_def)




lemma set_update_ok:
  "P (k, v) \<Longrightarrow> \<forall>kv \<in> set al. P kv \<Longrightarrow> \<forall>kv \<in> set (AList.update k v al). P kv"
  by (induction al) auto

text \<open>
  C36: releasing rewrites \<open>module.prop\<close> so that \<open>build.py\<close> reads back the same
  dictionary, in the same key order, with only \<open>version\<close> (its first version tag
  replaced by the new tag) and \<open>versionCode\<close> (the date) changed, provided the file's
  entries and the two new ones survive a line's \<open>strip\<close> and \<open>partition\<close>.
\<close>

theorem process_module_prop_roundtrip:
  assumes "read_bytes (files w) MODULE_PROP = Inr content"
    and "map_of (parse_module_prop content) ''version'' = Some v"
    and "\<forall>kv \<in> set (parse_module_prop content). prop_ok kv"
    and "prop_ok (''version'', re_sub tag_re (Some 1) tag [] v)" and "prop_ok (''versionCode'', date)"
  shows "\<exists>out. process_module_prop date tag w = (Inr (), w\<lparr>files := put_entry MODULE_PROP (File out) (files w)\<rparr>) \<and>
           parse_module_prop out =
             AList.update ''versionCode'' date
               (AList.update ''version'' (re_sub tag_re (Some 1) tag [] v) (parse_module_prop content))"
proof -
  let ?props = "AList.update ''versionCode'' date
      (AList.update ''version'' (re_sub tag_re (Some 1) tag [] v) (parse_module_prop content))"
  have d: "distinct (map fst ?props)" by (simp add: distinct_update parse_module_prop_distinct)
  have ok: "\<forall>kv \<in> set ?props. prop_ok kv"
    by (rule set_update_ok [OF assms(5) set_update_ok [OF assms(4) assms(3)]])
  have "process_module_prop date tag w =
      (Inr (), w\<lparr>files := put_entry MODULE_PROP (File (format_module_prop ?props)) (files w)\<rparr>)"
    using assms(1,2) by (simp add: process_module_prop_def process_module_prop_text_def)
  moreover have "parse_module_prop (format_module_prop ?props) = ?props" by (rule parse_format_props [OF d ok])
  ultimately show ?thesis by blast
qed

text \<open>
  C37: the tag check of \<open>main\<close> uses \<open>VERSION_TAG_RE.match\<close>, which anchors only at the
  start: once a tag is accepted, the same tag followed by any text is accepted too, and
  that text ends up in \<open>module.prop\<close>, \<open>update.json\<close> and the git tag.
\<close>

theorem validate_tags_any_suffix:
  assumes "validate_tags t None = Inr (t', None)"
  shows "validate_tags (t @ x) None = Inr (t' @ x, None)"
proof -
  from assms have m: "match_tag (process_tag t) \<noteq> None" and t': "t' = process_tag t"
    by (auto simp: validate_tags_def Let_def split: if_splits)
  have "t \<noteq> []"
  proof
    assume "t = []"
    with m show False by (simp add: process_tag_def startswith_def match_tag_def numeral_2_eq_2)
  qed
  then have "process_tag (t @ x) = process_tag t @ x" by (rule process_tag_append)
  with match_tag_append [OF m] t' show ?thesis by (simp add: validate_tags_def Let_def)
qed

text \<open>A match of \<open>VERSION_TAG_RE\<close> is at least five characters long (three digits and
  two dots) and never runs past the text.\<close>

lemma match_tag_bounds:
  assumes "match_tag s = Some n"
  shows "5 \<le> n \<and> n \<le> length s"
proof (cases "take 1 s = ''v''")
  case True
  then obtain s' where s: "s = CHR ''v'' # s'" by (cases s) auto
  with assms True obtain m where "dotted 2 s' = Some m" and n: "n = Suc m"
    by (auto simp: match_tag_def)
  from dotted_bounds [OF this(1)] n s show ?thesis by simp
next
  case False
  with assms have "dotted 2 s = Some n" by (simp add: match_tag_def)
  from dotted_bounds [OF this] show ?thesis by simp
qed


subsection \<open>Witnesses\<close>

theorem process_module_prop_roundtrip_witness:
  "\<exists>out. process_module_prop ''20261109'' ''v0.3.0''
       (\<lparr>files = [([''module''], Dir), ([''module'', ''module.prop''], File (''id=py2droid'' @ [NL] @ ''version=v0.2.0'' @ [NL]))],
         cmds = [], environ = []\<rparr> :: world) =
     (Inr (), (\<lparr>files = [([''module''], Dir), ([''module'', ''module.prop''], File (''id=py2droid'' @ [NL] @ ''version=v0.2.0'' @ [NL]))],
         cmds = [], environ = []\<rparr> :: world)\<lparr>files := put_entry MODULE_PROP (File out)
           (files (\<lparr>files = [([''module''], Dir), ([''module'', ''module.prop''], File (''id=py2droid'' @ [NL] @ ''version=v0.2.0'' @ [NL]))],
              cmds = [], environ = []\<rparr> :: world))\<rparr>) \<and>
     parse_module_prop out =
       AList.update ''versionCode'' ''20261109''
         (AList.update ''version'' (re_sub tag_re (Some 1) ''v0.3.0'' [] ''v0.2.0'')
           (parse_module_prop (''id=py2droid'' @ [NL] @ ''version=v0.2.0'' @ [NL])))"
  by (rule process_module_prop_roundtrip) (simp_all add: model_eval prop_ok_def Let_def numeral_2_eq_2)

theorem validate_tags_any_suffix_witness:
  "validate_tags ''1.2.3.4-garbage'' None = Inr (''v1.2.3.4-garbage'', None)"
proof -
  have "validate_tags ''1.2.3'' None = Inr (''v1.2.3'', None)"
    by (simp add: model_eval Let_def numeral_2_eq_2)
  with validate_tags_any_suffix [of "''1.2.3''" "''v1.2.3''" "''.4-garbage''"] show ?thesis by simp
qed



subsection \<open>The versionCode\<close>

lemma int_of_digits_acc:
  "foldl (\<lambda>n c. 10 * n + (int (of_char c) - 48)) a s = a * 10 ^ length s + int_of_digits s"
proof (induction s arbitrary: a)
  case Nil
  then show ?case by (simp add: int_of_digits_def)
next
  case (Cons c s)
  let ?f = "\<lambda>n c. 10 * n + (int (of_char c) - 48)"
  let ?d = "int (of_char c) - 48"
  have "foldl ?f a (c # s) = (10 * a + ?d) * 10 ^ length s + int_of_digits s"
    using Cons.IH [of "10 * a + ?d"] by simp
  moreover have "int_of_digits (c # s) = ?d * 10 ^ length s + int_of_digits s"
    using Cons.IH [of ?d] by (simp add: int_of_digits_def)
  ultimately show ?case by (simp add: algebra_simps)
qed

lemma int_of_digits_append: "int_of_digits (s @ t) = int_of_digits s * 10 ^ length t + int_of_digits t"
  using int_of_digits_acc [of "int_of_digits s" t] by (simp add: int_of_digits_def)

lemma pad_digits_length [simp]: "length (pad_digits k n) = k"
  by (induction k arbitrary: n) simp_all

lemma pad_digits_value: "int_of_digits (pad_digits k n) = int (n mod 10 ^ k)"
proof (induction k arbitrary: n)
  case 0
  then show ?case by (simp add: int_of_digits_def)
next
  case (Suc k)
  have "of_char (char_of (48 + n mod 10) :: char) = 48 + n mod 10"
    by (simp add: of_char_of)
  then have "int_of_digits [char_of (48 + n mod 10)] = int (n mod 10)"
    by (simp add: int_of_digits_def)
  then have "int_of_digits (pad_digits (Suc k) n) = int (n div 10 mod 10 ^ k) * 10 + int (n mod 10)"
    using Suc by (simp add: int_of_digits_append)
  also have "\<dots> = int (n mod 10 ^ Suc k)"
    by (simp add: mod_mult2_eq [of n 10 "10 ^ k"] algebra_simps)
  finally show ?case .
qed

lemma version_code_value:
  "y < 10000 \<Longrightarrow> m < 100 \<Longrightarrow> d < 100 \<Longrightarrow>
     int_of_digits (version_code_date y m d) = int (y * 10000 + m * 100 + d)"
  by (simp add: version_code_date_def int_of_digits_append pad_digits_value)

text \<open>
  C14: the \<open>versionCode\<close> written to \<open>update.json\<close>, \<open>int(VERSION_CODE_DATE)\<close>, grows
  with the release date: a release on a later day gets a larger code (Magisk offers an
  update only for a larger \<open>versionCode\<close>), and every code of a date up to 9999-12-31
  fits the signed 32-bit \<open>versionCode\<close> of an Android package.  Both rest on the
  \<open>%Y%m%d\<close> order and padding of the format.
\<close>

theorem version_code_monotone:
  assumes "valid_date y m d" and "valid_date y' m' d'"
    and "y < y' \<or> (y = y' \<and> (m < m' \<or> (m = m' \<and> d < d')))"
  shows "int_of_digits (version_code_date y m d) < int_of_digits (version_code_date y' m' d') \<and>
         int_of_digits (version_code_date y' m' d') < 2 ^ 31"
proof -
  have v: "int_of_digits (version_code_date y m d) = int (y * 10000 + m * 100 + d)"
    "int_of_digits (version_code_date y' m' d') = int (y' * 10000 + m' * 100 + d')"
    using assms(1,2) by (simp_all add: valid_date_def version_code_value)
  have "y * 10000 + m * 100 + d < y' * 10000 + m' * 100 + d'"
    using assms by (auto simp: valid_date_def)
  moreover have "y' * 10000 + m' * 100 + d' < 2 ^ 31"
    using assms(2) by (simp add: valid_date_def)
  ultimately show ?thesis unfolding v by simp
qed

theorem version_code_monotone_witness:
  "int_of_digits (version_code_date 2026 11 9) < int_of_digits (version_code_date 2026 11 10) \<and>
   int_of_digits (version_code_date 2026 11 10) < 2 ^ 31 \<and> version_code_date 2026 11 9 = ''20261109''"
proof -
  have "valid_date 2026 11 9" "valid_date 2026 11 10" by (simp_all add: valid_date_def)
  moreover have "version_code_date 2026 11 9 = ''20261109''"
    by code_simp
  ultimately show ?thesis using version_code_monotone [of 2026 11 9 2026 11 10] by simp
qed

end
