(* ===== verification/UpdateBin.thy ===== *)
theory UpdateBin
  imports Source
begin

text \<open>
  The on-device wrapper synchroniser \<open>module/update-bin.py\<close>.  It runs in the module
  directory, so \<open>MODULE_BIN\<close> is the relative path \<open>system/bin\<close>; \<open>HOME\<close> and \<open>PATH\<close>
  come from the environment.  \<open>sync_wrappers\<close> collects the regular files of
  \<open>system/bin\<close> (the existing wrappers) and the names of the regular files of every
  \<open>PATH\<close> directory whose text contains \<open>HOME\<close> (the available executables), writes a
  wrapper for every available name without one and deletes every wrapper whose name is
  no longer available.  The available names form a Python \<open>set\<close>, whose iteration
  order the language leaves open: \<open>order\<close> is that order, a parameter of the model
  that every theorem quantifies over.  \<open>chmod\<close> and logging are not modelled (entries
  carry no permission bits).
\<close>

definition MODULE_BIN :: path where
  "MODULE_BIN = [''system'', ''bin'']"

definition wrapper_text :: "string \<Rightarrow> string \<Rightarrow> string" where
  "wrapper_text home prog =
     ''#!/system/bin/sh'' @ [NL] @ ''. \"'' @ home @ ''/env.sh\" && exec '' @ prog @ '' \"$@\"''"

text \<open>\<open>Path.is_dir\<close> of a \<open>PATH\<close> entry; the empty entry is \<open>Path(".")\<close>, the working
  directory.\<close>

definition is_dir_at :: "fs \<Rightarrow> path \<Rightarrow> bool" where
  "is_dir_at fs p \<longleftrightarrow> p = [] \<or> (case map_of fs p of Some e \<Rightarrow> is_dir e | None \<Rightarrow> False)"

definition iter_env_path :: "fs \<Rightarrow> string \<Rightarrow> string \<Rightarrow> path list" where
  "iter_env_path fs home env_path =
     filter (is_dir_at fs) (map path_parts (filter (sublist home) (split_on CHR '':'' env_path)))"

text \<open>\<open>{file.name: file for file in d.iterdir() if file.is_file()}\<close>.\<close>

definition file_entries :: "fs \<Rightarrow> path \<Rightarrow> (string \<times> path) list" where
  "file_entries fs d =
     map (\<lambda>q. (last q, q)) (filter (\<lambda>q. case map_of fs q of Some e \<Rightarrow> is_file e | None \<Rightarrow> False) (children fs d))"

definition write_text :: "path \<Rightarrow> string \<Rightarrow> fs \<Rightarrow> py_error + fs" where
  "write_text p c fs =
     (case map_of fs p of
        Some e \<Rightarrow> if is_dir e then Inl (IsADirectoryError p) else Inr (put_entry p (File c) fs)
      | None \<Rightarrow> if is_dir_at fs (butlast p) then Inr (put_entry p (File c) fs) else Inl (FileNotFoundError p))"

definition create_wrapper :: "string \<Rightarrow> path \<Rightarrow> ('a world_scheme, unit) exc" where
  "create_wrapper home p w =
     (case write_text p (wrapper_text home (last p)) (files w) of
        Inl e \<Rightarrow> (Inl e, w)
      | Inr fs \<Rightarrow> (Inr (), w\<lparr>files := fs\<rparr>))"

definition remove_wrapper :: "path \<Rightarrow> ('a world_scheme, unit) exc" where
  "remove_wrapper p w =
     (case map_of (files w) p of
        None \<Rightarrow> (Inl (FileNotFoundError p), w)
      | Some Dir \<Rightarrow> (Inl (IsADirectoryError p), w)
      | Some _ \<Rightarrow> (Inr (), w\<lparr>files := unlink p (files w)\<rparr>))"

definition available_names :: "fs \<Rightarrow> string \<Rightarrow> string \<Rightarrow> string list" where
  "available_names fs home env_path =
     concat (map (\<lambda>d. map fst (file_entries fs d)) (iter_env_path fs home env_path))"

definition sync_wrappers :: "string \<Rightarrow> (string list \<Rightarrow> string list) \<Rightarrow> ('a world_scheme, unit) exc" where
  "sync_wrappers home order w =
     (case iterdir (files w) MODULE_BIN of
        Inl e \<Rightarrow> (Inl e, w)
      | Inr _ \<Rightarrow>
          (let existing = file_entries (files w) MODULE_BIN in
           case map_of (environ w) ''PATH'' of
             None \<Rightarrow> (Inl (KeyError ''PATH''), w)
           | Some env_path \<Rightarrow>
               (let avail = order (available_names (files w) home env_path) in
                ebind (eforeach (\<lambda>n. if n \<in> set (map fst existing) then ereturn ()
                                     else create_wrapper home (MODULE_BIN @ [n])) avail) (\<lambda>_.
                eforeach (\<lambda>(n, p). if n \<in> set avail then ereturn () else remove_wrapper p) existing) w)))"

text \<open>\<open>MODULE_BIN.mkdir(parents=True, exist_ok=True)\<close>: missing ancestors are created;
  an existing entry that is not a directory, on the path or at it, raises.\<close>

definition mkdir_p :: "path \<Rightarrow> fs \<Rightarrow> py_error + fs" where
  "mkdir_p p fs =
     (case map_of fs p of
        Some e \<Rightarrow> if is_dir e then Inr fs else Inl (FileExistsError p)
      | None \<Rightarrow>
          if list_ex (\<lambda>a. case map_of fs a of Some e \<Rightarrow> \<not> is_dir e | None \<Rightarrow> False) (butlast (prefixes p))
          then Inl (NotADirectoryError p) else Inr (put_entry p Dir fs))"

fun is_oserror :: "py_error \<Rightarrow> bool" where
  "is_oserror (FileNotFoundError _) = True"
| "is_oserror (NotADirectoryError _) = True"
| "is_oserror (IsADirectoryError _) = True"
| "is_oserror (FileExistsError _) = True"
| "is_oserror _ = False"

definition update_bin_main :: "string \<Rightarrow> (string list \<Rightarrow> string list) \<Rightarrow> ('a world_scheme, unit) exc" where
  "update_bin_main home order w =
     (let (r, w') = (case mkdir_p MODULE_BIN (files w) of
                       Inl e \<Rightarrow> (Inl e, w)
                     | Inr fs \<Rightarrow> sync_wrappers home order (w\<lparr>files := fs\<rparr>))
      in case r of
           Inl e \<Rightarrow> (if is_oserror e then Inl (SystemExit 1 ''Failed to sync wrappers'') else Inl e, w')
         | Inr u \<Rightarrow> (Inr u, w'))"

text \<open>The script: \<open>HOME = environ["HOME"]\<close> runs when the module is loaded.\<close>

definition update_bin :: "(string list \<Rightarrow> string list) \<Rightarrow> ('a world_scheme, unit) exc" where
  "update_bin order w =
     (case map_of (environ w) ''HOME'' of
        None \<Rightarrow> (Inl (KeyError ''HOME''), w)
      | Some home \<Rightarrow> update_bin_main home order w)"

text \<open>What a synchronisation leaves in \<open>system/bin\<close>: an available name keeps its
  regular file or gets a new wrapper, a regular file whose name is not available is
  gone, and everything else is as it was.\<close>

definition sync_spec :: "fs \<Rightarrow> string \<Rightarrow> string list \<Rightarrow> path \<Rightarrow> entry option" where
  "sync_spec fs home avail q =
     (if q \<noteq> [] \<and> butlast q = MODULE_BIN then
        (let n = last q; ex = (case map_of fs q of Some e \<Rightarrow> is_file e | None \<Rightarrow> False) in
         if n \<in> set avail then (if ex then map_of fs q else Some (File (wrapper_text home n)))
         else if ex then None else map_of fs q)
      else map_of fs q)"

text \<open>A device for the examples: \<open>HOME\<close> is \<open>/data/py\<close>, and \<open>PATH\<close> also names the
  directory of an older installation, \<open>/data/py-old/bin\<close>.\<close>

definition ex_device :: world where
  "ex_device = \<lparr>files = [([''system''], Dir), ([''system'', ''bin''], Dir), ([''system'', ''bin'', ''old''], File ''x''),
       ([''/''], Dir), ([''/'', ''data''], Dir), ([''/'', ''data'', ''py''], Dir), ([''/'', ''data'', ''py'', ''bin''], Dir),
       ([''/'', ''data'', ''py'', ''bin'', ''python3''], File ''elf''), ([''/'', ''data'', ''py-old''], Dir),
       ([''/'', ''data'', ''py-old'', ''bin''], Dir), ([''/'', ''data'', ''py-old'', ''bin'', ''evil''], File ''e'')],
     cmds = [], environ = [(''HOME'', ''/data/py''), (''PATH'', ''/data/py/bin:/data/py-old/bin'')]\<rparr>"

lemmas update_bin_eval [model_eval] = MODULE_BIN_def wrapper_text_def is_dir_at_def iter_env_path_def
  file_entries_def write_text_def create_wrapper_def remove_wrapper_def available_names_def
  sync_wrappers_def mkdir_p_def update_bin_main_def update_bin_def sync_spec_def
  ex_device_def


subsection \<open>The existing wrappers\<close>

lemma file_entries_path:
  "(n, p) \<in> set (file_entries fs d) \<Longrightarrow>
     p = d @ [n] \<and> (\<exists>e. map_of fs p = Some e \<and> is_file e)"
proof -
  assume "(n, p) \<in> set (file_entries fs d)"
  then have c: "p \<in> set (children fs d)" and n: "n = last p"
    and f: "case map_of fs p of Some e \<Rightarrow> is_file e | None \<Rightarrow> False"
    by (auto simp: file_entries_def)
  from c have "p \<noteq> []" and "butlast p = d" by (auto simp: children_def)
  then have "p = d @ [n]" using n by (simp add: butlast_last_eq)
  with f show ?thesis by (auto split: option.splits)
qed

lemma file_entries_names:
  "n \<in> set (map fst (file_entries fs d)) \<longleftrightarrow>
     (case map_of fs (d @ [n]) of Some e \<Rightarrow> is_file e | None \<Rightarrow> False)"
proof
  assume "n \<in> set (map fst (file_entries fs d))"
  then obtain p where "(n, p) \<in> set (file_entries fs d)" by auto
  from file_entries_path [OF this] show "case map_of fs (d @ [n]) of Some e \<Rightarrow> is_file e | None \<Rightarrow> False"
    by auto
next
  assume f: "case map_of fs (d @ [n]) of Some e \<Rightarrow> is_file e | None \<Rightarrow> False"
  then obtain e where "map_of fs (d @ [n]) = Some e" by (auto split: option.splits)
  then have "d @ [n] \<in> set (map fst fs)" by (auto dest: map_of_SomeD intro: rev_image_eqI)
  then have "d @ [n] \<in> set (children fs d)" by (simp add: children_def)
  with f have "(n, d @ [n]) \<in> set (file_entries fs d)" by (force simp: file_entries_def)
  then show "n \<in> set (map fst (file_entries fs d))" by force
qed

lemma file_entries_distinct: "distinct (map fst fs) \<Longrightarrow> distinct (map snd (file_entries fs d))"
  by (simp add: file_entries_def children_def comp_def distinct_map_filter)

lemma put_entry_bin:
  assumes "map_of fs [''system''] \<noteq> None" and "map_of fs MODULE_BIN \<noteq> None"
  shows "put_entry (MODULE_BIN @ [n]) e fs = AList.update (MODULE_BIN @ [n]) e fs"
  using assms by (auto simp: put_entry_def MODULE_BIN_def)


subsection \<open>The two loops\<close>

text \<open>The creating loop writes a wrapper at every name it does not skip, provided
  \<open>system/bin\<close> is there and none of those names is a directory.\<close>

lemma create_loop:
  assumes "map_of (files w) [''system''] \<noteq> None" and "map_of (files w) MODULE_BIN = Some Dir"
    and "\<forall>n \<in> set ns. \<not> X n \<longrightarrow> (case map_of (files w) (MODULE_BIN @ [n]) of Some e \<Rightarrow> \<not> is_dir e | None \<Rightarrow> True)"
  shows "\<exists>w1. eforeach (\<lambda>n. if X n then ereturn () else create_wrapper home (MODULE_BIN @ [n])) ns w = (Inr (), w1) \<and>
    map_of (files w1) = (\<lambda>q. if \<exists>n \<in> set ns. \<not> X n \<and> q = MODULE_BIN @ [n]
                             then Some (File (wrapper_text home (last q))) else map_of (files w) q) \<and>
    cmds w1 = cmds w \<and> environ w1 = environ w"
  using assms
proof (induction ns arbitrary: w)
  case Nil
  then show ?case by (simp add: ereturn_def)
next
  case (Cons m ns)
  show ?case
  proof (cases "X m")
    case True
    from Cons.IH [OF Cons.prems(1,2)] Cons.prems(3) obtain w1 where
      r: "eforeach (\<lambda>n. if X n then ereturn () else create_wrapper home (MODULE_BIN @ [n])) ns w = (Inr (), w1)"
      and m: "map_of (files w1) = (\<lambda>q. if \<exists>n \<in> set ns. \<not> X n \<and> q = MODULE_BIN @ [n]
                             then Some (File (wrapper_text home (last q))) else map_of (files w) q)"
      and c: "cmds w1 = cmds w \<and> environ w1 = environ w"
      by auto
    have "map_of (files w1) = (\<lambda>q. if \<exists>n \<in> set (m # ns). \<not> X n \<and> q = MODULE_BIN @ [n]
                             then Some (File (wrapper_text home (last q))) else map_of (files w) q)"
      unfolding m using True by auto
    with True r c show ?thesis by (simp add: ereturn_def)
  next
    case False
    let ?p = "MODULE_BIN @ [m]"
    let ?w' = "w\<lparr>files := AList.update ?p (File (wrapper_text home m)) (files w)\<rparr>"
    have nd: "case map_of (files w) ?p of Some e \<Rightarrow> \<not> is_dir e | None \<Rightarrow> True"
      using Cons.prems(3) False by simp
    have pb: "put_entry ?p (File (wrapper_text home m)) (files w) = AList.update ?p (File (wrapper_text home m)) (files w)"
      using Cons.prems(1,2) by (simp add: put_entry_bin)
    have cw: "create_wrapper home ?p w = (Inr (), ?w')"
      using nd Cons.prems(2) pb
      by (auto simp: create_wrapper_def write_text_def is_dir_at_def split: option.splits)
    have m': "map_of (files ?w') q = (if q = ?p then Some (File (wrapper_text home m)) else map_of (files w) q)" for q
      by (simp add: update_conv')
    have p1: "map_of (files ?w') [''system''] \<noteq> None" and p2: "map_of (files ?w') MODULE_BIN = Some Dir"
      using Cons.prems(1,2) by (simp_all add: update_conv' MODULE_BIN_def)
    have p3: "\<forall>n \<in> set ns. \<not> X n \<longrightarrow> (case map_of (files ?w') (MODULE_BIN @ [n]) of Some e \<Rightarrow> \<not> is_dir e | None \<Rightarrow> True)"
      using Cons.prems(3) unfolding m' by simp
    from Cons.IH [OF p1 p2 p3] obtain w1 where
      r: "eforeach (\<lambda>n. if X n then ereturn () else create_wrapper home (MODULE_BIN @ [n])) ns ?w' = (Inr (), w1)"
      and m: "map_of (files w1) = (\<lambda>q. if \<exists>n \<in> set ns. \<not> X n \<and> q = MODULE_BIN @ [n]
                             then Some (File (wrapper_text home (last q))) else map_of (files ?w') q)"
      and c: "cmds w1 = cmds ?w' \<and> environ w1 = environ ?w'"
      by blast
    have "map_of (files w1) = (\<lambda>q. if \<exists>n \<in> set (m # ns). \<not> X n \<and> q = MODULE_BIN @ [n]
                             then Some (File (wrapper_text home (last q))) else map_of (files w) q)"
      unfolding m m' using False by (auto simp: fun_eq_iff)
    with False cw r c show ?thesis by simp
  qed
qed

text \<open>The removing loop deletes every wrapper it does not skip; each is a different
  path and none is a directory.\<close>

lemma remove_loop:
  assumes "distinct (map snd es)"
    and "\<forall>(n, p) \<in> set es. \<not> Y n \<longrightarrow> (\<exists>e. map_of (files w) p = Some e \<and> e \<noteq> Dir)"
  shows "\<exists>w2. eforeach (\<lambda>(n, p). if Y n then ereturn () else remove_wrapper p) es w = (Inr (), w2) \<and>
    map_of (files w2) = (\<lambda>q. if \<exists>(n, p) \<in> set es. \<not> Y n \<and> q = p then None else map_of (files w) q) \<and>
    cmds w2 = cmds w \<and> environ w2 = environ w"
  using assms
proof (induction es arbitrary: w)
  case Nil
  then show ?case by (simp add: ereturn_def)
next
  case (Cons np es)
  obtain m pm where np: "np = (m, pm)" by fastforce
  have d: "distinct (map snd es)" and pm: "pm \<notin> snd ` set es" using Cons.prems(1) np by auto
  show ?case
  proof (cases "Y m")
    case True
    from Cons.IH [OF d] Cons.prems(2) obtain w2 where
      r: "eforeach (\<lambda>(n, p). if Y n then ereturn () else remove_wrapper p) es w = (Inr (), w2)"
      and m: "map_of (files w2) = (\<lambda>q. if \<exists>(n, p) \<in> set es. \<not> Y n \<and> q = p then None else map_of (files w) q)"
      and c: "cmds w2 = cmds w \<and> environ w2 = environ w"
      by auto
    have "map_of (files w2) = (\<lambda>q. if \<exists>(n, p) \<in> set (np # es). \<not> Y n \<and> q = p then None else map_of (files w) q)"
      unfolding m using True np by auto
    with True np r c show ?thesis by (simp add: ereturn_def)
  next
    case False
    let ?w' = "w\<lparr>files := unlink pm (files w)\<rparr>"
    from Cons.prems(2) False np obtain e where e: "map_of (files w) pm = Some e" "e \<noteq> Dir" by auto
    have rw: "remove_wrapper pm w = (Inr (), ?w')"
      using e by (cases e) (simp_all add: remove_wrapper_def)
    have p2: "\<forall>(n, p) \<in> set es. \<not> Y n \<longrightarrow> (\<exists>e. map_of (files ?w') p = Some e \<and> e \<noteq> Dir)"
      using Cons.prems(2) pm by force
    from Cons.IH [OF d p2] obtain w2 where
      r: "eforeach (\<lambda>(n, p). if Y n then ereturn () else remove_wrapper p) es ?w' = (Inr (), w2)"
      and m: "map_of (files w2) = (\<lambda>q. if \<exists>(n, p) \<in> set es. \<not> Y n \<and> q = p then None else map_of (files ?w') q)"
      and c: "cmds w2 = cmds ?w' \<and> environ w2 = environ ?w'"
      by blast
    have "map_of (files w2) = (\<lambda>q. if \<exists>(n, p) \<in> set (np # es). \<not> Y n \<and> q = p then None else map_of (files w) q)"
      unfolding m using False np by (auto simp: fun_eq_iff)
    with False np rw r c show ?thesis by simp
  qed
qed


lemma is_file_not_dir: "is_file e \<Longrightarrow> \<not> is_dir e"
  by (cases e rule: is_file.cases) simp_all

lemma wf_fs_system:
  assumes "wf_fs fs" and "map_of fs MODULE_BIN = Some Dir"
  shows "map_of fs [''system''] \<noteq> None"
proof -
  from assms(2) have "MODULE_BIN \<in> set (map fst fs)" by (force dest: map_of_SomeD)
  with assms(1) have all: "\<forall>a \<in> set (prefixes MODULE_BIN). a \<noteq> [] \<and> a \<noteq> MODULE_BIN \<longrightarrow> map_of fs a = Some Dir"
    unfolding wf_fs_def by blast
  have "[''system''] \<in> set (prefixes MODULE_BIN)" and "[''system''] \<noteq> MODULE_BIN"
    by (simp_all add: MODULE_BIN_def)
  with all show ?thesis by auto
qed

text \<open>The two loops together leave what \<open>sync_spec\<close> describes.\<close>

lemma sync_loops_spec:
  assumes "set A = set avail"
  shows "(\<lambda>q. if \<exists>(n, p) \<in> set (file_entries fs MODULE_BIN). n \<notin> set A \<and> q = p then None
              else if \<exists>n \<in> set A. n \<notin> set (map fst (file_entries fs MODULE_BIN)) \<and> q = MODULE_BIN @ [n]
              then Some (File (wrapper_text home (last q))) else map_of fs q) =
         sync_spec fs home avail"
proof
  fix q
  let ?E = "file_entries fs MODULE_BIN"
  let ?ex = "case map_of fs q of Some e \<Rightarrow> is_file e | None \<Rightarrow> False"
  show "(if \<exists>(n, p) \<in> set ?E. n \<notin> set A \<and> q = p then None
         else if \<exists>n \<in> set A. n \<notin> set (map fst ?E) \<and> q = MODULE_BIN @ [n]
         then Some (File (wrapper_text home (last q))) else map_of fs q) = sync_spec fs home avail q"
  proof (cases "q \<noteq> [] \<and> butlast q = MODULE_BIN")
    case True
    then have q: "q = MODULE_BIN @ [last q]" by (simp add: butlast_last_eq)
    have names: "last q \<in> set (map fst ?E) \<longleftrightarrow> ?ex"
      using file_entries_names [of "last q" fs MODULE_BIN] q by simp
    have first: "(\<exists>(n, p) \<in> set ?E. n \<notin> set A \<and> q = p) \<longleftrightarrow> last q \<notin> set A \<and> ?ex"
    proof
      assume "\<exists>(n, p) \<in> set ?E. n \<notin> set A \<and> q = p"
      then obtain n p where np: "(n, p) \<in> set ?E" "n \<notin> set A" "q = p" by blast
      from file_entries_path [OF np(1)] np(3) have "n = last q" by simp
      with np names show "last q \<notin> set A \<and> ?ex" by force
    next
      assume "last q \<notin> set A \<and> ?ex"
      with names obtain p where "(last q, p) \<in> set ?E" by force
      moreover from file_entries_path [OF this] q have "p = q" by simp
      ultimately show "\<exists>(n, p) \<in> set ?E. n \<notin> set A \<and> q = p" using \<open>last q \<notin> set A \<and> ?ex\<close> by blast
    qed
    have second: "(\<exists>n \<in> set A. n \<notin> set (map fst ?E) \<and> q = MODULE_BIN @ [n]) \<longleftrightarrow> last q \<in> set A \<and> \<not> ?ex"
      using names q by (metis last_snoc)
    show ?thesis
      unfolding first second using True assms by (simp add: sync_spec_def Let_def)
  next
    case False
    have n1: "\<not> (\<exists>(n, p) \<in> set ?E. n \<notin> set A \<and> q = p)"
      using False by (auto dest!: file_entries_path)
    have n2: "\<not> (\<exists>n \<in> set A. n \<notin> set (map fst ?E) \<and> q = MODULE_BIN @ [n])"
      using False by auto
    have "sync_spec fs home avail q = map_of fs q" unfolding sync_spec_def using False by (rule if_not_P)
    then show ?thesis unfolding if_not_P [OF n1] if_not_P [OF n2] by simp
  qed
qed

subsection \<open>Synchronisation\<close>

lemma sync_wrappers_run:
  assumes wf: "wf_fs (files w)" and bin: "map_of (files w) MODULE_BIN = Some Dir"
    and path: "map_of (environ w) ''PATH'' = Some ep"
    and ord: "set (order (available_names (files w) home ep)) = set (available_names (files w) home ep)"
    and free: "\<forall>n \<in> set (available_names (files w) home ep).
                 case map_of (files w) (MODULE_BIN @ [n]) of Some e \<Rightarrow> is_file e | None \<Rightarrow> True"
  shows "\<exists>w'. sync_wrappers home order w = (Inr (), w') \<and>
           map_of (files w') = sync_spec (files w) home (available_names (files w) home ep) \<and>
           cmds w' = cmds w \<and> environ w' = environ w"
proof -
  let ?fs = "files w"
  let ?E = "file_entries ?fs MODULE_BIN"
  let ?A = "order (available_names ?fs home ep)"
  have sys: "map_of ?fs [''system''] \<noteq> None" using wf bin by (rule wf_fs_system)
  have pre1: "\<forall>n \<in> set ?A. n \<notin> set (map fst ?E) \<longrightarrow>
      (case map_of ?fs (MODULE_BIN @ [n]) of Some e \<Rightarrow> \<not> is_dir e | None \<Rightarrow> True)"
    using free ord by (auto simp: is_file_not_dir split: option.splits)
  obtain w1 where
    r1: "eforeach (\<lambda>n. if n \<in> set (map fst ?E) then ereturn () else create_wrapper home (MODULE_BIN @ [n])) ?A w =
      (Inr (), w1)"
    and m1: "map_of (files w1) = (\<lambda>q. if \<exists>n \<in> set ?A. n \<notin> set (map fst ?E) \<and> q = MODULE_BIN @ [n]
                             then Some (File (wrapper_text home (last q))) else map_of ?fs q)"
    and c1: "cmds w1 = cmds w \<and> environ w1 = environ w"
    using create_loop [OF sys bin pre1] by blast
  have d: "distinct (map snd ?E)" using wf by (simp add: wf_fs_def file_entries_distinct)
  have pre2: "\<forall>(n, p) \<in> set ?E. n \<notin> set ?A \<longrightarrow> (\<exists>e. map_of (files w1) p = Some e \<and> e \<noteq> Dir)"
  proof (intro ballI, clarify)
    fix n p
    assume np: "(n, p) \<in> set ?E"
    from file_entries_path [OF np] obtain e where p: "p = MODULE_BIN @ [n]"
      and e: "map_of ?fs p = Some e" "is_file e" by blast
    from np have "n \<in> set (map fst ?E)" by force
    then have "map_of (files w1) p = map_of ?fs p" unfolding m1 p by auto
    with e show "\<exists>e. map_of (files w1) p = Some e \<and> e \<noteq> Dir" by auto
  qed
  obtain w2 where
    r2: "eforeach (\<lambda>(n, p). if n \<in> set ?A then ereturn () else remove_wrapper p) ?E w1 = (Inr (), w2)"
    and m2: "map_of (files w2) = (\<lambda>q. if \<exists>(n, p) \<in> set ?E. n \<notin> set ?A \<and> q = p then None else map_of (files w1) q)"
    and c2: "cmds w2 = cmds w1 \<and> environ w2 = environ w1"
    using remove_loop [OF d pre2] by blast
  have "sync_wrappers home order w = (Inr (), w2)"
    using bin path r1 r2 by (simp add: sync_wrappers_def iterdir_def Let_def)
  moreover have "map_of (files w2) = sync_spec ?fs home (available_names ?fs home ep)"
    unfolding m2 m1 by (rule sync_loops_spec [OF ord])
  ultimately show ?thesis using c1 c2 by auto
qed

text \<open>
  C39: \<open>sync_wrappers\<close> implements its specification, whatever order the set of
  available names is iterated in: afterwards every available name of \<open>system/bin\<close> is
  a regular file (the one that was there or a new wrapper that sources
  \<open>HOME/env.sh\<close> and execs the name), every regular file whose name is not available
  is gone, and nothing else changed; nothing is raised and no command is run.
\<close>

theorem sync_wrappers_refines:
  assumes wf: "wf_fs (files w)" and bin: "map_of (files w) MODULE_BIN = Some Dir"
    and path: "map_of (environ w) ''PATH'' = Some ep"
    and ord: "set (order (available_names (files w) home ep)) = set (available_names (files w) home ep)"
    and free: "\<forall>n \<in> set (available_names (files w) home ep).
                 case map_of (files w) (MODULE_BIN @ [n]) of Some e \<Rightarrow> is_file e | None \<Rightarrow> True"
  shows "\<exists>w'. sync_wrappers home order w = (Inr (), w') \<and>
           map_of (files w') = sync_spec (files w) home (available_names (files w) home ep) \<and>
           cmds w' = cmds w \<and> environ w' = environ w"
  by (rule sync_wrappers_run [where order = order, OF wf bin path ord free])





lemma available_names_entry:
  assumes "e \<in> set (split_on CHR '':'' ep)" and "sublist home e" and "is_dir_at fs (path_parts e)"
    and "map_of fs (path_parts e @ [n]) = Some f" and "is_file f"
  shows "n \<in> set (available_names fs home ep)"
proof -
  have "path_parts e \<in> set (iter_env_path fs home ep)"
    using assms(1-3) by (auto simp: iter_env_path_def)
  moreover have "n \<in> set (map fst (file_entries fs (path_parts e)))"
    using assms(4,5) file_entries_names [of n fs "path_parts e"] by simp
  ultimately show ?thesis by (auto simp: available_names_def)
qed

text \<open>
  C40: \<open>iter_env_path\<close> selects \<open>PATH\<close> entries by \<open>HOME in entry\<close>, a substring test,
  not by the entry lying under \<open>HOME\<close>: for every \<open>PATH\<close> entry that merely contains
  the text of \<open>HOME\<close> (\<open>/data/py-old/bin\<close> next to \<open>HOME=/data/py\<close>) and names a
  directory, every regular file there gets a wrapper in \<open>system/bin\<close> that runs it
  under this module's \<open>env.sh\<close>.
\<close>

theorem sync_wrappers_home_substring:
  assumes wf: "wf_fs (files w)" and bin: "map_of (files w) MODULE_BIN = Some Dir"
    and path: "map_of (environ w) ''PATH'' = Some ep"
    and ord: "set (order (available_names (files w) home ep)) = set (available_names (files w) home ep)"
    and free: "\<forall>n \<in> set (available_names (files w) home ep).
                 case map_of (files w) (MODULE_BIN @ [n]) of Some e \<Rightarrow> is_file e | None \<Rightarrow> True"
    and e: "e \<in> set (split_on CHR '':'' ep)" "sublist home e" "is_dir_at (files w) (path_parts e)"
    and n: "map_of (files w) (path_parts e @ [n]) = Some f" "is_file f"
    and new: "map_of (files w) (MODULE_BIN @ [n]) = None"
  shows "\<exists>w'. sync_wrappers home order w = (Inr (), w') \<and>
           map_of (files w') (MODULE_BIN @ [n]) = Some (File (wrapper_text home n))"
proof -
  obtain w' where r: "sync_wrappers home order w = (Inr (), w')"
    and m: "map_of (files w') = sync_spec (files w) home (available_names (files w) home ep)"
    using sync_wrappers_run [where order = order, OF wf bin path ord free] by blast
  have "n \<in> set (available_names (files w) home ep)"
    using available_names_entry [OF e n] .
  then have "map_of (files w') (MODULE_BIN @ [n]) = Some (File (wrapper_text home n))"
    using new by (simp add: m sync_spec_def MODULE_BIN_def)
  with r show ?thesis by blast
qed


subsection \<open>Witnesses\<close>

theorem sync_wrappers_refines_witness:
  "\<exists>w'. sync_wrappers ''/data/py'' remdups ex_device = (Inr (), w') \<and>
     map_of (files w') = sync_spec (files ex_device) ''/data/py''
       (available_names (files ex_device) ''/data/py'' ''/data/py/bin:/data/py-old/bin'') \<and>
     cmds w' = cmds ex_device \<and> environ w' = environ ex_device"
  by (rule sync_wrappers_refines) code_simp+


theorem sync_wrappers_home_substring_witness:
  "\<exists>w'. sync_wrappers ''/data/py'' remdups ex_device = (Inr (), w') \<and>
     map_of (files w') (MODULE_BIN @ [''evil'']) = Some (File (wrapper_text ''/data/py'' ''evil''))"
  by (rule sync_wrappers_home_substring [where ep = "''/data/py/bin:/data/py-old/bin''"
        and e = "''/data/py-old/bin''" and f = "File ''e''"]) code_simp+

end
