(* ===== verification/Spec2Isabelle.thy ===== *)
theory Spec2Isabelle
  imports Shebang Debloat ModuleProp Packaging Template Source Assembly Orchestrator Release UpdateBin
begin

text \<open>
  \<^bold>\<open>A verification development of py2droid.\<close>

  py2droid builds CPython for Android and packages it as a Magisk module.  Its
  repository has three scripts:
  \<^item> \<open>src/scripts/build.py\<close>: the build.  \<open>CPythonBuilder\<close> (the source pipeline)
    downloads, extracts and patches the CPython sources, finds the NDK toolchain, builds
    the process environment and cross-compiles one install prefix per target host;
    \<open>ModuleBuilder\<close> (the packaging pipeline) debloats each prefix by glob rules, rewrites
    interpreter directives in \<open>bin/\<close>, strips symbols, compresses each prefix and writes
    the module ZIP with a rewritten \<open>module.prop\<close>.  \<open>run\<close> executes every external
    command; \<open>update_env_path\<close>, \<open>is_binary\<close>, \<open>parse_module_prop\<close> and
    \<open>format_module_prop\<close> are its helpers.
  \<^item> \<open>src/scripts/release.py\<close>: the release workflow (version fields of
    \<open>module.prop\<close> and \<open>update.json\<close>, the CPython references of \<open>build.toml\<close> and
    \<open>README.md\<close>, the changelog, git commit and tag).
  \<^item> \<open>src/module/update-bin.py\<close>: run on the device, it keeps one shell wrapper in
    \<open>system/bin\<close> per executable found on the module's part of \<open>PATH\<close>.

  \<^bold>\<open>How the model is built.\<close>  A script's state is the record \<open>world\<close>
  (\<open>Process\<close>): the file system as an association list from paths to entries (regular
  file with its bytes, directory, symbolic link by the kind of its target), the log of
  started commands, and \<open>os.environ\<close>.  A statement is a function of type
  \<open>('s, 'a) exc\<close> (\<open>Exc\<close>): from a state to \<open>Inl\<close> of the exception it raises or
  \<open>Inr\<close> of its value, with the state it leaves, so that every effect done before an
  exception is kept.  External programs (curl, patch, android.py, llvm-strip, git,
  git-cliff), the \<open>tarfile\<close>, \<open>zipfile\<close> and \<open>json\<close> codecs and the wcmatch globber are
  parameters of the model, so a theorem holds for every behaviour of them unless it
  states otherwise.

  \<^bold>\<open>Theories, in import order.\<close>
  \<^item> \<open>Prelude\<close>: bytes as \<open>char\<close> lists, paths as lists of names, the exceptions as
    the datatype \<open>py_error\<close>, \<open>str.split\<close> and \<open>str.join\<close>, and the shared list and
    association-list lemmas.
  \<^item> \<open>Regex\<close>: the fragment of Python's \<open>re\<close> that the interpreter patterns of
    \<open>build.py\<close> use, as a backtracking matcher proved sound and complete against the
    declarative language \<open>in_lang\<close>; \<open>re_match\<close> is \<open>Pattern.match\<close>.
  \<^item> \<open>Shebang\<close>: \<open>TEXT_CHARS\<close>, \<open>is_binary\<close>, \<open>readline(1024)\<close>, the two interpreter
    patterns and the rewrite of one file (\<open>fix_shebang\<close>, the loop body of
    \<open>ModuleBuilder._fix_shebangs\<close>).  C1, C2, C4--C7: the rewrite keeps everything
    after the first line, is idempotent, never touches a file whose first line holds a
    NUL byte, reads only the first line to decide (a divergence from the spec's "first
    1024 bytes"), and the patterns' languages.
  \<^item> \<open>Prefix_FS\<close> and \<open>Debloat\<close>: an install prefix seen through \<open>pathlib\<close>, the lazy
    glob walk of \<open>_debloat\<close> and its two loops.  C8--C11: the walk refines the
    specification "remove every selected entry with its subtree", keeps the tree
    well formed, is idempotent, and honours the kinds of a conditional rule (a lemma
    shows that a \<open>file\<close> rule also removes links to files).
  \<^item> \<open>ModuleProp\<close>: the line reader, \<open>str.strip\<close>, \<open>str.partition\<close>, and
    \<open>parse_module_prop\<close>/\<open>format_module_prop\<close>.  C13: the format-then-parse round
    trip (a lemma shows that parse-then-format is not the identity).
  \<^item> \<open>Packaging\<close>: \<open>_fix_shebangs\<close> over a prefix.  C15--C18: it is the rewrite of
    every regular file directly in \<open>bin\<close>, idempotent, keeps the tree, and raises
    without \<open>bin\<close>.
  \<^item> \<open>Template\<close>: \<open>string.Template.substitute\<close> (modelled from the library's
    documented pattern) and the ZIP path.  C19--C20: substitution implements the
    abstract expansion of a template; an unknown field raises \<open>KeyError\<close>.
  \<^item> \<open>Process\<close>: \<open>run\<close> and \<open>update_env_path\<close>.  C21: the prepend (a lemma shows
    the trailing colon an empty \<open>PATH\<close> gets).
  \<^item> \<open>Source\<close>: \<open>CPythonBuilder\<close> stage by stage (\<open>download\<close>, \<open>extract_source\<close>,
    \<open>apply_patches_stage\<close>, \<open>find_ndk_toolchain\<close>, \<open>create_env\<close>, \<open>build_host\<close>,
    \<open>cpython_build\<close>).  C22: progress, every configured host gets its prefix when the
    tools succeed.  C23--C29: a finished build reruns as a no-op, a rerun resumes at
    the first host without a prefix, a failing host aborts the rest, \<open>os.environ\<close> is
    never changed, the outcome of one patch, path traversal on extraction, and the
    error for a missing NDK.
  \<^item> \<open>Assembly\<close>: \<open>ModuleBuilder\<close> (\<open>_download_and_include_cacert\<close>, \<open>_debloat\<close>,
    \<open>_fix_shebangs\<close> and \<open>_strip\<close> on one prefix, \<open>_compress\<close>, \<open>_package_module\<close>,
    \<open>build\<close>).  C30--C33: the ZIP's path and entries, two hosts of one architecture
    overwrite each other's tarball, an unmapped host is found only after its prefix was
    debloated, an included \<open>module.prop\<close> is a second entry of that name.  A lemma shows
    that the fuel of the directory walk is enough.
  \<^item> \<open>Orchestrator\<close>: the top level of \<open>build.py\<close>: \<open>init\<close>
    (\<open>_prepare_environment\<close>, \<open>_prepare_project_directory\<close>), the \<open>--clean\<close> loop of
    \<open>main\<close>, \<open>load_config\<close> and \<open>_process_raw_config\<close> over TOML values (the datatype
    \<open>tval\<close>; \<open>tomllib.load\<close> and \<open>shutil.which\<close> are parameters), and \<open>main\<close>, which
    runs \<open>Source.cpython_build\<close> and hands its result to \<open>Assembly.module_build\<close>.
    The dataclasses are the records \<open>cpython_config\<close> and \<open>module_config\<close>, whose
    fields hold TOML values of any type, as Python's do.  C3: the conversion succeeds
    exactly on the tables of \<open>config_shaped\<close> (the right keys, an iterable \<open>include\<close>, a
    string \<open>version\<close>), whatever the other values' types; C12: \<open>--clean\<close> empties
    \<open>build\<close> and \<open>dist\<close> and nothing else; C34: \<open>init\<close> leaves \<open>build\<close> and \<open>dist\<close>
    present and nothing else changed; C35: \<open>init\<close> requires \<open>build.toml\<close> even when
    \<open>--config\<close> names another file; C38: \<open>--clean\<close> deletes the build artefacts before a
    bad configuration is detected.  \<open>main\<close> hands the pipelines the configuration at its
    declared types (\<open>to_src_cfg\<close>, \<open>to_module_cfg\<close>); a value of another type, which
    Python uses duck-typed, is outside the model and stops its \<open>main\<close> with
    \<open>TypeError\<close>.
  \<^item> \<open>Release\<close>: \<open>release.py\<close>.  C36--C37: the rewritten \<open>module.prop\<close> reads back
    with only the two version fields changed, and the tag check accepts any suffix;
    C14: \<open>VERSION_CODE_DATE\<close> (\<open>version_code_date\<close>, the \<open>%Y%m%d\<close> format of a date
    that is a parameter) gives a \<open>versionCode\<close> that grows with the date and fits a
    signed 32-bit integer.  A lemma shows that the \<open>re.sub\<close> scan with \<open>count=1\<close>
    replaces exactly the leftmost match.
  \<^item> \<open>UpdateBin\<close>: \<open>update-bin.py\<close>.  C39--C40: \<open>sync_wrappers\<close> implements its
    specification for every iteration order of the set of names, and every program in
    a \<open>PATH\<close> directory that merely contains \<open>HOME\<close> in its text gets a wrapper.

  \<^bold>\<open>Loops, termination and fuel.\<close>  Every loop of the scripts runs over a finite
  list and is a structural recursion (\<open>eforeach\<close>, \<open>emap\<close>, \<open>fold\<close>), except three:
  \<open>Template.substitute\<close> and \<open>Release.re_sub\<close> scan a string and terminate by the
  measure of the remaining text (a match is never empty);
  \<open>Assembly.walk_files\<close>, \<open>Path.walk\<close> of a directory, takes as fuel the number of
  entries of the tree, which in a well-formed tree bounds the depth of every entry
  below the walked directory, so that more fuel yields the same list (lemma
  \<open>walk_files_fuel\<close>).

  \<^bold>\<open>Not modelled.\<close>  Logging, \<open>argparse\<close> (the two options of \<open>main\<close> are
  parameters), the TOML parser itself (a parameter), \<open>os.chdir\<close> to the project root
  (every path of the model is relative to it), file permissions
  (\<open>chmod\<close>), and the contents behind symbolic links.  \<open>run\<close> always starts its
  program: the \<open>FileNotFoundError\<close> that \<open>subprocess.run\<close> raises for a missing program
  is not modelled, so no theorem says a stage never raises.  \<open>module.prop\<close> is parsed
  as bytes, without the UTF-8 decoding of \<open>read_text\<close>; writing the ZIP creates a
  missing \<open>dist\<close> where \<open>ZipFile(zip_path, "w")\<close> would raise; the strip stage's
  patterns are read with the debloat stage's negation rule, which agrees on them.
  Replacement strings of
  \<open>re.sub\<close> are inserted literally, which is what Python does for the backslash-free
  tags the release workflow uses.
\<close>

end
